(* ===== verification/Rivet_Prelude.thy ===== *)
theory Rivet_Prelude
  imports Main "HOL-Library.Char_ord" "HOL-Library.Word"
begin

text \<open>
  Shared vocabulary of the development.

  \<^item> Bytes and C strings: a Tcl string is the list of bytes of its string representation
    (\<open>char list\<close>, a \<open>char\<close> of HOL is an 8 bit byte); \<open>cstr\<close> is what a C routine sees of it, the
    bytes before the first NUL; \<open>schar\<close> reads a byte as the signed \<open>char\<close> of the platforms the
    module runs on.
  \<^item> Outcomes: a routine returns a value, reports a Tcl error, or runs into behaviour the C
    language leaves undefined (a \<open>fault\<close>: an access outside a buffer, a NULL dereference, a
    division by zero, a failed assertion). Faults are values, so their absence is provable.
  \<^item> Tcl objects as they are returned by the commands.
  \<^item> Output buffers with a capacity, and the loop that writes a few bytes for each source byte.
\<close>

section \<open>Lemma collections\<close>

named_theorems cstring_simps \<open>facts about C strings and bytes\<close>
named_theorems outcome_simps \<open>facts about outcomes\<close>

section \<open>Bytes and C strings\<close>

type_synonym bytes = "char list"

abbreviation NUL :: char where "NUL \<equiv> CHR 0x00"
abbreviation LF :: char where "LF \<equiv> CHR 0x0A"
abbreviation CR :: char where "CR \<equiv> CHR 0x0D"
abbreviation DQ :: char where "DQ \<equiv> CHR 0x22"
abbreviation SQ :: char where "SQ \<equiv> CHR 0x27"
abbreviation BSL :: char where "BSL \<equiv> CHR 0x5C"

text \<open>The value of a byte as an unsigned and as a signed \<open>char\<close>.\<close>

definition uchar :: "char \<Rightarrow> int" where
  "uchar c = of_char c"

definition schar :: "char \<Rightarrow> int" where
  "schar c = (if uchar c < 128 then uchar c else uchar c - 256)"

text \<open>Storing an \<open>int\<close> into a \<open>char\<close> keeps its low eight bits.\<close>

definition to_char :: "int \<Rightarrow> char" where
  "to_char n = char_of n"

text \<open>C's \<open>%\<close> truncates towards zero: the result has the sign of the dividend.\<close>

definition c_mod :: "int \<Rightarrow> int \<Rightarrow> int" where
  "c_mod a b = sgn a * (\<bar>a\<bar> mod \<bar>b\<bar>)"

definition c_div :: "int \<Rightarrow> int \<Rightarrow> int" where
  "c_div a b = sgn a * sgn b * (\<bar>a\<bar> div \<bar>b\<bar>)"

text \<open>The digits \<open>printf\<close> writes for \<open>%x\<close> (lower case) and \<open>%d\<close>.\<close>

definition digit_char :: "nat \<Rightarrow> char" where
  "digit_char d = (if d < 10 then char_of (d + 48) else char_of (d + 87))"

fun digits :: "nat \<Rightarrow> nat \<Rightarrow> bytes" where
  "digits b n = (if b < 2 \<or> n < b then [digit_char n] else digits b (n div b) @ [digit_char (n mod b)])"

declare digits.simps [simp del]

definition printf_lx :: "int \<Rightarrow> bytes" where
  "printf_lx n = digits 16 (nat (n mod 2 ^ 64))"

definition printf_d :: "int \<Rightarrow> bytes" where
  "printf_d n = (if n < 0 then CHR ''-'' # digits 10 (nat (- n)) else digits 10 (nat n))"

text \<open>\<open>strtol (s, NULL, 10)\<close>: white space, a sign, digits; the value is clamped to a 64 bit \<open>long\<close>.
  Storing it in an \<open>int\<close> keeps 32 bits.\<close>

definition c_isspace :: "char \<Rightarrow> bool" where
  "c_isspace c \<longleftrightarrow> c \<in> {CHR 0x09, LF, CHR 0x0B, CHR 0x0C, CR, CHR '' ''}"

definition c_isdigit :: "char \<Rightarrow> bool" where
  "c_isdigit c \<longleftrightarrow> 48 \<le> uchar c \<and> uchar c \<le> 57"

definition digits_value :: "bytes \<Rightarrow> int" where
  "digits_value ds = foldl (\<lambda>n c. 10 * n + (uchar c - 48)) 0 ds"

definition strtol10 :: "bytes \<Rightarrow> int" where
  "strtol10 s =
     (let s = dropWhile c_isspace s;
          neg = (s \<noteq> [] \<and> hd s = CHR ''-'');
          s = (if s \<noteq> [] \<and> hd s \<in> {CHR ''-'', CHR ''+''} then tl s else s);
          v = digits_value (takeWhile c_isdigit s)
      in max (- (2 ^ 63)) (min (2 ^ 63 - 1) (if neg then - v else v)))"

definition c_int :: "int \<Rightarrow> int" where
  "c_int n = (n + 2 ^ 31) mod 2 ^ 32 - 2 ^ 31"

definition cstr :: "bytes \<Rightarrow> bytes" where
  "cstr s = takeWhile (\<lambda>c. c \<noteq> NUL) s"

text \<open>Reading the byte at index \<open>i\<close> of a NUL terminated string: the terminator is readable,
  the byte after it is not.\<close>

definition rd :: "bytes \<Rightarrow> nat \<Rightarrow> char option" where
  "rd s i = (if i < length s then Some (s ! i) else if i = length s then Some NUL else None)"

text \<open>The macros STREQU and STRNEQU of rivet.h compare the first bytes and then call
  \<open>strcmp\<close>, or \<open>strncmp\<close> over the length of the second string.\<close>

definition byte0 :: "bytes \<Rightarrow> char" where
  "byte0 s = (case s of [] \<Rightarrow> NUL | c # _ \<Rightarrow> c)"

definition STREQU :: "bytes \<Rightarrow> bytes \<Rightarrow> bool" where
  "STREQU s1 s2 = (byte0 s1 = byte0 s2 \<and> cstr s1 = cstr s2)"

definition STRNEQU :: "bytes \<Rightarrow> bytes \<Rightarrow> bool" where
  "STRNEQU s1 s2 = (byte0 s1 = byte0 s2 \<and> take (length (cstr s2)) (cstr s1) = cstr s2)"

definition lower :: "char \<Rightarrow> char" where
  "lower c = (if CHR ''A'' \<le> c \<and> c \<le> CHR ''Z'' then char_of (of_char c + 32 :: nat) else c)"

definition strcaseEQ :: "bytes \<Rightarrow> bytes \<Rightarrow> bool" where
  "strcaseEQ s1 s2 = (map lower (cstr s1) = map lower (cstr s2))"

lemma cstr_Nil [simp, cstring_simps]: "cstr [] = []"
  by (simp add: cstr_def)

lemma cstr_Cons [simp, cstring_simps]: "cstr (c # s) = (if c = NUL then [] else c # cstr s)"
  by (simp add: cstr_def)

lemma cstr_id [cstring_simps]: "NUL \<notin> set s \<Longrightarrow> cstr s = s"
  by (induction s) auto

lemma NUL_notin_cstr [simp]: "NUL \<notin> set (cstr s)"
  by (induction s) auto

lemma cstr_cstr [simp]: "cstr (cstr s) = cstr s"
  by (simp add: cstr_id)

lemma cstr_append_NUL [cstring_simps]: "NUL \<notin> set s \<Longrightarrow> cstr (s @ NUL # t) = s"
  by (induction s) auto

lemma cstr_append [cstring_simps]: "NUL \<notin> set s \<Longrightarrow> cstr (s @ t) = s @ cstr t"
  by (induction s) auto

lemma length_cstr_le: "length (cstr s) \<le> length s"
  by (simp add: cstr_def length_takeWhile_le)

lemma cstr_shorter_iff: "length (cstr s) \<noteq> length s \<longleftrightarrow> NUL \<in> set s"
proof (induction s)
  case (Cons c s)
  then show ?case using length_cstr_le [of s] by auto
qed simp

lemma byte0_simps [simp]: "byte0 [] = NUL" "byte0 (c # s) = c"
  by (simp_all add: byte0_def)

lemma STREQU_iff: "NUL \<notin> set s \<Longrightarrow> NUL \<notin> set t \<Longrightarrow> STREQU s t \<longleftrightarrow> s = t"
  by (auto simp: STREQU_def cstr_id)

lemma uchar_bounds: "0 \<le> uchar c" "uchar c < 256"
proof -
  have "uchar c mod 256 = uchar c" by (simp add: uchar_def)
  moreover have "0 \<le> uchar c mod 256" "uchar c mod 256 < 256" by simp_all
  ultimately show "0 \<le> uchar c" "uchar c < 256" by simp_all
qed

lemma schar_bounds: "- 128 \<le> schar c" "schar c < 128"
  using uchar_bounds [of c] by (auto simp: schar_def)

lemma schar_mod: "schar c mod 256 = uchar c"
proof (cases "uchar c < 128")
  case True
  then show ?thesis by (simp add: schar_def uchar_def)
next
  case False
  have "(uchar c - 256) mod 256 = uchar c mod 256" by simp
  with False show ?thesis by (simp add: schar_def uchar_def)
qed

lemma uchar_to_char: "uchar (to_char n) = n mod 256"
  by (simp add: uchar_def to_char_def)

lemma uchar_inject [simp]: "uchar c = uchar d \<longleftrightarrow> c = d"
  by (simp add: uchar_def)

lemma to_char_uchar [simp]: "to_char (uchar c) = c"
  by (simp add: to_char_def uchar_def)

lemma to_char_schar [simp]: "to_char (schar c) = c"
  using schar_mod [of c] by (metis uchar_inject uchar_to_char)

lemma schar_inject [simp]: "schar c = schar d \<longleftrightarrow> c = d"
  by (metis to_char_schar)

lemma schar_to_char: "- 128 \<le> n \<Longrightarrow> n < 128 \<Longrightarrow> schar (to_char n) = n"
proof -
  assume n: "- 128 \<le> n" "n < 128"
  show ?thesis
  proof (cases "0 \<le> n")
    case True
    with n show ?thesis by (simp add: schar_def uchar_to_char)
  next
    case False
    with n have "n mod 256 = n + 256" by presburger
    with n False show ?thesis by (simp add: schar_def uchar_to_char)
  qed
qed

lemma schar_ascii: "uchar c < 128 \<Longrightarrow> schar c = uchar c"
  by (simp add: schar_def)

section \<open>Outcomes\<close>

text \<open>\<open>OutOfFuel\<close> is no behaviour of C: it marks a loop that was given too few turns, so that its
  absence is the termination of the loop.\<close>

datatype fault = OutOfBounds | DivByZero | NullDeref | AssertFailed | IntOverflow | OutOfFuel

text \<open>A Tcl error: the message \<open>Tcl_WrongNumArgs\<close> composes (number of words kept from the
  command line, usage text), a message of the module's own, possibly with an error code, or an error reported by a Tcl
  library routine, which leaves its own message in the interpreter.\<close>

datatype tcl_error = WrongNumArgs nat string | ErrMsg bytes | ErrCode "bytes list" bytes | LibError

datatype 'a outcome = Fault fault | Fail tcl_error | Ret 'a

definition bindO :: "'a outcome \<Rightarrow> ('a \<Rightarrow> 'b outcome) \<Rightarrow> 'b outcome" where
  "bindO m k = (case m of Fault f \<Rightarrow> Fault f | Fail e \<Rightarrow> Fail e | Ret x \<Rightarrow> k x)"

lemma bindO_simps [simp, outcome_simps]:
  "bindO (Fault f) k = Fault f" "bindO (Fail e) k = Fail e" "bindO (Ret x) k = k x"
  by (simp_all add: bindO_def)

lemma bindO_cong [fundef_cong]:
  "m = m' \<Longrightarrow> (\<And>x. m' = Ret x \<Longrightarrow> k x = k' x) \<Longrightarrow> bindO m k = bindO m' k'"
  by (cases m') auto

lemma bindO_Ret_iff [outcome_simps]: "bindO m k = Ret y \<longleftrightarrow> (\<exists>x. m = Ret x \<and> k x = Ret y)"
  by (cases m) auto

section \<open>Tcl objects\<close>

datatype tobj =
    TStr bytes
  | TInt int
  | TList "bytes list"
  | TDict "(bytes \<times> bytes) list"
  | TDict2 "(bytes \<times> (bytes \<times> bytes) list) list"
  | TByteArray bytes

text \<open>Tcl library routines that give a value its list reading or match it against a pattern:
  parameters of the commands that call them.\<close>

record tcl_lib =
  Tcl_ListObjGetElements :: "bytes \<Rightarrow> bytes list option"
  Tcl_StringMatch :: "bytes \<Rightarrow> bytes \<Rightarrow> bool"
  Tcl_RegExpMatch :: "bytes \<Rightarrow> bytes \<Rightarrow> int"

section \<open>Output buffers\<close>

text \<open>Appending bytes at the write pointer of a buffer of \<open>cap\<close> bytes.\<close>

definition put :: "nat \<Rightarrow> bytes \<Rightarrow> bytes \<Rightarrow> bytes outcome" where
  "put cap out bs = (if length out + length bs \<le> cap then Ret (out @ bs) else Fault OutOfBounds)"

text \<open>The loop of the escape routines: for every source byte before the terminating NUL the
  bytes \<open>f c\<close> are stored at the write pointer, then the NUL is stored.\<close>

fun emit_loop :: "(char \<Rightarrow> bytes) \<Rightarrow> nat \<Rightarrow> bytes \<Rightarrow> bytes \<Rightarrow> bytes outcome" where
  "emit_loop f cap [] out = put cap out [NUL]"
| "emit_loop f cap (c # cs) out =
     (if c = NUL then put cap out [NUL]
      else bindO (put cap out (f c)) (emit_loop f cap cs))"

section \<open>Generic list facts\<close>

text \<open>Strings joined by a separator.\<close>

fun join_with :: "bytes \<Rightarrow> bytes list \<Rightarrow> bytes" where
  "join_with sep [] = []"
| "join_with sep [x] = x"
| "join_with sep (x # y # ys) = x @ sep @ join_with sep (y # ys)"

lemma join_with_snoc:
  "join_with sep (xs @ [x]) = (if xs = [] then x else join_with sep xs @ sep @ x)"
proof (induction xs rule: induct_list012)
  case (3 y z zs)
  then show ?case by (cases zs) simp_all
qed simp_all

lemma concat_map_singleton_filter:
  "(\<And>x. x \<in> set xs \<Longrightarrow> f x = [x]) \<Longrightarrow> concat (map f xs) = xs"
  by (induction xs) auto

lemma length_concat_map_le: "(\<And>x. length (f x) \<le> k) \<Longrightarrow> length (concat (map f xs)) \<le> k * length xs"
proof (induction xs)
  case (Cons x xs)
  from Cons.prems have "length (f x) \<le> k" by blast
  with Cons.IH [OF Cons.prems] show ?case by simp
qed simp

end
