(* ===== verification/Rivet_WWW.thy ===== *)
theory Rivet_WWW
  imports Rivet_Prelude
begin

text \<open>
  src/src/librivet/rivetWWW.c: the commands \<open>unescape_string\<close>, \<open>escape_string\<close>,
  \<open>escape_sgml_chars\<close> and \<open>escape_shell_command\<close>. Every command is modelled with the buffer it
  allocates, so that a write behind its end would be a fault. The two interfaces
  \<open>bytewise_escape\<close> (a bound on the bytes stored per source byte) and \<open>escape_codec\<close> (a decoder that
  undoes one source byte at a time) carry the proofs for the three escape routines.
\<close>

section \<open>The source routines\<close>

definition Rivet_HexToDigit :: "int \<Rightarrow> int" where
  "Rivet_HexToDigit c =
     (if schar CHR ''a'' \<le> c \<and> c \<le> schar CHR ''f'' then c - schar CHR ''a'' + 10
      else if schar CHR ''A'' \<le> c \<and> c \<le> schar CHR ''F'' then c - schar CHR ''A'' + 10
      else if schar CHR ''0'' \<le> c \<and> c \<le> schar CHR ''9'' then c - schar CHR ''0''
      else - 1)"

definition bad_hex_message :: "bytes \<Rightarrow> char \<Rightarrow> char \<Rightarrow> bytes" where
  "bad_hex_message cmd c c2 = cmd @ '': bad char in hex sequence %'' @ cstr [c, c2]"

text \<open>The loop of \<open>Rivet_UnescapeStringCmd\<close>. After a percent sign two bytes are read, whatever
  they are: the read pointer may step on the terminator and behind it.\<close>

fun unescape_loop :: "bytes \<Rightarrow> nat \<Rightarrow> bytes \<Rightarrow> bytes \<Rightarrow> bytes outcome" where
  "unescape_loop cmd cap [] out = put cap out [NUL]"
| "unescape_loop cmd cap (c # cs) out =
     (if c = NUL then put cap out [NUL]
      else if c = CHR ''+'' then bindO (put cap out '' '') (unescape_loop cmd cap cs)
      else if c = CHR ''%'' then
        (case cs of
           [] \<Rightarrow> Fault OutOfBounds
         | [a] \<Rightarrow> Fail (ErrMsg (bad_hex_message cmd a NUL))
         | a # b # rest \<Rightarrow>
             (let digit1 = Rivet_HexToDigit (schar a); digit2 = Rivet_HexToDigit (schar b)
              in if digit1 = - 1 \<or> digit2 = - 1 then Fail (ErrMsg (bad_hex_message cmd a b))
                 else bindO (put cap out [to_char (digit1 * 16 + digit2)])
                        (unescape_loop cmd cap rest)))
      else bindO (put cap out [c]) (unescape_loop cmd cap cs))"

definition Rivet_UnescapeStringCmd :: "bytes list \<Rightarrow> tobj outcome" where
  "Rivet_UnescapeStringCmd objv =
     (if length objv \<noteq> 2 then Fail (WrongNumArgs 1 ''string'')
      else bindO (unescape_loop (objv ! 0) (length (objv ! 1) + 1) (objv ! 1) [])
             (\<lambda>newString. Ret (TStr (cstr newString))))"

definition Rivet_DigitToHex :: "int \<Rightarrow> char" where
  "Rivet_DigitToHex c =
     (if c < 10 then to_char (c + schar CHR ''0'') else to_char (c - 10 + schar CHR ''a''))"

text \<open>\<open>isalnum\<close> in the C locale.\<close>

definition c_isalnum :: "char \<Rightarrow> bool" where
  "c_isalnum c \<longleftrightarrow> CHR ''0'' \<le> c \<and> c \<le> CHR ''9'' \<or> CHR ''A'' \<le> c \<and> c \<le> CHR ''Z''
     \<or> CHR ''a'' \<le> c \<and> c \<le> CHR ''z''"

definition escape_string_byte :: "char \<Rightarrow> bytes" where
  "escape_string_byte c =
     (if c_isalnum c then [c]
      else if c = CHR '' '' then ''+''
      else [CHR ''%'', Rivet_DigitToHex (take_bit 4 (drop_bit 4 (schar c))),
            Rivet_DigitToHex (take_bit 4 (schar c))])"

definition Rivet_EscapeStringCmd :: "bytes list \<Rightarrow> tobj outcome" where
  "Rivet_EscapeStringCmd objv =
     (if length objv \<noteq> 2 then Fail (WrongNumArgs 1 ''string'')
      else if length (objv ! 1) = 0 then Ret (TStr [])
      else bindO (emit_loop escape_string_byte (length (objv ! 1) * 3 + 1) (objv ! 1) [])
             (\<lambda>newString. Ret (TStr (cstr newString))))"

definition escape_sgml_byte :: "char \<Rightarrow> bytes" where
  "escape_sgml_byte c =
     (if c = CHR ''&'' then ''&amp;''
      else if c = CHR ''<'' then ''&lt;''
      else if c = CHR ''>'' then ''&gt;''
      else if c = SQ then ''&#39;''
      else if c = DQ then ''&quot;''
      else [c])"

definition Rivet_EscapeSgmlCharsCmd :: "bytes list \<Rightarrow> tobj outcome" where
  "Rivet_EscapeSgmlCharsCmd objv =
     (if length objv \<noteq> 2 then Fail (WrongNumArgs 1 ''string'')
      else if length (objv ! 1) = 0 then Ret (TStr [])
      else bindO (emit_loop escape_sgml_byte (length (objv ! 1) * 6 + 1) (objv ! 1) [])
             (\<lambda>newString. Ret (TStr (cstr newString))))"

definition shell_metachars :: bytes where
  "shell_metachars = ''&;`'' @ [SQ] @ ''|*?-~<>^()[]{}$'' @ [BSL]"

definition escape_shell_byte :: "char \<Rightarrow> bytes" where
  "escape_shell_byte c = (if c \<in> set shell_metachars then [BSL, c] else [c])"

definition Rivet_EscapeShellCommandCmd :: "bytes list \<Rightarrow> tobj outcome" where
  "Rivet_EscapeShellCommandCmd objv =
     (if length objv \<noteq> 2 then Fail (WrongNumArgs 1 ''string'')
      else bindO (emit_loop escape_shell_byte (length (objv ! 1) * 2 + 1) (objv ! 1) [])
             (\<lambda>newString. Ret (TStr (cstr newString))))"

section \<open>Interfaces of the escape routines\<close>

text \<open>What the buffer allocation of a command relies on: at most \<open>k\<close> bytes are stored for each
  source byte, none of them NUL.\<close>

locale bytewise_escape =
  fixes f :: "char \<Rightarrow> bytes" and k :: nat
  assumes width: "length (f c) \<le> k"
    and no_NUL: "NUL \<in> set (f c) \<Longrightarrow> c = NUL"
begin

lemma emit_loop_fits:
  "length out + k * length s + 1 \<le> cap \<Longrightarrow>
   emit_loop f cap s out = Ret (out @ concat (map f (cstr s)) @ [NUL])"
proof (induction s arbitrary: out)
  case Nil
  then show ?case by (simp add: put_def)
next
  case (Cons c s)
  have "length (f c) \<le> k" by (rule width)
  with Cons.prems have fits: "length (out @ f c) + k * length s + 1 \<le> cap" by simp
  then have now: "length out + length (f c) \<le> cap" "length out + 1 \<le> cap" by simp_all
  show ?case
    using Cons.IH [OF fits] now by (auto simp: put_def)
qed

lemma concat_no_NUL: "NUL \<notin> set s \<Longrightarrow> NUL \<notin> set (concat (map f s))"
proof (induction s)
  case (Cons c s)
  then show ?case by (auto dest: no_NUL)
qed simp

lemma command_result:
  "bindO (emit_loop f (length s * k + 1) s []) (\<lambda>o'. Ret (TStr (cstr o')))
     = Ret (TStr (concat (map f (cstr s))))"
proof -
  have "emit_loop f (length s * k + 1) s [] = Ret (concat (map f (cstr s)) @ [NUL])"
    using emit_loop_fits [of "[]" s] by (simp add: mult.commute)
  then show ?thesis
    using concat_no_NUL [of "cstr s"] by (simp add: cstr_append_NUL)
qed

end

text \<open>A codec adds a decoder that undoes one encoded byte at a time.\<close>

locale escape_codec = bytewise_escape +
  fixes dec :: "bytes \<Rightarrow> bytes option"
  assumes dec_Nil: "dec [] = Some []"
    and dec_step: "c \<noteq> NUL \<Longrightarrow> dec (f c @ rest) = map_option ((#) c) (dec rest)"
begin

lemma dec_enc: "NUL \<notin> set s \<Longrightarrow> dec (concat (map f s)) = Some s"
  by (induction s) (auto simp: dec_Nil dec_step)

lemma enc_inject:
  "NUL \<notin> set s \<Longrightarrow> NUL \<notin> set t \<Longrightarrow> concat (map f s) = concat (map f t) \<Longrightarrow> s = t"
  by (metis dec_enc option.inject)

end

section \<open>Facts about the helpers\<close>

text \<open>The hexadecimal digits, and that reading a digit undoes writing it.\<close>

lemma schar_digits [simp]:
  "schar CHR ''0'' = 48" "schar CHR ''9'' = 57" "schar CHR ''A'' = 65" "schar CHR ''F'' = 70"
  "schar CHR ''a'' = 97" "schar CHR ''f'' = 102"
  by (simp_all add: schar_def uchar_def)

lemma schar_DigitToHex:
  "0 \<le> n \<Longrightarrow> n < 16 \<Longrightarrow> schar (Rivet_DigitToHex n) = (if n < 10 then n + 48 else n + 87)"
  by (simp add: Rivet_DigitToHex_def schar_to_char)

lemma HexToDigit_DigitToHex:
  "0 \<le> n \<Longrightarrow> n < 16 \<Longrightarrow> Rivet_HexToDigit (schar (Rivet_DigitToHex n)) = n"
  by (simp add: schar_DigitToHex Rivet_HexToDigit_def)

lemma nibble_sum: "(n div 16) mod 16 * 16 + n mod 16 = n mod (256 :: int)"
  using zmod_zmult2_eq [of 16 n 16] by simp

lemma nibbles:
  "take_bit 4 (drop_bit 4 (schar c)) * 16 + take_bit 4 (schar c) = uchar c"
proof -
  have "take_bit 4 (drop_bit 4 (schar c)) * 16 + take_bit 4 (schar c) = take_bit 8 (schar c)"
    using nibble_sum [of "schar c"] by (simp add: take_bit_eq_mod drop_bit_eq_div)
  also have "\<dots> = schar c mod 256" by (simp add: take_bit_eq_mod)
  finally show ?thesis by (simp add: schar_mod)
qed

lemma nibble_bounds: "0 \<le> take_bit 4 (n :: int)" "take_bit 4 (n :: int) < 16"
  by (simp_all add: take_bit_eq_mod)

lemma DigitToHex_alnum:
  assumes "0 \<le> n" "n < 16"
  shows "c_isalnum (Rivet_DigitToHex n)"
proof -
  let ?c = "Rivet_DigitToHex n"
  have s: "schar ?c = (if n < 10 then n + 48 else n + 87)"
    using assms by (rule schar_DigitToHex)
  have "uchar ?c = (if n < 10 then n + 48 else n + 87)"
    using s assms uchar_bounds [of ?c] by (auto simp: schar_def split: if_splits)
  then have "of_char ?c = nat (if n < 10 then n + 48 else n + 87)"
    by (metis nat_of_char uchar_def)
  then show ?thesis using assms by (auto simp: c_isalnum_def less_eq_char_def)
qed

lemma alnum_plain:
  "c_isalnum c \<Longrightarrow> c \<noteq> NUL \<and> c \<noteq> CHR ''%'' \<and> c \<noteq> CHR ''+'' \<and> c \<noteq> CHR '' ''"
  by (auto simp: c_isalnum_def less_eq_char_def)

section \<open>Decoders and the interpretations\<close>

text \<open>What \<open>unescape_string\<close> computes, without the buffer: the reference the loop is compared
  with. A truncated sequence stands for the undefined read (nothing after the percent sign) or
  for the error message of the command (one byte after it).\<close>

fun url_decode :: "bytes \<Rightarrow> bytes \<Rightarrow> bytes outcome" where
  "url_decode cmd [] = Ret []"
| "url_decode cmd (c # cs) =
     (if c = NUL then Ret []
      else if c = CHR ''%'' then
        (case cs of
           [] \<Rightarrow> Fault OutOfBounds
         | [a] \<Rightarrow> Fail (ErrMsg (bad_hex_message cmd a NUL))
         | a # b # rest \<Rightarrow>
             if Rivet_HexToDigit (schar a) = - 1 \<or> Rivet_HexToDigit (schar b) = - 1
             then Fail (ErrMsg (bad_hex_message cmd a b))
             else bindO (url_decode cmd rest)
               (\<lambda>t. Ret (to_char (Rivet_HexToDigit (schar a) * 16 + Rivet_HexToDigit (schar b)) # t)))
      else bindO (url_decode cmd cs) (\<lambda>t. Ret ((if c = CHR ''+'' then CHR '' '' else c) # t)))"

lemma unescape_loop_decode:
  "length out + length s + 1 \<le> cap \<Longrightarrow>
   unescape_loop cmd cap s out = bindO (url_decode cmd s) (\<lambda>t. Ret (out @ t @ [NUL]))"
proof (induction cmd cap s out rule: unescape_loop.induct)
  case (1 cmd cap out)
  then show ?case by (simp add: put_def)
next
  case (2 cmd cap c cs out)
  consider "c = NUL" | "c = CHR ''+''" | "c \<noteq> NUL" "c \<noteq> CHR ''%''" "c \<noteq> CHR ''+''"
    | "c = CHR ''%''" "cs = []" | a where "c = CHR ''%''" "cs = [a]"
    | a b rest where "c = CHR ''%''" "cs = a # b # rest"
    by (cases cs rule: remdups_adj.cases) blast+
  then show ?case
  proof cases
    case 2
    with "2.IH"(1) "2.prems" show ?thesis by (cases "url_decode cmd cs") (simp_all add: put_def)
  next
    case 3
    with "2.IH"(3) "2.prems" show ?thesis by (cases "url_decode cmd cs") (simp_all add: put_def)
  next
    case 6
    with "2.IH"(2) [OF _ _ _ 6(2) refl refl refl] "2.prems" show ?thesis
      by (cases "url_decode cmd rest") (simp_all add: put_def Let_def)
  qed (use "2.prems" in \<open>simp_all add: put_def\<close>)
qed

lemma cstr_end: "cstr (t @ [NUL]) = cstr t"
  by (induction t) simp_all

lemma unescape_command_decode:
  "Rivet_UnescapeStringCmd [cmd, s] = bindO (url_decode cmd s) (\<lambda>t. Ret (TStr (cstr t)))"
  by (cases "url_decode cmd s")
    (simp_all add: Rivet_UnescapeStringCmd_def unescape_loop_decode cstr_end)

text \<open>The SGML reader knows the five entities of the escape routine; the shell reader drops the
  quoting backslash.\<close>

fun sgml_decode :: "bytes \<Rightarrow> bytes option" where
  "sgml_decode [] = Some []"
| "sgml_decode (c # cs) =
     (if c \<noteq> CHR ''&'' then map_option ((#) c) (sgml_decode cs)
      else (case find (\<lambda>d. take (length (escape_sgml_byte d)) (c # cs) = escape_sgml_byte d)
                   [CHR ''&'', CHR ''<'', CHR ''>'', SQ, DQ] of
              None \<Rightarrow> None
            | Some d \<Rightarrow> map_option ((#) d) (sgml_decode (drop (length (escape_sgml_byte d) - 1) cs))))"

fun shell_decode :: "bytes \<Rightarrow> bytes option" where
  "shell_decode [] = Some []"
| "shell_decode (c # cs) =
     (if c = BSL then (case cs of [] \<Rightarrow> None | d # ds \<Rightarrow> map_option ((#) d) (shell_decode ds))
      else map_option ((#) c) (shell_decode cs))"

text \<open>The bytes a shell reads outside a backslash quotation.\<close>

fun shell_unquoted :: "bytes \<Rightarrow> bytes" where
  "shell_unquoted [] = []"
| "shell_unquoted (c # cs) =
     (if c = BSL then (case cs of [] \<Rightarrow> [c] | d # ds \<Rightarrow> shell_unquoted ds)
      else c # shell_unquoted cs)"

lemma url_decode_step:
  assumes "c \<noteq> NUL"
  shows "url_decode cmd (escape_string_byte c @ rest) = bindO (url_decode cmd rest) (\<lambda>t. Ret (c # t))"
proof -
  consider "c_isalnum c" | "c = CHR '' ''" | "\<not> c_isalnum c" "c \<noteq> CHR '' ''" by blast
  then show ?thesis
  proof cases
    case 1
    then show ?thesis using alnum_plain [of c] by (simp add: escape_string_byte_def)
  next
    case 2
    then show ?thesis by (simp add: escape_string_byte_def c_isalnum_def)
  next
    case 3
    have "take_bit 4 (drop_bit 4 (schar c)) \<noteq> - 1" "take_bit 4 (schar c) \<noteq> - 1"
      using nibble_bounds [of "drop_bit 4 (schar c)"] nibble_bounds [of "schar c"] by linarith+
    with 3 show ?thesis
      by (simp add: escape_string_byte_def HexToDigit_DigitToHex nibble_bounds nibbles)
  qed
qed

interpretation url: escape_codec escape_string_byte 3
  "\<lambda>t. case url_decode cmd t of Ret s \<Rightarrow> Some s | _ \<Rightarrow> None" for cmd
proof
  show "length (escape_string_byte c) \<le> 3" for c by (simp add: escape_string_byte_def)
  have "NUL \<noteq> Rivet_DigitToHex (take_bit 4 n)" for n
    by (metis alnum_plain DigitToHex_alnum nibble_bounds)
  then show "NUL \<in> set (escape_string_byte c) \<Longrightarrow> c = NUL" for c
    by (simp add: escape_string_byte_def split: if_splits)
  show "(case url_decode cmd [] of Ret s \<Rightarrow> Some s | _ \<Rightarrow> None) = Some []" by simp
  show "c \<noteq> NUL \<Longrightarrow> (case url_decode cmd (escape_string_byte c @ rest) of Ret s \<Rightarrow> Some s | _ \<Rightarrow> None)
      = map_option ((#) c) (case url_decode cmd rest of Ret s \<Rightarrow> Some s | _ \<Rightarrow> None)" for c rest
    by (simp add: url_decode_step split: outcome.split)
qed

interpretation sgml: escape_codec escape_sgml_byte 6 sgml_decode
proof
  show "length (escape_sgml_byte c) \<le> 6" for c by (simp add: escape_sgml_byte_def)
  show "NUL \<in> set (escape_sgml_byte c) \<Longrightarrow> c = NUL" for c
    by (auto simp: escape_sgml_byte_def split: if_splits)
  show "sgml_decode [] = Some []" by simp
  show "sgml_decode (escape_sgml_byte c @ rest) = map_option ((#) c) (sgml_decode rest)" for c rest
    by (cases "c \<in> {CHR ''&'', CHR ''<'', CHR ''>'', SQ, DQ}") (auto simp: escape_sgml_byte_def)
qed

interpretation shell: escape_codec escape_shell_byte 2 shell_decode
proof
  show "length (escape_shell_byte c) \<le> 2" for c by (simp add: escape_shell_byte_def)
  show "NUL \<in> set (escape_shell_byte c) \<Longrightarrow> c = NUL" for c
    by (auto simp: escape_shell_byte_def split: if_splits)
  show "shell_decode [] = Some []" by simp
  show "shell_decode (escape_shell_byte c @ rest) = map_option ((#) c) (shell_decode rest)" for c rest
    by (auto simp: escape_shell_byte_def shell_metachars_def)
qed

lemma escape_string_result:
  "Rivet_EscapeStringCmd [cmd, s] = Ret (TStr (concat (map escape_string_byte (cstr s))))"
  by (simp add: Rivet_EscapeStringCmd_def url.command_result [simplified])

lemma escape_sgml_result:
  "Rivet_EscapeSgmlCharsCmd [cmd, s] = Ret (TStr (concat (map escape_sgml_byte (cstr s))))"
  by (simp add: Rivet_EscapeSgmlCharsCmd_def sgml.command_result [simplified])

lemma escape_shell_result:
  "Rivet_EscapeShellCommandCmd [cmd, s] = Ret (TStr (concat (map escape_shell_byte (cstr s))))"
  by (simp add: Rivet_EscapeShellCommandCmd_def shell.command_result [simplified])

lemma url_decode_encode:
  "NUL \<notin> set s \<Longrightarrow> url_decode cmd (concat (map escape_string_byte s)) = Ret s"
  using url.dec_enc [of s cmd] by (simp split: outcome.splits)

lemma url_decode_total:
  "s = [] \<or> last s \<noteq> CHR ''%'' \<Longrightarrow>
   case url_decode cmd s of
     Fault e \<Rightarrow> False
   | Fail e \<Rightarrow> \<exists>a b. e = ErrMsg (bad_hex_message cmd a b)
   | Ret t \<Rightarrow> length t \<le> length s"
proof (induction cmd s rule: url_decode.induct)
  case (2 cmd c cs)
  show ?case
  proof (cases "c = CHR ''%''")
    case True
    show ?thesis
    proof (cases cs rule: remdups_adj.cases)
      case (3 a b rest)
      with True "2.prems" have "rest = [] \<or> last rest \<noteq> CHR ''%''" by auto
      then show ?thesis
        using True 3 "2.IH"(1) [OF _ True 3 refl] by (cases "url_decode cmd rest") auto
    qed (use True "2.prems" in auto)
  next
    case False
    with 2 show ?thesis
      by (cases "c = NUL"; cases "cs = []"; cases "url_decode cmd cs") simp_all
  qed
qed simp

lemma escape_string_byte_alphabet:
  "\<forall>d \<in> set (escape_string_byte c). c_isalnum d \<or> d = CHR ''%'' \<or> d = CHR ''+''"
  by (simp add: escape_string_byte_def DigitToHex_alnum nibble_bounds)

lemma shell_unquoted_escape:
  "set (shell_unquoted (concat (map escape_shell_byte s))) \<inter> set shell_metachars = {}"
proof (induction s)
  case (Cons c s)
  have "BSL \<in> set shell_metachars" by (simp add: shell_metachars_def)
  with Cons show ?case by (auto simp: escape_shell_byte_def)
qed simp

section \<open>Properties\<close>

text \<open>C5: \<open>unescape_string\<close> undoes \<open>escape_string\<close> on every string without a NUL byte (bytes above
  127 included), and neither command leaves its buffer.\<close>

theorem escape_unescape_string:
  assumes "NUL \<notin> set s"
  shows "\<exists>t. Rivet_EscapeStringCmd [cmd1, s] = Ret (TStr t)
    \<and> Rivet_UnescapeStringCmd [cmd2, t] = Ret (TStr s)"
  using assms
  by (simp add: escape_string_result unescape_command_decode url_decode_encode cstr_id)

lemma escape_unescape_string_witness:
  "\<exists>t. Rivet_EscapeStringCmd [''e'', ''a b/~'' @ [CHR 0xE8]] = Ret (TStr t)
    \<and> Rivet_UnescapeStringCmd [''u'', t] = Ret (TStr (''a b/~'' @ [CHR 0xE8]))"
  by (rule escape_unescape_string) simp

text \<open>\<open>escape_string\<close> always returns a string of letters, digits, percent and plus signs, which
  is at most three times as long as its argument.\<close>

theorem escape_string_alphabet:
  "\<exists>t. Rivet_EscapeStringCmd [cmd, s] = Ret (TStr t) \<and> length t \<le> 3 * length s
    \<and> list_all (\<lambda>d. c_isalnum d \<or> d = CHR ''%'' \<or> d = CHR ''+'') t"
proof -
  have "length (concat (map escape_string_byte (cstr s))) \<le> 3 * length (cstr s)"
    using url.width by (rule length_concat_map_le)
  with length_cstr_le [of s] show ?thesis
    using escape_string_byte_alphabet by (force simp: escape_string_result list_all_iff)
qed



text \<open>\<open>unescape_string\<close> on an argument that does not end in a percent sign never leaves its
  buffers: it returns a string no longer than the argument, or reports the two bytes that are no
  hexadecimal digits.\<close>

lemma unescape_string_total:
  assumes "s = [] \<or> last s \<noteq> CHR ''%''"
  shows "case Rivet_UnescapeStringCmd [cmd, s] of
      Fault e \<Rightarrow> False
    | Fail e \<Rightarrow> \<exists>a b. e = ErrMsg (bad_hex_message cmd a b)
    | Ret r \<Rightarrow> \<exists>t. r = TStr t \<and> length t \<le> length s"
  using url_decode_total [OF assms, of cmd] length_cstr_le
  by (auto simp: unescape_command_decode split: outcome.splits intro: order_trans)

lemma unescape_string_total_witness:
  "case Rivet_UnescapeStringCmd [''u'', ''a%4'' @ ''1+%4x''] of
      Fault e \<Rightarrow> False
    | Fail e \<Rightarrow> \<exists>a b. e = ErrMsg (bad_hex_message ''u'' a b)
    | Ret r \<Rightarrow> \<exists>t. r = TStr t \<and> length t \<le> length (''a%4'' @ ''1+%4x'')"
  by (rule unescape_string_total) simp

text \<open>A percent sign at the very end makes the command read the byte behind the terminator.\<close>

lemma unescape_string_percent_at_end:
  "set s \<inter> {NUL, CHR ''%''} = {} \<Longrightarrow> Rivet_UnescapeStringCmd [cmd, s @ ''%''] = Fault OutOfBounds"
proof -
  have "set s \<inter> {NUL, CHR ''%''} = {} \<Longrightarrow> url_decode cmd (s @ ''%'') = Fault OutOfBounds"
    by (induction s) auto
  then show "set s \<inter> {NUL, CHR ''%''} = {} \<Longrightarrow> ?thesis" by (simp add: unescape_command_decode)
qed

end
