(* ===== verification/Rivet_Crypt.thy ===== *)
theory Rivet_Crypt
  imports Rivet_Prelude
begin

text \<open>
  src/src/librivet/rivetCrypt.c: the commands \<open>encrypt\<close>, \<open>decrypt\<close> and \<open>crypt\<close>. The in-place
  loop works on signed bytes with the remainder of C; the key pointer is an index into the key,
  reset when it reaches the terminator. An empty key makes the routine divide by zero.
\<close>

section \<open>The source routines\<close>

datatype crypt_mode = MODE_DECRYPT | MODE_ENCRYPT

definition crypt_byte :: "crypt_mode \<Rightarrow> char \<Rightarrow> char \<Rightarrow> char" where
  "crypt_byte mode c k =
     (if schar c \<ge> 32 \<and> schar c \<le> 126 then
        (case mode of
           MODE_ENCRYPT \<Rightarrow> to_char (c_mod ((schar c - 32) + (schar k - 32)) 94 + 32)
         | MODE_DECRYPT \<Rightarrow> to_char (c_mod ((schar c - 32) - (schar k - 32) + 94) 94 + 32))
      else c)"

text \<open>The key pointer \<open>kp\<close> is an index into the key, whose terminator sends it back to 0.\<close>

fun crypt_loop :: "bytes \<Rightarrow> nat \<Rightarrow> crypt_mode \<Rightarrow> bytes \<Rightarrow> bytes" where
  "crypt_loop key kp mode [] = []"
| "crypt_loop key kp mode (c # cs) =
     crypt_byte mode c (key ! kp)
       # crypt_loop key (if kp + 1 = length key then 0 else kp + 1) mode cs"

text \<open>\<open>offset % strlen(key)\<close> is computed in the unsigned type \<open>size_t\<close> of 64 bits.\<close>

definition Rivet_Crypt :: "bytes \<Rightarrow> bytes \<Rightarrow> int \<Rightarrow> crypt_mode \<Rightarrow> bytes outcome" where
  "Rivet_Crypt string key offset mode =
     (let n = length (cstr key)
      in if n = 0 then Fault DivByZero
         else Ret (crypt_loop (cstr key) (nat (offset mod 2 ^ 64 mod int n)) mode (cstr string)))"

fun crypt_keys :: "crypt_mode \<Rightarrow> bytes list \<Rightarrow> bytes \<Rightarrow> bytes outcome" where
  "crypt_keys mode [] buf = Ret buf"
| "crypt_keys mode (key # keys) buf = bindO (Rivet_Crypt buf key 0 mode) (crypt_keys mode keys)"

definition Rivet_EncryptCmd :: "bytes list \<Rightarrow> tobj outcome" where
  "Rivet_EncryptCmd objv =
     (if length objv < 3 then Fail (WrongNumArgs 1 ''data key'')
      else bindO (crypt_keys MODE_ENCRYPT (drop 2 objv) (cstr (objv ! 1))) (\<lambda>r. Ret (TStr r)))"

definition Rivet_DecryptCmd :: "bytes list \<Rightarrow> tobj outcome" where
  "Rivet_DecryptCmd objv =
     (if length objv < 3 then Fail (WrongNumArgs 1 ''data key'')
      else bindO (crypt_keys MODE_DECRYPT (drop 2 objv) (cstr (objv ! 1))) (\<lambda>r. Ret (TStr r)))"

text \<open>The \<open>crypt\<close> command calls the routine of the C library where the build has one (the argument
  is \<open>None\<close> where it has not); that routine returns a string or NULL.\<close>

definition Rivet_CryptCmd :: "(bytes \<Rightarrow> bytes \<Rightarrow> bytes option) option \<Rightarrow> bytes list \<Rightarrow> tobj outcome" where
  "Rivet_CryptCmd crypt_fn objv =
     (case crypt_fn of
        None \<Rightarrow> Fail (ErrMsg ''error: command not available'')
      | Some crypt \<Rightarrow>
          if length objv \<noteq> 3 then Fail (WrongNumArgs 1 ''key salt'')
          else (case crypt (cstr (objv ! 1)) (cstr (objv ! 2)) of
                  None \<Rightarrow> Fail (ErrMsg (''crypt function failed: '' @ cstr (objv ! 1)))
                | Some r \<Rightarrow> Ret (TStr (cstr r))))"

section \<open>One byte\<close>

definition printable :: "char \<Rightarrow> bool" where
  "printable c \<longleftrightarrow> 32 \<le> uchar c \<and> uchar c \<le> 126"

text \<open>The text that can be recovered: no tilde, which the modulus 94 folds into the blank.\<close>

definition no_tilde :: "bytes \<Rightarrow> bool" where
  "no_tilde s = list_all (\<lambda>c. uchar c \<noteq> 126) s"

definition printable_key :: "bytes \<Rightarrow> bool" where
  "printable_key key \<longleftrightarrow> key \<noteq> [] \<and> list_all printable key"

lemma printable_schar: "printable c \<Longrightarrow> schar c = uchar c \<and> 32 \<le> uchar c \<and> uchar c \<le> 126"
  by (simp add: printable_def schar_def)

lemma schar_printable: "schar c \<ge> 32 \<and> schar c \<le> 126 \<longleftrightarrow> printable c"
  using uchar_bounds [of c] by (auto simp: printable_def schar_def)

lemma c_mod_pos: "0 \<le> a \<Longrightarrow> 0 < b \<Longrightarrow> c_mod a b = a mod b"
  by (cases "a = 0") (simp_all add: c_mod_def)

lemma uchar_small: "0 \<le> n \<Longrightarrow> n < 128 \<Longrightarrow> uchar (to_char n) = n"
  by (simp add: uchar_to_char)

lemma encrypt_byte_value:
  assumes "printable c" "printable k"
  shows "uchar (crypt_byte MODE_ENCRYPT c k) = (uchar c + uchar k - 64) mod 94 + 32"
proof -
  note s = printable_schar [OF assms(1)] printable_schar [OF assms(2)]
  then have m: "c_mod (schar c + schar k - 64) 94 = (uchar c + uchar k - 64) mod 94"
    by (simp add: c_mod_pos)
  have "0 \<le> (uchar c + uchar k - 64) mod 94" "(uchar c + uchar k - 64) mod 94 < 94" by simp_all
  then have "uchar (to_char ((uchar c + uchar k - 64) mod 94 + 32)) = (uchar c + uchar k - 64) mod 94 + 32"
    by (intro uchar_small) linarith+
  then show ?thesis
    using assms(1) m by (simp add: crypt_byte_def schar_printable)
qed

lemma encrypt_byte_printable:
  assumes "printable c" "printable k"
  shows "printable (crypt_byte MODE_ENCRYPT c k)" "uchar (crypt_byte MODE_ENCRYPT c k) \<noteq> 126"
proof -
  have "0 \<le> (uchar c + uchar k - 64) mod 94" "(uchar c + uchar k - 64) mod 94 < 94" by simp_all
  then show "printable (crypt_byte MODE_ENCRYPT c k)" "uchar (crypt_byte MODE_ENCRYPT c k) \<noteq> 126"
    unfolding printable_def encrypt_byte_value [OF assms] by linarith+
qed

lemma mod_sub_add: "((x + y) mod m - y + m) mod m = x mod (m :: int)"
  by (metis add_diff_cancel_right' mod_add_self2 mod_diff_left_eq)

lemma decrypt_encrypt_byte:
  assumes "printable k" "uchar c \<noteq> 126"
  shows "crypt_byte MODE_DECRYPT (crypt_byte MODE_ENCRYPT c k) k = c"
proof (cases "printable c")
  case False
  then show ?thesis by (simp add: crypt_byte_def schar_printable)
next
  case True
  let ?d = "crypt_byte MODE_ENCRYPT c k"
  have c: "0 \<le> uchar c - 32" "uchar c - 32 < 94"
    using True assms(2) by (auto simp: printable_def)
  have k: "0 \<le> uchar k - 32" "uchar k - 32 \<le> 94"
    using assms(1) by (auto simp: printable_def)
  have d: "uchar ?d = (uchar c + uchar k - 64) mod 94 + 32" "printable ?d"
    using encrypt_byte_value encrypt_byte_printable True assms(1) by blast+
  note s = printable_schar [OF d(2)] printable_schar [OF assms(1)]
  have r: "(uchar c + uchar k - 64) mod 94 \<ge> 0" by simp
  have "schar ?d - 32 - (schar k - 32) + 94 = (uchar c + uchar k - 64) mod 94 - (uchar k - 32) + 94"
    using s d(1) by linarith
  moreover have "0 \<le> (uchar c + uchar k - 64) mod 94 - (uchar k - 32) + 94" using r k by linarith
  moreover have "((uchar c + uchar k - 64) mod 94 - (uchar k - 32) + 94) mod 94 = (uchar c - 32) mod 94"
    using mod_sub_add [of "uchar c - 32" "uchar k - 32" 94] by simp
  ultimately have "c_mod (schar ?d - 32 - (schar k - 32) + 94) 94 = uchar c - 32"
    using c by (simp add: c_mod_pos)
  then have "crypt_byte MODE_DECRYPT ?d k = to_char (uchar c)"
    using d(2) schar_printable [of ?d] by (simp add: crypt_byte_def [of MODE_DECRYPT])
  then show ?thesis by simp
qed

section \<open>The loop\<close>

lemma crypt_loop_decrypt_encrypt:
  "list_all printable key \<Longrightarrow> kp < length key \<Longrightarrow> no_tilde s \<Longrightarrow>
   crypt_loop key kp MODE_DECRYPT (crypt_loop key kp MODE_ENCRYPT s) = s"
proof (induction s arbitrary: kp)
  case (Cons c s)
  have "printable (key ! kp)" using Cons.prems by (simp add: list_all_length)
  moreover have "0 < length key" using Cons.prems by linarith
  ultimately show ?case using Cons by (simp add: no_tilde_def decrypt_encrypt_byte)
qed simp

lemma crypt_loop_keeps:
  assumes "list_all printable key"
  shows "kp < length key \<Longrightarrow> NUL \<notin> set s \<Longrightarrow> no_tilde s \<Longrightarrow>
    NUL \<notin> set (crypt_loop key kp MODE_ENCRYPT s) \<and> no_tilde (crypt_loop key kp MODE_ENCRYPT s)"
proof (induction s arbitrary: kp)
  case (Cons c s)
  have k: "printable (key ! kp)" using Cons.prems assms by (simp add: list_all_length)
  let ?d = "crypt_byte MODE_ENCRYPT c (key ! kp)"
  have z: "\<not> printable NUL" by (simp add: printable_def uchar_def)
  have "NUL \<noteq> ?d \<and> uchar ?d \<noteq> 126"
  proof (cases "printable c")
    case True
    then show ?thesis using encrypt_byte_printable [OF True k] z by metis
  next
    case False
    then show ?thesis using Cons.prems by (auto simp: crypt_byte_def schar_printable no_tilde_def)
  qed
  moreover have "0 < length key" using Cons.prems by linarith
  ultimately show ?case using Cons by (simp add: no_tilde_def)
qed (simp add: no_tilde_def)

lemma printable_key_cstr: "printable_key key \<Longrightarrow> cstr key = key"
proof (rule cstr_id)
  assume "printable_key key"
  then show "NUL \<notin> set key" by (auto simp: printable_key_def list_all_iff printable_def uchar_def)
qed

lemma crypt_keys_append:
  "crypt_keys mode (ks @ ls) buf = bindO (crypt_keys mode ks buf) (crypt_keys mode ls)"
  by (induction ks arbitrary: buf) (auto simp: bindO_def split: outcome.splits)

lemma crypt_one_key:
  assumes "printable_key key" "NUL \<notin> set s" "no_tilde s"
  obtains t where "Rivet_Crypt s key 0 MODE_ENCRYPT = Ret t" "Rivet_Crypt t key 0 MODE_DECRYPT = Ret s"
    "NUL \<notin> set t" "no_tilde t"
proof
  let ?t = "crypt_loop key 0 MODE_ENCRYPT s"
  have key: "cstr key = key" "key \<noteq> []" "list_all printable key"
    using assms(1) by (auto simp: printable_key_cstr printable_key_def)
  show t: "NUL \<notin> set ?t" "no_tilde ?t"
    using crypt_loop_keeps [OF key(3), of 0 s] assms key by auto
  show "Rivet_Crypt s key 0 MODE_ENCRYPT = Ret ?t" "Rivet_Crypt ?t key 0 MODE_DECRYPT = Ret s"
    using assms t key by (simp_all add: Rivet_Crypt_def cstr_id crypt_loop_decrypt_encrypt)
qed

lemma crypt_keys_roundtrip:
  assumes "list_all printable_key keys"
  shows "NUL \<notin> set s \<Longrightarrow> no_tilde s \<Longrightarrow>
    \<exists>t. crypt_keys MODE_ENCRYPT keys s = Ret t \<and> crypt_keys MODE_DECRYPT (rev keys) t = Ret s
      \<and> NUL \<notin> set t"
  using assms
proof (induction keys arbitrary: s)
  case (Cons key keys)
  obtain u where u: "Rivet_Crypt s key 0 MODE_ENCRYPT = Ret u" "Rivet_Crypt u key 0 MODE_DECRYPT = Ret s"
    "NUL \<notin> set u" "no_tilde u"
    using crypt_one_key Cons.prems by (metis list.pred_inject(2))
  with Cons.IH [of u] Cons.prems obtain t
    where "crypt_keys MODE_ENCRYPT keys u = Ret t" "crypt_keys MODE_DECRYPT (rev keys) t = Ret u"
      "NUL \<notin> set t"
    by auto
  with u show ?case by (auto simp: crypt_keys_append)
qed simp

section \<open>Properties\<close>

text \<open>C27: decrypting with the same keys in reverse order undoes \<open>encrypt\<close>, for every text without a
  tilde (control bytes and bytes above 127 included) and any number of printable, nonempty keys.\<close>

theorem decrypt_encrypt:
  assumes "NUL \<notin> set s" "no_tilde s" "keys \<noteq> []" "list_all printable_key keys"
  shows "\<exists>t. Rivet_EncryptCmd (cmd1 # s # keys) = Ret (TStr t)
    \<and> Rivet_DecryptCmd (cmd2 # t # rev keys) = Ret (TStr s)"
proof -
  obtain t where t: "crypt_keys MODE_ENCRYPT keys s = Ret t"
      "crypt_keys MODE_DECRYPT (rev keys) t = Ret s" "NUL \<notin> set t"
    using crypt_keys_roundtrip [OF assms(4,1,2)] by blast
  have "length keys > 0" using assms(3) by simp
  with t assms(1) show ?thesis by (simp add: Rivet_EncryptCmd_def Rivet_DecryptCmd_def cstr_id)
qed

lemma decrypt_encrypt_witness:
  "\<exists>t. Rivet_EncryptCmd (''encrypt'' # ''Az {}'' # [''key'', ''~x'']) = Ret (TStr t)
    \<and> Rivet_DecryptCmd (''decrypt'' # t # rev [''key'', ''~x'']) = Ret (TStr ''Az {}'')"
  by (rule decrypt_encrypt) (simp_all add: no_tilde_def printable_key_def printable_def uchar_def)

text \<open>The modulus 94 over the 95 printable bytes maps the tilde and the blank to one byte.\<close>

lemma encrypt_tilde_is_blank:
  "Rivet_EncryptCmd [cmd, ''~'', ''k''] = Rivet_EncryptCmd [cmd, '' '', ''k'']"
  by (simp add: Rivet_EncryptCmd_def Rivet_Crypt_def crypt_byte_def c_mod_def schar_def uchar_def)

text \<open>An empty key reaches the division by \<open>strlen(key)\<close>.\<close>

lemma encrypt_empty_key: "Rivet_EncryptCmd [cmd, s, []] = Fault DivByZero"
  by (simp add: Rivet_EncryptCmd_def Rivet_Crypt_def)

end
