(* ===== verification/Rivet_List.thy ===== *)
theory Rivet_List
  imports Rivet_Prelude
begin

text \<open>
  src/src/librivet/rivetList.c: the commands \<open>lremove\<close>, \<open>comma_split\<close>, \<open>comma_join\<close> and
  \<open>lassign_array\<close>. The list reading of a value and the pattern matchers of Tcl are parameters; the
  pointer walks over the strings are recursions on the rest of the string.
\<close>

section \<open>lremove\<close>

datatype match_mode = EXACT | GLOB | REGEXP

record lremove_args =
  la_mode :: match_mode
  la_all :: bool
  la_list :: nat

text \<open>The switch loop: \<open>i\<close> is the word looked at, \<open>la_list\<close> the index of the list argument.\<close>

fun lremove_switches :: "bytes list \<Rightarrow> lremove_args \<Rightarrow> lremove_args outcome" where
  "lremove_switches [] a = Ret a"
| "lremove_switches (w # ws) a =
     (if byte0 w \<noteq> CHR ''-'' then Ret a
      else if STREQU w ''-exact'' then
        lremove_switches ws (a\<lparr>la_mode := EXACT, la_list := la_list a + 1\<rparr>)
      else if STREQU w ''-glob'' then
        lremove_switches ws (a\<lparr>la_mode := GLOB, la_list := la_list a + 1\<rparr>)
      else if STREQU w ''-regexp'' then
        lremove_switches ws (a\<lparr>la_mode := REGEXP, la_list := la_list a + 1\<rparr>)
      else if STREQU w ''-all'' then
        lremove_switches ws (a\<lparr>la_all := True, la_list := la_list a + 1\<rparr>)
      else if STREQU w ''--'' then Ret (a\<lparr>la_list := la_list a + 1\<rparr>)
      else Fail (ErrMsg (''bad switch '' @ [DQ] @ cstr w @ [DQ]
             @ '': must be -exact, -glob, -regexp or -all'')))"

definition bin_data :: "'a outcome" where
  "bin_data = Fail (ErrMsg ''Binary data is not supported in this mode.'')"

definition has_NUL :: "bytes \<Rightarrow> bool" where
  "has_NUL s = (length (cstr s) \<noteq> length s)"

definition match_value :: "tcl_lib \<Rightarrow> match_mode \<Rightarrow> bytes \<Rightarrow> bytes \<Rightarrow> bool outcome" where
  "match_value lib mode value pattern =
     (if mode \<noteq> EXACT \<and> has_NUL pattern then bin_data
      else case mode of
        EXACT \<Rightarrow> Ret (length value = length pattern \<and> value = pattern)
      | GLOB \<Rightarrow> if has_NUL value then bin_data else Ret (Tcl_StringMatch lib value pattern)
      | REGEXP \<Rightarrow>
          if has_NUL value then bin_data
          else let m = Tcl_RegExpMatch lib value pattern in
            if m < 0 then Fail LibError else Ret (m \<noteq> 0))"

text \<open>The inner loop over the patterns. \<open>appended\<close> counts the patterns that did not match; without
  \<open>-all\<close> the first match ends the loop with \<open>done\<close> set.\<close>

fun match_patterns ::
  "tcl_lib \<Rightarrow> lremove_args \<Rightarrow> bytes \<Rightarrow> bytes list \<Rightarrow> nat \<Rightarrow> (bool \<times> nat) outcome" where
  "match_patterns lib a value [] appended = Ret (False, appended)"
| "match_patterns lib a value (pattern # ps) appended =
     bindO (match_value lib (la_mode a) value pattern)
       (\<lambda>m. if \<not> m then match_patterns lib a value ps (appended + 1)
            else if \<not> la_all a then Ret (True, appended)
            else match_patterns lib a value ps appended)"

text \<open>The outer loop over the elements; \<open>j\<close> is \<open>objc\<close> where the inner loop ran to its end.\<close>

fun lremove_elements ::
  "tcl_lib \<Rightarrow> lremove_args \<Rightarrow> bytes list \<Rightarrow> nat \<Rightarrow> bytes list \<Rightarrow> bool \<Rightarrow> bytes list \<Rightarrow> bytes list outcome" where
  "lremove_elements lib a ps objc [] dn matched = Ret matched"
| "lremove_elements lib a ps objc (v # vs) dn matched =
     (if dn then lremove_elements lib a ps objc vs dn (matched @ [v])
      else bindO (match_patterns lib a v ps (la_list a + 1))
        (\<lambda>(dn, appended).
           if dn then lremove_elements lib a ps objc vs True matched
           else lremove_elements lib a ps objc vs False
                  (if appended = objc then matched @ [v] else matched)))"

definition Rivet_LremoveObjCmd :: "tcl_lib \<Rightarrow> bytes list \<Rightarrow> tobj outcome" where
  "Rivet_LremoveObjCmd lib objv =
     (let objc = length objv in
      if objc < 3 then Fail (WrongNumArgs 1 ''?mode? ?-all? list ?pattern?.. ?pattern?..'')
      else bindO (lremove_switches (drop 1 objv) \<lparr> la_mode = GLOB, la_all = False, la_list = 1 \<rparr>)
        (\<lambda>a. if la_list a \<ge> objc - 1 then Fail (WrongNumArgs 1 ''?mod? ?-all? list pattern'')
             else (case Tcl_ListObjGetElements lib (objv ! la_list a) of
                     None \<Rightarrow> Fail LibError
                   | Some vs \<Rightarrow>
                       bindO (lremove_elements lib a (drop (la_list a + 1) objv) objc vs False [])
                         (\<lambda>matched. if matched = [] then Ret (TStr []) else Ret (TList matched)))))"

section \<open>comma_split and comma_join\<close>

text \<open>Scanning a quoted field: \<open>fld\<close> is the text from \<open>first\<close> to \<open>next\<close>. The result is the field and
  what follows its closing quote; \<open>None\<close> is the jump to \<open>format_error\<close> at the end of the string.\<close>

fun quoted_field :: "bytes \<Rightarrow> bytes \<Rightarrow> (bytes \<times> bytes) option" where
  "quoted_field [] fld = None"
| "quoted_field (c # cs) fld =
     (if c = NUL then None
      else if c = DQ then
        (case cs of
           [] \<Rightarrow> quoted_field cs (fld @ [c])
         | d # ds \<Rightarrow>
             if d = DQ then quoted_field ds (fld @ [c, d])
             else if d \<noteq> CHR '','' then quoted_field cs (fld @ [c])
             else Some (fld, cs))
      else quoted_field cs (fld @ [c]))"

text \<open>Scanning a bare field: its text, and what follows the comma (\<open>None\<close> at the end).\<close>

fun bare_field :: "bytes \<Rightarrow> bytes \<Rightarrow> bytes \<times> bytes option" where
  "bare_field [] fld = (fld, None)"
| "bare_field (c # cs) fld =
     (if c = NUL then (fld, None)
      else if c = CHR '','' then (fld, Some cs)
      else bare_field cs (fld @ [c]))"

definition format_error :: "bytes \<Rightarrow> 'a outcome" where
  "format_error first =
     Fail (ErrMsg (''format error in string: '' @ [DQ] @ cstr first @ [DQ]))"

lemma quoted_field_shorter: "quoted_field s fld = Some (f, r) \<Longrightarrow> length r < length s"
  by (induction s fld rule: quoted_field.induct) (fastforce split: if_splits list.splits)+

lemma bare_field_shorter: "bare_field s fld = (f, Some r) \<Longrightarrow> length r < length s"
  by (induction s fld rule: bare_field.induct) (auto split: if_splits)

function comma_split_loop :: "bytes \<Rightarrow> bytes list \<Rightarrow> bytes list outcome" where
  "comma_split_loop first result =
     (if first \<noteq> [] \<and> hd first = DQ then
        (case quoted_field (tl first) [] of
           None \<Rightarrow> format_error (tl first)
         | Some (fld, next) \<Rightarrow>
             (if byte0 next = NUL then Ret (result @ [fld])
              else if byte0 next \<noteq> CHR '','' then format_error (tl first)
              else comma_split_loop (tl next) (result @ [fld])))
      else
        (case bare_field first [] of
           (fld, None) \<Rightarrow> Ret (result @ [fld])
         | (fld, Some next) \<Rightarrow> comma_split_loop next (result @ [fld])))"
  by pat_completeness auto
termination
proof (relation "measure (\<lambda>(first, _). length first)")
  fix first :: bytes and fld and p :: "bytes \<times> bytes" and "next" :: bytes
  assume "first \<noteq> [] \<and> hd first = DQ" "quoted_field (tl first) [] = Some p" "(fld, next) = p"
  then have "length next < length (tl first)" using quoted_field_shorter by metis
  then show "((tl next, result @ [fld]), first, result) \<in> measure (\<lambda>(first, _). length first)" for result :: "bytes list"
    by simp
qed (auto dest: bare_field_shorter [OF sym])

declare comma_split_loop.simps [simp del]

definition Rivet_CommaSplitObjCmd :: "bytes list \<Rightarrow> tobj outcome" where
  "Rivet_CommaSplitObjCmd objv =
     (if length objv \<noteq> 2 then Fail (WrongNumArgs 1 ''string'')
      else if length (objv ! 1) = 0 then Ret (TStr [])
      else bindO (comma_split_loop (objv ! 1) []) (\<lambda>l. Ret (TList l)))"

text \<open>The walk of \<open>comma_join\<close> over an element: \<open>pending\<close> is the text from \<open>strPtr\<close> to \<open>walkPtr\<close>.\<close>

fun join_walk :: "bytes \<Rightarrow> bytes \<Rightarrow> bytes \<Rightarrow> bytes" where
  "join_walk [] pending resultPtr = resultPtr @ pending"
| "join_walk (c # cs) pending resultPtr =
     (if c \<noteq> DQ then join_walk cs (pending @ [c]) resultPtr
      else join_walk cs [DQ] (resultPtr @ pending @ [c]))"

fun comma_join_loop :: "bytes list \<Rightarrow> bool \<Rightarrow> bytes \<Rightarrow> bytes" where
  "comma_join_loop [] didField resultPtr = resultPtr @ [DQ]"
| "comma_join_loop (x # xs) didField resultPtr =
     comma_join_loop xs True
       (join_walk x [] (resultPtr @ (if didField then [DQ, CHR '','', DQ] else [DQ])))"

definition Rivet_CommaJoinObjCmd :: "tcl_lib \<Rightarrow> bytes list \<Rightarrow> tobj outcome" where
  "Rivet_CommaJoinObjCmd lib objv =
     (if length objv \<noteq> 2 then Fail (WrongNumArgs 1 ''list arrayName elementName ?elementName..?'')
      else (case Tcl_ListObjGetElements lib (objv ! 1) of
              None \<Rightarrow> Fail LibError
            | Some xs \<Rightarrow> Ret (TStr (comma_join_loop xs False []))))"

section \<open>lassign_array\<close>

text \<open>\<open>Tcl_ObjSetVar2\<close> is a parameter: it writes an element of an array of the interpreter, whose
  variables are the state \<open>'v\<close>, or fails. A failure leaves the assignments made before it.\<close>

fun lassign_loop ::
  "('v \<Rightarrow> bytes \<Rightarrow> bytes \<Rightarrow> bytes \<Rightarrow> 'v option) \<Rightarrow> bytes \<Rightarrow> bytes list \<Rightarrow> bytes list \<Rightarrow> 'v \<Rightarrow> 'v \<times> bytes list outcome" where
  "lassign_loop set_var array [] vals vars = (vars, Ret vals)"
| "lassign_loop set_var array (e # es) vals vars =
     (case set_var vars array e (case vals of [] \<Rightarrow> [] | v # vs \<Rightarrow> v) of
        None \<Rightarrow> (vars, Fail LibError)
      | Some vars \<Rightarrow> lassign_loop set_var array es (drop 1 vals) vars)"

definition Rivet_LassignArrayObjCmd ::
  "tcl_lib \<Rightarrow> ('v \<Rightarrow> bytes \<Rightarrow> bytes \<Rightarrow> bytes \<Rightarrow> 'v option) \<Rightarrow> bytes list \<Rightarrow> 'v \<Rightarrow> 'v \<times> tobj outcome" where
  "Rivet_LassignArrayObjCmd lib set_var objv vars =
     (if length objv < 4 then
        (vars, Fail (WrongNumArgs 1 ''list arrayName elementName ?elementName..?''))
      else (case Tcl_ListObjGetElements lib (objv ! 1) of
              None \<Rightarrow> (vars, Fail LibError)
            | Some vals \<Rightarrow>
                (let r = lassign_loop set_var (objv ! 2) (drop 3 objv) vals vars
                 in (fst r, bindO (snd r)
                              (\<lambda>rest. Ret (if rest = [] then TStr [] else TList rest))))))"

section \<open>Facts about lremove\<close>

text \<open>The reading of the match modes and of the two removal modes.\<close>

definition value_matches :: "tcl_lib \<Rightarrow> match_mode \<Rightarrow> bytes list \<Rightarrow> bytes \<Rightarrow> bool" where
  "value_matches lib mode ps v =
     list_ex (\<lambda>p. case mode of
        EXACT \<Rightarrow> v = p
      | GLOB \<Rightarrow> Tcl_StringMatch lib v p
      | REGEXP \<Rightarrow> Tcl_RegExpMatch lib v p > 0) ps"

definition remove_spec :: "bool \<Rightarrow> (bytes \<Rightarrow> bool) \<Rightarrow> bytes list \<Rightarrow> bytes list" where
  "remove_spec all P vs =
     (if all then filter (\<lambda>v. \<not> P v) vs
      else takeWhile (\<lambda>v. \<not> P v) vs @ drop 1 (dropWhile (\<lambda>v. \<not> P v) vs))"

text \<open>The arguments for which the matchers report no error.\<close>

definition matchable :: "tcl_lib \<Rightarrow> match_mode \<Rightarrow> bytes list \<Rightarrow> bytes list \<Rightarrow> bool" where
  "matchable lib mode ps vs \<longleftrightarrow>
     (mode \<noteq> EXACT \<longrightarrow> list_all (\<lambda>s. NUL \<notin> set s) (ps @ vs))
     \<and> (mode = REGEXP \<longrightarrow> list_all (\<lambda>v. list_all (\<lambda>p. Tcl_RegExpMatch lib v p \<ge> 0) ps) vs)"

fun mode_word :: "match_mode \<Rightarrow> bytes" where
  "mode_word EXACT = ''-exact''"
| "mode_word GLOB = ''-glob''"
| "mode_word REGEXP = ''-regexp''"

lemma has_NUL_iff: "has_NUL s \<longleftrightarrow> NUL \<in> set s"
  by (simp add: has_NUL_def cstr_shorter_iff)

lemma match_value_spec:
  "matchable lib mode (p # ps) [v] \<Longrightarrow> match_value lib mode v p = Ret (value_matches lib mode [p] v)"
  by (cases mode) (auto simp: match_value_def value_matches_def matchable_def has_NUL_iff)

lemma value_matches_Cons:
  "value_matches lib mode (p # ps) v \<longleftrightarrow> value_matches lib mode [p] v \<or> value_matches lib mode ps v"
  by (simp add: value_matches_def)

lemma matchable_tl: "matchable lib mode (p # ps) vs \<Longrightarrow> matchable lib mode ps vs"
  by (auto simp: matchable_def list_all_iff)

lemma matchable_Cons: "matchable lib mode ps (v # vs) \<Longrightarrow> matchable lib mode ps [v] \<and> matchable lib mode ps vs"
  by (auto simp: matchable_def)

lemma match_patterns_spec:
  "matchable lib (la_mode a) ps [v] \<Longrightarrow>
   match_patterns lib a v ps n =
     (if \<not> la_all a \<and> value_matches lib (la_mode a) ps v
      then Ret (True, n + length (takeWhile (\<lambda>p. \<not> value_matches lib (la_mode a) [p] v) ps))
      else Ret (False, n + length (filter (\<lambda>p. \<not> value_matches lib (la_mode a) [p] v) ps)))"
proof (induction ps arbitrary: n)
  case Nil
  then show ?case by (simp add: value_matches_def)
next
  case (Cons p ps)
  show ?case
    using Cons.IH [OF matchable_tl [OF Cons.prems]] match_value_spec [OF Cons.prems]
      value_matches_Cons [of lib "la_mode a" p ps v]
    by simp
qed

lemma no_match_count:
  "length (filter (\<lambda>p. \<not> value_matches lib mode [p] v) ps) = length ps \<longleftrightarrow> \<not> value_matches lib mode ps v"
proof -
  have "value_matches lib mode ps v \<longleftrightarrow> (\<exists>p \<in> set ps. value_matches lib mode [p] v)"
    by (induction ps) (simp_all add: value_matches_def)
  moreover have "length (filter (\<lambda>p. \<not> value_matches lib mode [p] v) ps) = length ps
      \<longleftrightarrow> (\<forall>p \<in> set ps. \<not> value_matches lib mode [p] v)"
    by (metis filter_True length_filter_less nat_less_le)
  ultimately show ?thesis by blast
qed

lemma lremove_elements_done: "lremove_elements lib a ps objc vs True m = Ret (m @ vs)"
  by (induction vs arbitrary: m) simp_all

lemma lremove_elements_spec:
  "matchable lib (la_mode a) ps vs \<Longrightarrow> objc = la_list a + 1 + length ps \<Longrightarrow>
   lremove_elements lib a ps objc vs False m
     = Ret (m @ remove_spec (la_all a) (value_matches lib (la_mode a) ps) vs)"
proof (induction vs arbitrary: m)
  case Nil
  then show ?case by (simp add: remove_spec_def)
next
  case (Cons v vs)
  note v = matchable_Cons [OF Cons.prems(1)]
  have n: "la_list a + 1 + length (filter (\<lambda>p. \<not> value_matches lib (la_mode a) [p] v) ps) = objc
      \<longleftrightarrow> \<not> value_matches lib (la_mode a) ps v"
    using no_match_count [of lib "la_mode a" v ps] Cons.prems(2) by simp
  then show ?case
    using Cons.IH [OF conjunct2 [OF v] Cons.prems(2)] match_patterns_spec [OF conjunct1 [OF v]]
    by (cases "value_matches lib (la_mode a) ps v")
      (auto simp: lremove_elements_done remove_spec_def)
qed

section \<open>Facts about comma_split and comma_join\<close>

definition double_quotes :: "bytes \<Rightarrow> bytes" where
  "double_quotes x = concat (map (\<lambda>c. if c = DQ then [DQ, DQ] else [c]) x)"

definition joined_field :: "bytes \<Rightarrow> bytes" where
  "joined_field x = [DQ] @ double_quotes x @ [DQ]"

lemma join_walk_spec: "join_walk x pending r = r @ pending @ double_quotes x"
  by (induction x pending r rule: join_walk.induct) (simp_all add: double_quotes_def)

lemma comma_join_loop_spec:
  "comma_join_loop xs True r = r @ concat (map (\<lambda>x. [DQ, CHR '','', DQ] @ double_quotes x) xs) @ [DQ]"
  by (induction xs arbitrary: r) (simp_all add: join_walk_spec)

lemma comma_join_fields:
  "xs \<noteq> [] \<Longrightarrow> comma_join_loop xs False [] = join_with [CHR '',''] (map joined_field xs)"
proof (induction xs rule: induct_list012)
  case (3 x y ys)
  then show ?case
    by (simp add: comma_join_loop_spec join_walk_spec joined_field_def)
qed (simp_all add: joined_field_def join_walk_spec)

lemma double_quotes_simps [simp]:
  "double_quotes [] = []"
  "double_quotes (c # x) = (if c = DQ then [DQ, DQ] else [c]) @ double_quotes x"
  by (simp_all add: double_quotes_def)

lemma quoted_field_read:
  "NUL \<notin> set x \<Longrightarrow> quoted_field (double_quotes x @ DQ # CHR '','' # r) f
     = Some (f @ double_quotes x, CHR '','' # r)"
  by (induction x arbitrary: f) auto

lemma split_joined_field:
  "NUL \<notin> set x \<Longrightarrow> comma_split_loop (joined_field x @ CHR '','' # r) result
     = comma_split_loop r (result @ [double_quotes x])"
  by (subst comma_split_loop.simps) (simp add: joined_field_def quoted_field_read)

lemma split_joined_fields:
  "list_all (\<lambda>x. NUL \<notin> set x) xs \<Longrightarrow>
   comma_split_loop (concat (map (\<lambda>x. joined_field x @ '','') xs)) result
     = Ret (result @ map double_quotes xs @ [[]])"
proof (induction xs arbitrary: result)
  case Nil
  then show ?case by (subst comma_split_loop.simps) simp
next
  case (Cons x xs)
  then show ?case using split_joined_field [of x] by simp
qed

lemma join_with_trailing:
  "xs \<noteq> [] \<Longrightarrow> join_with [CHR '',''] (map joined_field xs) @ '','' = concat (map (\<lambda>x. joined_field x @ '','') xs)"
  by (induction xs rule: induct_list012) simp_all

text \<open>A field that does not start with a quote is everything up to the next comma.\<close>

definition bare :: "bytes \<Rightarrow> bool" where
  "bare x \<longleftrightarrow> set x \<inter> {NUL, CHR '',''} = {} \<and> byte0 x \<noteq> DQ"

lemma bare_field_end: "set x \<inter> {NUL, CHR '',''} = {} \<Longrightarrow> bare_field x f = (f @ x, None)"
  by (induction x arbitrary: f) auto

lemma bare_field_comma:
  "set x \<inter> {NUL, CHR '',''} = {} \<Longrightarrow> bare_field (x @ CHR '','' # r) f = (f @ x, Some r)"
  by (induction x arbitrary: f) auto

lemma split_bare:
  "list_all bare xs \<Longrightarrow> xs \<noteq> [] \<Longrightarrow> comma_split_loop (join_with [CHR '',''] xs) result = Ret (result @ xs)"
proof (induction xs arbitrary: result rule: induct_list012)
  case (2 x)
  then show ?case
    by (subst comma_split_loop.simps) (cases x; auto simp: bare_def bare_field_end)
next
  case (3 x y ys)
  have "comma_split_loop (x @ CHR '','' # join_with '','' (y # ys)) result
      = comma_split_loop (join_with '','' (y # ys)) (result @ [x])"
    using "3.prems" bare_field_comma [of x "join_with '','' (y # ys)" "[]"]
    by (subst comma_split_loop.simps) (cases x; auto simp: bare_def)
  with 3 show ?case by simp
qed simp

text \<open>The last field has no comma behind its closing quote, so the scan runs to the end.\<close>

lemma quoted_field_last: "NUL \<notin> set x \<Longrightarrow> quoted_field (double_quotes x @ [DQ]) f = None"
  by (induction x arbitrary: f) auto

lemma split_last_joined:
  "NUL \<notin> set x \<Longrightarrow> comma_split_loop (joined_field x) result = format_error (double_quotes x @ [DQ])"
  by (subst comma_split_loop.simps) (simp add: joined_field_def quoted_field_last)

lemma split_join_fails:
  "xs \<noteq> [] \<Longrightarrow> list_all (\<lambda>x. NUL \<notin> set x) xs \<Longrightarrow>
   comma_split_loop (join_with '','' (map joined_field xs)) result
     = format_error (double_quotes (last xs) @ [DQ])"
proof (induction xs arbitrary: result rule: induct_list012)
  case (3 x y ys)
  then show ?case
    using split_joined_field [of x "join_with '','' (map joined_field (y # ys))" result] by simp
qed (simp_all add: split_last_joined)

lemma lassign_loop_success:
  assumes "\<And>vars e v. set_var vars array e v = Some (upd vars e v)"
  shows "lassign_loop set_var array es vals vars =
    (foldl (\<lambda>s (e, v). upd s e v) vars (zip es (vals @ replicate (length es) [])), Ret (drop (length es) vals))"
proof (induction es arbitrary: vals vars)
  case (Cons e es)
  show ?case
  proof (cases vals)
    case Nil
    then show ?thesis using Cons.IH [of "[]"] by (simp add: assms)
  next
    case (Cons v vs)
    have "zip es (vs @ replicate (Suc (length es)) []) = zip es (vs @ replicate (length es) [])"
      by (rule nth_equalityI) (auto simp: nth_append nth_Cons split: nat.split)
    then show ?thesis using Cons.IH [of vs] Cons by (simp add: assms)
  qed
qed simp

section \<open>Properties\<close>

text \<open>C28: \<open>lremove\<close> removes every element that matches a pattern with \<open>-all\<close>, and only the first
  such element without it, keeping the order of the others, in each of the three match modes.\<close>

theorem lremove_spec:
  assumes "Tcl_ListObjGetElements lib lst = Some vs" and "ps \<noteq> []"
    and "matchable lib mode ps vs"
  shows "Rivet_LremoveObjCmd lib ([cmd, mode_word mode] @ (if all then [''-all''] else [])
      @ [''--'', lst] @ ps)
    = (let r = remove_spec all (value_matches lib mode ps) vs
       in Ret (if r = [] then TStr [] else TList r))"
proof -
  let ?a = "\<lparr>la_mode = mode, la_all = all, la_list = (if all then 4 else 3)\<rparr>"
  have sw: "lremove_switches (tl ([cmd, mode_word mode] @ (if all then [''-all''] else []) @ [''--'', lst] @ ps))
      \<lparr>la_mode = GLOB, la_all = False, la_list = 1\<rparr> = Ret ?a"
    by (cases mode; cases all) (simp_all add: STREQU_def)
  have "length ps > 0" using assms(2) by simp
  then show ?thesis
    using assms sw lremove_elements_spec [of lib ?a ps vs "(if all then 5 else 4) + length ps" "[]"]
    by (cases all)
      (simp_all add: Rivet_LremoveObjCmd_def Let_def drop_Suc numeral_eq_Suc del: lremove_switches.simps)
qed

definition demo_lib :: tcl_lib where
  "demo_lib = \<lparr> Tcl_ListObjGetElements = \<lambda>s. if s = ''a b a'' then Some [''a'', ''b'', ''a''] else None,
     Tcl_StringMatch = \<lambda>v p. v = p, Tcl_RegExpMatch = \<lambda>v p. if v = p then 1 else 0 \<rparr>"

lemma lremove_spec_witness:
  "Rivet_LremoveObjCmd demo_lib ([''lremove'', mode_word REGEXP] @ (if False then [''-all''] else [])
      @ [''--'', ''a b a''] @ [''x'', ''a''])
    = (let r = remove_spec False (value_matches demo_lib REGEXP [''x'', ''a'']) [''a'', ''b'', ''a'']
       in Ret (if r = [] then TStr [] else TList r))"
  by (rule lremove_spec) (simp_all add: demo_lib_def matchable_def)

text \<open>\<open>comma_split\<close> reads what \<open>comma_join\<close> wrote when one more comma follows: it returns the
  elements with their quotes doubled (a pair of quotes stays a pair) and one empty field.\<close>

lemma comma_split_join_comma:
  assumes "Tcl_ListObjGetElements lib lst = Some xs" "xs \<noteq> []" "list_all (\<lambda>x. NUL \<notin> set x) xs"
  shows "\<exists>t. Rivet_CommaJoinObjCmd lib [cmd1, lst] = Ret (TStr t)
    \<and> Rivet_CommaSplitObjCmd [cmd2, t @ '',''] = Ret (TList (map double_quotes xs @ [[]]))"
  using assms split_joined_fields [OF assms(3), of "[]"]
  by (simp add: Rivet_CommaJoinObjCmd_def Rivet_CommaSplitObjCmd_def comma_join_fields
      join_with_trailing)

lemma comma_split_join_comma_witness:
  "\<exists>t. Rivet_CommaJoinObjCmd demo_lib [''comma_join'', ''a b a''] = Ret (TStr t)
    \<and> Rivet_CommaSplitObjCmd [''comma_split'', t @ '','']
      = Ret (TList (map double_quotes [''a'', ''b'', ''a''] @ [[]]))"
  by (rule comma_split_join_comma) (simp_all add: demo_lib_def)

text \<open>Without quotes, \<open>comma_split\<close> cuts the string at its commas and nowhere else.\<close>

theorem comma_split_bare:
  assumes "list_all bare xs" "join_with '','' xs \<noteq> []"
  shows "Rivet_CommaSplitObjCmd [cmd, join_with '','' xs] = Ret (TList xs)"
proof -
  have "xs \<noteq> []" using assms(2) by auto
  then show ?thesis
    using split_bare [OF assms(1), of "[]"] assms(2) by (simp add: Rivet_CommaSplitObjCmd_def)
qed

lemma comma_split_bare_witness:
  "Rivet_CommaSplitObjCmd [''comma_split'', join_with '','' [''a b'', [], ''c'']]
    = Ret (TList [''a b'', [], ''c''])"
  by (rule comma_split_bare) (simp_all add: bare_def)

text \<open>Without that comma the last field is a format error, whatever the elements are; the empty
  list is joined to a lone quote.\<close>

lemma comma_split_join_format_error:
  assumes "Tcl_ListObjGetElements lib lst = Some xs" "xs \<noteq> []" "list_all (\<lambda>x. NUL \<notin> set x) xs"
  shows "\<exists>t. Rivet_CommaJoinObjCmd lib [cmd1, lst] = Ret (TStr t)
    \<and> Rivet_CommaSplitObjCmd [cmd2, t] = format_error (double_quotes (last xs) @ [DQ])"
proof -
  have "join_with '','' (map joined_field xs) \<noteq> []"
    using assms(2) by (cases xs rule: remdups_adj.cases) (simp_all add: joined_field_def)
  then show ?thesis
    using assms split_join_fails [OF assms(2,3), of "[]"]
    by (simp add: Rivet_CommaJoinObjCmd_def Rivet_CommaSplitObjCmd_def comma_join_fields
        format_error_def)
qed

lemma comma_join_empty:
  "Tcl_ListObjGetElements lib [] = Some [] \<Longrightarrow> Rivet_CommaJoinObjCmd lib [cmd, []] = Ret (TStr [DQ])"
  by (simp add: Rivet_CommaJoinObjCmd_def)

text \<open>When the assignments succeed, \<open>lassign_array\<close> gives the named elements the values of the
  list in order, the empty string where the list is too short, and returns the values left over.\<close>

theorem lassign_array_spec:
  assumes "Tcl_ListObjGetElements lib lst = Some vals" "es \<noteq> []"
    and "\<And>vars e v. set_var vars array e v = Some (upd vars e v)"
  shows "Rivet_LassignArrayObjCmd lib set_var ([cmd, lst, array] @ es) vars =
    (foldl (\<lambda>s (e, v). upd s e v) vars (zip es (vals @ replicate (length es) [])),
     Ret (if length vals \<le> length es then TStr [] else TList (drop (length es) vals)))"
proof -
  have "length es > 0" using assms(2) by simp
  then show ?thesis
    using assms(1) lassign_loop_success [of set_var array upd, OF assms(3)] by (simp add: Rivet_LassignArrayObjCmd_def)
qed

lemma lassign_array_spec_witness:
  "Rivet_LassignArrayObjCmd demo_lib (\<lambda>s a e v. Some (s((a, e) \<mapsto> v)))
      ([''lassign_array'', ''a b a'', ''arr''] @ [''x'', ''y'']) Map.empty =
    (foldl (\<lambda>s (e, v). s((''arr'', e) \<mapsto> v)) Map.empty
       (zip [''x'', ''y''] ([''a'', ''b'', ''a''] @ replicate (length [''x'', ''y'']) [])),
     Ret (if length [''a'', ''b'', ''a''] \<le> length [''x'', ''y''] then TStr []
          else TList (drop (length [''x'', ''y'']) [''a'', ''b'', ''a''])))"
  by (rule lassign_array_spec) (simp_all add: demo_lib_def)

end
