(* ===== verification/Rivet_Parser.thy ===== *)
theory Rivet_Parser
  imports Rivet_Prelude "HOL-Library.Sublist"
begin

text \<open>
  src/src/parser/rivetParser.c: the translation of a template (static text with \<open><? ... ?>\<close>
  sections) into a Tcl script, and the two routines that read a file. The parser is modelled
  character by character with its partial match counter \<open>p\<close>; the Tcl routine that finds the next
  character and the channel routines are parameters.
\<close>

section \<open>The parser\<close>

definition START_TAG :: bytes where "START_TAG = ''<?''"
definition END_TAG :: bytes where "END_TAG = ''?>''"

record parser_state =
  inside :: bool
  p :: nat
  check_echo :: bool

definition parser_init :: parser_state where
  "parser_init = \<lparr> inside = False, p = 0, check_echo = False \<rparr>"

definition quote_char :: "bytes \<Rightarrow> bytes" where
  "quote_char ch =
     (if hd ch = CHR ''{'' then [BSL, CHR ''{'']
      else if hd ch = CHR ''}'' then [BSL, CHR ''}'']
      else if hd ch = CHR ''$'' then [BSL, CHR ''$'']
      else if hd ch = CHR ''['' then [BSL, CHR ''['']
      else if hd ch = CHR '']'' then [BSL, CHR '']'']
      else if hd ch = DQ then [BSL, DQ]
      else if hd ch = BSL then [BSL, BSL]
      else ch)"

text \<open>One turn of the loop on the character \<open>ch\<close>: the new state and the bytes appended.\<close>

definition parse_char :: "parser_state \<Rightarrow> bytes \<Rightarrow> parser_state \<times> bytes" where
  "parse_char st ch =
     (let c = hd ch in
      if \<not> inside st then
        if c = START_TAG ! p st then
          if p st + 1 = length START_TAG
          then (st\<lparr>inside := True, check_echo := True, p := 0\<rparr>, [DQ, LF])
          else (st\<lparr>p := p st + 1\<rparr>, [])
        else (st\<lparr>p := 0\<rparr>, (if p st > 0 then take (p st) START_TAG else []) @ quote_char ch)
      else if check_echo st \<and> c = CHR ''=''
      then (st\<lparr>check_echo := False\<rparr>, LF # ''puts -nonewline '')
      else
        let st = st\<lparr>check_echo := False\<rparr> in
        if c = END_TAG ! p st then
          if p st + 1 = length END_TAG
          then (st\<lparr>inside := False, p := 0\<rparr>, LF # ''puts -nonewline '' @ [DQ])
          else (st\<lparr>p := p st + 1\<rparr>, [])
        else (st\<lparr>p := 0\<rparr>, (if p st > 0 then take (p st) END_TAG else []) @ ch))"

text \<open>\<open>utf_next s\<close> is the number of bytes \<open>Tcl_UtfNext\<close> skips behind the first byte of \<open>s\<close>.\<close>

function parser_loop ::
  "(bytes \<Rightarrow> nat) \<Rightarrow> parser_state \<Rightarrow> bytes \<Rightarrow> bytes \<Rightarrow> parser_state \<times> bytes" where
  "parser_loop utf_next st [] outbuf = (st, outbuf)"
| "parser_loop utf_next st (c # cs) outbuf =
     (if c = NUL then (st, outbuf)
      else
        let n = utf_next (c # cs);
            step = parse_char st (c # take n cs)
        in parser_loop utf_next (fst step) (drop n cs) (outbuf @ snd step))"
  by pat_completeness auto
termination by (relation "measure (\<lambda>(_, _, s, _). length s)") auto

definition Rivet_Parser :: "(bytes \<Rightarrow> nat) \<Rightarrow> bytes \<Rightarrow> bytes \<Rightarrow> bool \<times> bytes" where
  "Rivet_Parser utf_next outbuf inbuf =
     (if length inbuf = 0 then (False, outbuf)
      else let r = parser_loop utf_next parser_init inbuf outbuf in (inside (fst r), snd r))"

section \<open>Reading the files\<close>

record 'chan tcl_io =
  Tcl_OpenFileChannel :: "bytes \<Rightarrow> 'chan option"
  Tcl_SetChannelOption :: "'chan \<Rightarrow> bytes \<Rightarrow> bytes \<Rightarrow> 'chan option"
  Tcl_ReadChars :: "'chan \<Rightarrow> bytes option"
  Tcl_Close :: "'chan \<Rightarrow> bool"
  Tcl_PosixError :: bytes
  Tcl_UtfNext :: "bytes \<Rightarrow> nat"

definition cant_read_message :: "'chan tcl_io \<Rightarrow> bytes \<Rightarrow> bytes" where
  "cant_read_message io filename =
     ''couldn't read file '' @ [DQ] @ cstr filename @ [DQ] @ '': '' @ Tcl_PosixError io"

text \<open>The routines fill in the object \<open>outbuf\<close>: its new value comes with the result.\<close>

definition Rivet_GetTclFile :: "'chan tcl_io \<Rightarrow> bytes \<Rightarrow> bytes \<Rightarrow> bytes \<times> unit outcome" where
  "Rivet_GetTclFile io filename outbuf =
     (case Tcl_OpenFileChannel io filename of
        None \<Rightarrow> (outbuf, Fail (ErrMsg (cant_read_message io filename)))
      | Some chan \<Rightarrow>
          (case Tcl_ReadChars io chan of
             None \<Rightarrow> (outbuf, Fail (ErrMsg (cant_read_message io filename)))
           | Some text \<Rightarrow>
               (outbuf @ text, if Tcl_Close io chan then Ret () else Fail LibError)))"

definition Rivet_GetRivetFileEncoding ::
    "'chan tcl_io \<Rightarrow> bytes \<Rightarrow> bytes \<Rightarrow> bytes option \<Rightarrow> bytes \<times> unit outcome" where
  "Rivet_GetRivetFileEncoding io filename outbuf encoding =
     (case Tcl_OpenFileChannel io filename of
        None \<Rightarrow> (outbuf, Fail LibError)
      | Some chan \<Rightarrow>
          (case (case encoding of
                   None \<Rightarrow> Some chan
                 | Some e \<Rightarrow>
                     (case Tcl_SetChannelOption io chan ''-translation'' ''binary'' of
                        None \<Rightarrow> None
                      | Some chan \<Rightarrow> Tcl_SetChannelOption io chan ''-encoding'' e)) of
             None \<Rightarrow> (outbuf, Fail LibError)
           | Some chan \<Rightarrow>
               let outbuf = outbuf @ ''puts -nonewline '' @ [DQ] in
               (case Tcl_ReadChars io chan of
                  None \<Rightarrow> (outbuf, Fail LibError)
                | Some inbuf \<Rightarrow>
                    let r = Rivet_Parser (Tcl_UtfNext io) outbuf inbuf in
                    (if \<not> fst r then snd r @ [DQ, LF] else snd r, Ret ()))))"

definition Rivet_GetRivetFile :: "'chan tcl_io \<Rightarrow> bytes \<Rightarrow> bytes \<Rightarrow> bytes \<times> unit outcome" where
  "Rivet_GetRivetFile io filename outbuf = Rivet_GetRivetFileEncoding io filename outbuf None"

section \<open>The parser byte by byte\<close>

text \<open>What the parser relies on in \<open>Tcl_UtfNext\<close>: it steps over an ASCII byte alone, and skips only
  continuation bytes of a multi-byte character.\<close>

definition utf8_steps :: "(bytes \<Rightarrow> nat) \<Rightarrow> bool" where
  "utf8_steps utf_next \<longleftrightarrow>
     (\<forall>c cs. (uchar c < 128 \<longrightarrow> utf_next (c # cs) = 0)
       \<and> list_all (\<lambda>b. 128 \<le> uchar b) (take (utf_next (c # cs)) cs))"

definition parse_byte :: "parser_state \<times> bytes \<Rightarrow> char \<Rightarrow> parser_state \<times> bytes" where
  "parse_byte so c = (let step = parse_char (fst so) [c] in (fst step, snd so @ snd step))"

definition parse_bytes :: "bytes \<Rightarrow> parser_state \<times> bytes \<Rightarrow> parser_state \<times> bytes" where
  "parse_bytes s so = foldl parse_byte so s"

lemma parse_bytes_simps [simp]:
  "parse_bytes [] so = so"
  "parse_bytes (c # s) so = parse_bytes s (parse_byte so c)"
  "parse_bytes (s @ t) so = parse_bytes t (parse_bytes s so)"
  by (simp_all add: parse_bytes_def)

lemma tags [simp]: "length START_TAG = 2" "length END_TAG = 2"
  "START_TAG ! 0 = CHR ''<''" "START_TAG ! Suc 0 = CHR ''?''"
  "END_TAG ! 0 = CHR ''?''" "END_TAG ! Suc 0 = CHR ''>''"
  "take 0 START_TAG = []" "take (Suc 0) START_TAG = ''<''" "take (Suc 0) END_TAG = ''?''"
  by (simp_all add: START_TAG_def END_TAG_def)

text \<open>A byte above 127 is neither part of a tag nor quoted, so the bytes that follow it in its
  character are appended the same way when they are taken one at a time.\<close>

lemma high_byte: "128 \<le> uchar c \<Longrightarrow> c \<notin> {NUL, CHR ''<'', CHR ''?'', CHR ''>'', CHR ''='', CHR ''{'',
    CHR ''}'', CHR ''$'', CHR ''['', CHR '']'', DQ, BSL}"
  by (auto simp: uchar_def)

lemma parse_bytes_high:
  "list_all (\<lambda>b. 128 \<le> uchar b) s \<Longrightarrow> p st = 0 \<Longrightarrow> \<not> check_echo st \<Longrightarrow>
   parse_bytes s (st, outbuf) = (st, outbuf @ s)"
proof (induction s arbitrary: outbuf)
  case (Cons c s)
  from Cons.prems have "128 \<le> uchar c" by simp
  then have "parse_char st [c] = (st, [c])"
    using high_byte [of c] Cons.prems by (simp add: parse_char_def quote_char_def)
  with Cons show ?case by (simp add: parse_byte_def)
qed simp

definition parser_ok :: "parser_state \<Rightarrow> bool" where
  "parser_ok st \<longleftrightarrow> p st < 2 \<and> \<not> (check_echo st \<and> \<not> inside st)"

lemma parse_char_ok: "parser_ok st \<Longrightarrow> parser_ok (fst (parse_char st ch))"
  by (auto simp: parser_ok_def parse_char_def Let_def)

lemma parse_char_high:
  "128 \<le> uchar c \<Longrightarrow> parser_ok st \<Longrightarrow>
   parse_char st (c # cs) =
     (st\<lparr>check_echo := False, p := 0\<rparr>, take (p st) (if inside st then END_TAG else START_TAG) @ c # cs)"
  using high_byte [of c] by (cases st; cases "p st") (auto simp: parser_ok_def parse_char_def quote_char_def)

lemma cstr_take_drop: "NUL \<notin> set (take n s) \<Longrightarrow> cstr s = take n s @ cstr (drop n s)"
  by (metis append_take_drop_id cstr_append)

lemma parser_loop_bytes:
  assumes "utf8_steps utf_next"
  shows "parser_ok st \<Longrightarrow> parser_loop utf_next st s outbuf = parse_bytes (cstr s) (st, outbuf)"
  using assms
proof (induction utf_next st s outbuf rule: parser_loop.induct)
  case (2 utf_next st c cs outbuf)
  let ?n = "utf_next (c # cs)" and ?step = "parse_char st (c # take (utf_next (c # cs)) cs)"
  have high: "list_all (\<lambda>b. 128 \<le> uchar b) (take ?n cs)" and low: "uchar c < 128 \<Longrightarrow> ?n = 0"
    using "2.prems" by (simp_all add: utf8_steps_def)
  have no: "NUL \<notin> set (take ?n cs)" using high high_byte by (auto simp: list_all_iff)
  show ?case
  proof (cases "c = NUL")
    case False
    have "parse_bytes (take ?n cs) (parse_byte (st, outbuf) c) = (fst ?step, outbuf @ snd ?step)"
    proof (cases "uchar c < 128")
      case True
      then show ?thesis using low by (simp add: parse_byte_def Let_def)
    next
      case high_c: False
      then show ?thesis
        using high "2.prems" by (simp add: parse_byte_def parse_char_high parse_bytes_high)
    qed
    moreover have "parser_loop utf_next (fst ?step) (drop ?n cs) (outbuf @ snd ?step)
        = parse_bytes (cstr (drop ?n cs)) (fst ?step, outbuf @ snd ?step)"
      using "2.IH" [OF False refl refl] parse_char_ok "2.prems" by blast
    ultimately show ?thesis
      using False by (simp add: Let_def cstr_take_drop [OF no])
  qed simp
qed simp

section \<open>Templates\<close>

text \<open>The abstract view of a template: static text, code sections and echo sections, how they are
  written in the file and the script they stand for.\<close>

datatype segment = Text bytes | Code bytes | Echo bytes

fun render :: "segment \<Rightarrow> bytes" where
  "render (Text t) = t"
| "render (Code t) = START_TAG @ t @ END_TAG"
| "render (Echo t) = START_TAG @ ''='' @ t @ END_TAG"

definition quote_text :: "bytes \<Rightarrow> bytes" where
  "quote_text t = concat (map (\<lambda>c. quote_char [c]) t)"

definition close_string :: bytes where "close_string = [DQ, LF]"
definition open_string :: bytes where "open_string = LF # ''puts -nonewline '' @ [DQ]"

fun script_of :: "segment \<Rightarrow> bytes" where
  "script_of (Text t) = quote_text t"
| "script_of (Code t) = close_string @ t @ open_string"
| "script_of (Echo t) = close_string @ (LF # ''puts -nonewline '') @ t @ open_string"

definition tag_free :: "bytes \<Rightarrow> bytes \<Rightarrow> bool" where
  "tag_free tag t \<longleftrightarrow> NUL \<notin> set t \<and> \<not> sublist tag t \<and> (t = [] \<or> last t \<noteq> hd tag)"

fun segment_ok :: "segment \<Rightarrow> bool" where
  "segment_ok (Text t) = tag_free START_TAG t"
| "segment_ok (Code t) = (tag_free END_TAG t \<and> (t = [] \<or> hd t \<noteq> CHR ''=''))"
| "segment_ok (Echo t) = tag_free END_TAG t"

definition outside :: "nat \<Rightarrow> parser_state" where
  "outside n = \<lparr> inside = False, p = n, check_echo = False \<rparr>"

definition within :: "nat \<Rightarrow> bool \<Rightarrow> parser_state" where
  "within n e = \<lparr> inside = True, p = n, check_echo = e \<rparr>"

lemma parse_byte_outside:
  "parse_byte (outside 0, outbuf) c =
     (if c = CHR ''<'' then (outside (Suc 0), outbuf) else (outside 0, outbuf @ quote_char [c]))"
  "parse_byte (outside (Suc 0), outbuf) c =
     (if c = CHR ''?'' then (within 0 True, outbuf @ close_string)
      else (outside 0, outbuf @ ''<'' @ quote_char [c]))"
  by (simp_all add: parse_byte_def parse_char_def outside_def within_def close_string_def)

lemma parse_byte_within:
  "\<not> e \<or> c \<noteq> CHR ''='' \<Longrightarrow> parse_byte (within 0 e, outbuf) c =
     (if c = CHR ''?'' then (within (Suc 0) False, outbuf) else (within 0 False, outbuf @ [c]))"
  "parse_byte (within (Suc 0) False, outbuf) c =
     (if c = CHR ''>'' then (outside 0, outbuf @ open_string)
      else (within 0 False, outbuf @ ''?'' @ [c]))"
  "parse_byte (within 0 True, outbuf) (CHR ''='') =
     (within 0 False, outbuf @ LF # ''puts -nonewline '')"
  by (simp_all add: parse_byte_def parse_char_def outside_def within_def open_string_def)

lemma quote_text_simps [simp]:
  "quote_text [] = []" "quote_text (c # t) = quote_char [c] @ quote_text t"
  by (simp_all add: quote_text_def)

lemma quote_lt [simp]: "quote_char ''<'' = ''<''"
  by (simp add: quote_char_def)

lemma sublist_two: "sublist [a, b] (c # t) \<longleftrightarrow> c = a \<and> t \<noteq> [] \<and> hd t = b \<or> sublist [a, b] t"
  by (cases t) (auto simp: sublist_Cons_right)

text \<open>Static text without an opening tag is copied with its quotation; one \<open><\<close> may be pending.\<close>

lemma parse_text:
  assumes "\<not> sublist START_TAG t" "t = [] \<or> last t \<noteq> CHR ''<''"
  shows "parse_bytes t (outside 0, outbuf) = (outside 0, outbuf @ quote_text t)
    \<and> (t \<noteq> [] \<longrightarrow> hd t \<noteq> CHR ''?'' \<longrightarrow>
        parse_bytes t (outside (Suc 0), outbuf) = (outside 0, outbuf @ ''<'' @ quote_text t))"
  using assms
proof (induction t arbitrary: outbuf)
  case (Cons c t)
  then have t: "\<not> sublist START_TAG t" "t = [] \<or> last t \<noteq> CHR ''<''"
    and c: "c = CHR ''<'' \<Longrightarrow> t \<noteq> [] \<and> hd t \<noteq> CHR ''?''"
    by (auto simp: START_TAG_def sublist_two split: if_splits)
  note IH = Cons.IH [OF t]
  show ?case
    using IH c by (auto simp: parse_byte_outside)
qed simp

lemma parse_code:
  assumes "\<not> sublist END_TAG t" "t = [] \<or> last t \<noteq> CHR ''?''"
  shows "parse_bytes t (within 0 False, outbuf) = (within 0 False, outbuf @ t)
    \<and> (t \<noteq> [] \<longrightarrow> hd t \<noteq> CHR ''>'' \<longrightarrow>
        parse_bytes t (within (Suc 0) False, outbuf) = (within 0 False, outbuf @ ''?'' @ t))"
  using assms
proof (induction t arbitrary: outbuf)
  case (Cons c t)
  then have t: "\<not> sublist END_TAG t" "t = [] \<or> last t \<noteq> CHR ''?''"
    and c: "c = CHR ''?'' \<Longrightarrow> t \<noteq> [] \<and> hd t \<noteq> CHR ''>''"
    by (auto simp: END_TAG_def sublist_two split: if_splits)
  note IH = Cons.IH [OF t]
  show ?case
    using IH c by (auto simp: parse_byte_within)
qed simp

lemma parse_code_first:
  assumes "\<not> sublist END_TAG t" "t = [] \<or> last t \<noteq> CHR ''?''" "t = [] \<or> hd t \<noteq> CHR ''=''"
  shows "parse_bytes (t @ END_TAG) (within 0 True, outbuf) = (outside 0, outbuf @ t @ open_string)"
proof (cases t)
  case Nil
  then show ?thesis by (simp add: END_TAG_def parse_byte_within)
next
  case (Cons c u)
  have "parse_byte (within 0 True, outbuf) c = parse_byte (within 0 False, outbuf) c"
    using assms(3) Cons by (simp add: parse_byte_within)
  then have "parse_bytes t (within 0 True, outbuf) = (within 0 False, outbuf @ t)"
    using parse_code [OF assms(1,2), of outbuf] Cons by simp
  then show ?thesis by (simp add: END_TAG_def parse_byte_within)
qed

lemma parse_segment:
  "segment_ok seg \<Longrightarrow>
   parse_bytes (render seg) (outside 0, outbuf) = (outside 0, outbuf @ script_of seg)"
proof (cases seg)
  case (Text t)
  assume "segment_ok seg"
  then show ?thesis using parse_text [of t outbuf] Text by (simp add: tag_free_def START_TAG_def)
next
  case (Code t)
  assume "segment_ok seg"
  then show ?thesis
    using parse_code_first [of t "outbuf @ close_string"] Code
    by (simp add: tag_free_def START_TAG_def parse_byte_outside END_TAG_def)
next
  case (Echo t)
  assume "segment_ok seg"
  then show ?thesis
    using parse_code [of t "outbuf @ close_string @ LF # ''puts -nonewline ''"] Echo
    by (simp add: tag_free_def START_TAG_def parse_byte_outside END_TAG_def parse_byte_within)
qed

lemma parse_segments:
  "list_all segment_ok segs \<Longrightarrow>
   parse_bytes (concat (map render segs)) (outside 0, outbuf)
     = (outside 0, outbuf @ concat (map script_of segs))"
  by (induction segs arbitrary: outbuf) (simp_all add: parse_segment)

lemma render_no_NUL: "list_all segment_ok segs \<Longrightarrow> NUL \<notin> set (concat (map render segs))"
proof (induction segs)
  case (Cons seg segs)
  then show ?case by (cases seg) (auto simp: tag_free_def START_TAG_def END_TAG_def)
qed simp

lemma Rivet_Parser_segments:
  assumes "utf8_steps utf_next" "list_all segment_ok segs"
  shows "Rivet_Parser utf_next outbuf (concat (map render segs))
    = (False, outbuf @ concat (map script_of segs))"
proof (cases "concat (map render segs) = []")
  case True
  then have "parse_bytes (concat (map render segs)) (outside 0, outbuf) = (outside 0, outbuf)"
    by (simp only: parse_bytes_simps)
  then have "concat (map script_of segs) = []"
    using parse_segments [OF assms(2), of outbuf] by simp
  then show ?thesis using True by (simp add: Rivet_Parser_def)
next
  case False
  have "parser_loop utf_next parser_init (concat (map render segs)) outbuf
      = parse_bytes (concat (map render segs)) (outside 0, outbuf)"
    using parser_loop_bytes [OF assms(1), of parser_init]
    by (simp add: parser_ok_def parser_init_def outside_def cstr_id [OF render_no_NUL [OF assms(2)]])
  then have "parser_loop utf_next parser_init (concat (map render segs)) outbuf
      = (outside 0, outbuf @ concat (map script_of segs))"
    by (simp only: parse_segments [OF assms(2)])
  then show ?thesis
    using False by (simp only: Rivet_Parser_def length_0_conv if_False Let_def fst_conv snd_conv)
      (simp add: outside_def)
qed

section \<open>Reading the emitted string\<close>

text \<open>How Tcl reads a double-quoted word: a backslash takes the next byte as it is (the parser
  only emits it before \<open>{ } $ [ ] " \<close> and itself), an unquoted dollar sign or bracket would start a
  substitution (no literal reading), a double quote ends the word.\<close>

fun tcl_quoted_word :: "bytes \<Rightarrow> (bytes \<times> bytes) option" where
  "tcl_quoted_word [] = None"
| "tcl_quoted_word (c # cs) =
     (if c = DQ then Some ([], cs)
      else if c = CHR ''$'' \<or> c = CHR ''['' then None
      else if c = BSL then
        (case cs of [] \<Rightarrow> None | d # ds \<Rightarrow> map_option (\<lambda>(w, r). (d # w, r)) (tcl_quoted_word ds))
      else map_option (\<lambda>(w, r). (c # w, r)) (tcl_quoted_word cs))"

lemma quote_char_read:
  "tcl_quoted_word (quote_char [c] @ rest) = map_option (\<lambda>(w, r). (c # w, r)) (tcl_quoted_word rest)"
  by (simp add: quote_char_def)

lemma quote_text_read: "tcl_quoted_word (quote_text t @ DQ # rest) = Some (t, rest)"
  by (induction t) (simp_all add: quote_char_read)

section \<open>Properties\<close>

text \<open>C3: a file that is the rendering of a list of well-formed segments (static text without an
  opening tag, code and echo sections without a closing one) is translated into exactly the
  script of the segments, whatever way \<open>Tcl_UtfNext\<close> divides the bytes into characters.\<close>

theorem GetRivetFile_segments:
  assumes "utf8_steps (Tcl_UtfNext io)"
    and "Tcl_OpenFileChannel io filename = Some chan"
    and "Tcl_ReadChars io chan = Some (concat (map render segs))"
    and "list_all segment_ok segs"
  shows "Rivet_GetRivetFile io filename [] =
    (''puts -nonewline '' @ [DQ] @ concat (map script_of segs) @ [DQ, LF], Ret ())"
  using assms
  by (simp add: Rivet_GetRivetFile_def Rivet_GetRivetFileEncoding_def Rivet_Parser_segments)

definition demo_io :: "bytes \<Rightarrow> nat tcl_io" where
  "demo_io text = \<lparr> Tcl_OpenFileChannel = \<lambda>f. if f = ''index.rvt'' then Some 1 else None,
     Tcl_SetChannelOption = \<lambda>c opt v. Some c, Tcl_ReadChars = \<lambda>c. Some text,
     Tcl_Close = \<lambda>c. True, Tcl_PosixError = ''no such file'', Tcl_UtfNext = \<lambda>s. 0 \<rparr>"

lemma GetRivetFile_segments_witness:
  "Rivet_GetRivetFile (demo_io (concat (map render [Text ''a$'', Echo ''$x'', Code ''incr x'', Text ''<p>''])))
      ''index.rvt'' [] =
    (''puts -nonewline '' @ [DQ]
      @ concat (map script_of [Text ''a$'', Echo ''$x'', Code ''incr x'', Text ''<p>'']) @ [DQ, LF], Ret ())"
  by (rule GetRivetFile_segments [where chan = 1])
    (simp_all add: demo_io_def utf8_steps_def tag_free_def START_TAG_def END_TAG_def sublist_two)

text \<open>A page of static text becomes one \<open>puts\<close> command whose double-quoted word reads back, by
  the rules of Tcl, as the page: nothing in the text is substituted and nothing ends the word
  early.\<close>

lemma static_page_puts:
  assumes "utf8_steps utf_next" "tag_free START_TAG t"
  shows "\<exists>word. Rivet_Parser utf_next (''puts -nonewline '' @ [DQ]) t
      = (False, ''puts -nonewline '' @ [DQ] @ word)
    \<and> tcl_quoted_word (word @ [DQ, LF]) = Some (t, [LF])"
proof -
  have "Rivet_Parser utf_next (''puts -nonewline '' @ [DQ]) (concat (map render [Text t]))
      = (False, (''puts -nonewline '' @ [DQ]) @ concat (map script_of [Text t]))"
    by (rule Rivet_Parser_segments) (use assms in simp_all)
  then show ?thesis using quote_text_read [of t "[LF]"] by simp
qed

lemma static_page_puts_witness:
  "\<exists>word. Rivet_Parser (\<lambda>s. 0) (''puts -nonewline '' @ [DQ]) (''1 < $2 [x] '' @ [DQ, BSL])
      = (False, ''puts -nonewline '' @ [DQ] @ word)
    \<and> tcl_quoted_word (word @ [DQ, LF]) = Some (''1 < $2 [x] '' @ [DQ, BSL], [LF])"
  by (rule static_page_puts)
    (simp_all add: utf8_steps_def tag_free_def START_TAG_def sublist_two)

text \<open>C29: the parser, which advances by characters, computes the same as reading the text byte by
  byte, and ends in a state whose partial match counter is inside the tags.\<close>

theorem Rivet_Parser_bytewise:
  assumes "utf8_steps utf_next"
  shows "Rivet_Parser utf_next outbuf inbuf = Rivet_Parser (\<lambda>s. 0) outbuf inbuf
    \<and> p (fst (parser_loop utf_next parser_init inbuf outbuf)) < 2"
proof -
  have z: "utf8_steps (\<lambda>s. 0)" by (simp add: utf8_steps_def)
  have i: "parser_ok parser_init" by (simp add: parser_ok_def parser_init_def)
  have "parser_ok so \<Longrightarrow> parser_ok (fst (parse_bytes s (so, o')))" for s so o'
    by (induction s arbitrary: so o') (simp_all add: parse_byte_def Let_def parse_char_ok)
  then have "parser_ok (fst (parse_bytes (cstr inbuf) (parser_init, outbuf)))" using i by blast
  then show ?thesis
    using parser_loop_bytes [OF assms i] parser_loop_bytes [OF z i]
    by (simp add: Rivet_Parser_def parser_ok_def)
qed

lemma Rivet_Parser_bytewise_witness:
  "Rivet_Parser (\<lambda>s. if take 2 s = [CHR 0xC3, CHR 0xA8] then 1 else 0) [] [CHR 0xC3, CHR 0xA8, CHR ''<'', CHR ''?'']
      = Rivet_Parser (\<lambda>s. 0) [] [CHR 0xC3, CHR 0xA8, CHR ''<'', CHR ''?'']
    \<and> p (fst (parser_loop (\<lambda>s. if take 2 s = [CHR 0xC3, CHR 0xA8] then 1 else 0) parser_init
          [CHR 0xC3, CHR 0xA8, CHR ''<'', CHR ''?''] [])) < 2"
  by (rule Rivet_Parser_bytewise) (auto simp: utf8_steps_def uchar_def take_Cons split: nat.splits list.splits)

text \<open>After a mismatch the byte that broke a partial match is not tried as the first byte of a new
  match: a tag directly behind a less-than sign is static text, a closing tag behind a question
  mark is not seen, and a less-than sign at the end of the file is dropped.\<close>

lemma tag_after_less_than:
  "Rivet_Parser (\<lambda>s. 0) [] ''<<?x?>'' = (False, ''<<?x?>'')"
  "Rivet_Parser (\<lambda>s. 0) [] ''<?x??>'' = (True, [DQ, LF] @ ''x??>'')"
  "Rivet_Parser (\<lambda>s. 0) [] ''a<'' = (False, ''a'')"
  by (simp_all add: Rivet_Parser_def parser_init_def parse_char_def quote_char_def)

end
