(* ===== verification/Rivet_Types.thy ===== *)
theory Rivet_Types
  imports Rivet_Prelude
begin

unbundle bit_operations_syntax

text \<open>
  The data of src/src/mod_rivet_ng/mod_rivet.h and src/src/rivet.h that several components share:
  the server configuration record, the scripts of an interpreter, the interpreter object with its
  script cache, the status bits. A \<open>char*\<close> that may be NULL is an option; a Tcl script object is
  its text; the Tcl interpreter and channel behind an object are numbers, because the module only
  passes them on.
\<close>

section \<open>Configuration\<close>

definition USER_SCRIPTS_UPDATED :: "32 word" where "USER_SCRIPTS_UPDATED = 1"
definition USER_SCRIPTS_CONF :: "32 word" where "USER_SCRIPTS_CONF = push_bit 1 1"
definition USER_SCRIPTS_MERGED :: "32 word" where "USER_SCRIPTS_MERGED = push_bit 2 1"

text \<open>The entries of an APR table, in the order of its array; the value pointer of a configuration
  table may be NULL.\<close>

type_synonym 'v apr_table = "(bytes \<times> 'v) list"

record rivet_server_conf =
  rivet_global_init_script :: "bytes option"
  rivet_child_init_script :: "bytes option"
  rivet_child_exit_script :: "bytes option"
  request_handler :: "bytes option"
  rivet_error_script :: "bytes option"
  rivet_abort_script :: "bytes option"
  after_every_script :: "bytes option"
  rivet_before_script :: "bytes option"
  rivet_after_script :: "bytes option"
  user_scripts_status :: "32 word"
  default_cache_size :: int
  upload_max :: int
  upload_files_to_var :: int
  honor_head_requests :: int
  export_rivet_ns :: int
  import_rivet_ns :: int
  server_name :: "bytes option"
  upload_dir :: "bytes option"
  rivet_server_vars :: "bytes option apr_table option"
  rivet_dir_vars :: "bytes option apr_table option"
  rivet_user_vars :: "bytes option apr_table option"
  idx :: int
  path :: "bytes option"

text \<open>A zeroed record, as \<open>RIVET_NEW_CONF\<close> allocates it.\<close>

definition RIVET_NEW_CONF :: rivet_server_conf where
  "RIVET_NEW_CONF = \<lparr> rivet_global_init_script = None, rivet_child_init_script = None,
     rivet_child_exit_script = None, request_handler = None, rivet_error_script = None,
     rivet_abort_script = None, after_every_script = None, rivet_before_script = None,
     rivet_after_script = None, user_scripts_status = 0, default_cache_size = 0, upload_max = 0,
     upload_files_to_var = 0, honor_head_requests = 0, export_rivet_ns = 0, import_rivet_ns = 0,
     server_name = None, upload_dir = None, rivet_server_vars = None, rivet_dir_vars = None,
     rivet_user_vars = None, idx = 0, path = None \<rparr>"

text \<open>What the module reads of httpd's \<open>server_rec\<close>; \<open>module_config\<close> is the record of the module.\<close>

record server_rec =
  server_hostname :: "bytes option"
  error_fname :: "bytes option"
  server_admin :: "bytes option"
  server_path :: "bytes option"
  is_virtual :: int
  log_level :: int
  module_config :: rivet_server_conf

definition IS_USER_CONF :: "rivet_server_conf \<Rightarrow> bool" where
  "IS_USER_CONF mc \<longleftrightarrow> user_scripts_status mc AND USER_SCRIPTS_CONF \<noteq> 0"

definition USER_CONF_UPDATED :: "rivet_server_conf \<Rightarrow> bool" where
  "USER_CONF_UPDATED mc \<longleftrightarrow> user_scripts_status mc AND USER_SCRIPTS_UPDATED \<noteq> 0"

definition USER_CONF_MERGED :: "rivet_server_conf \<Rightarrow> bool" where
  "USER_CONF_MERGED mc \<longleftrightarrow> user_scripts_status mc AND USER_SCRIPTS_MERGED \<noteq> 0"

text \<open>\<open>RIVET_CONF_SELECT\<close> on a pointer field and on an \<open>int\<close> field.\<close>

definition select_ptr :: "'a option \<Rightarrow> 'a option \<Rightarrow> 'a option" where
  "select_ptr base overlay = (if overlay \<noteq> None then overlay else base)"

definition select_int :: "int \<Rightarrow> int \<Rightarrow> int" where
  "select_int base overlay = (if overlay \<noteq> 0 then overlay else base)"

text \<open>The fields of \<open>mod_rivet_globals\<close> the configuration directives write.\<close>

record mod_rivet_globals =
  rivet_server_init_script :: "bytes option"
  mpm_bridge :: "bytes option"
  single_thread_exit :: int
  separate_virtual_interps :: int
  separate_channels :: int

section \<open>Interpreters\<close>

definition RIVET_CACHE_FULL :: "32 word" where "RIVET_CACHE_FULL = 1"
definition RIVET_INTERP_INITIALIZED :: "32 word" where "RIVET_INTERP_INITIALIZED = 2"

text \<open>The fields of \<open>running_scripts\<close> carry the suffix \<open>_obj\<close>: the configuration record has
  fields of the same names.\<close>

record running_scripts =
  request_processing :: "bytes option"
  rivet_before_script_obj :: "bytes option"
  rivet_after_script_obj :: "bytes option"
  rivet_error_script_obj :: "bytes option"
  rivet_abort_script_obj :: "bytes option"
  after_every_script_obj :: "bytes option"

definition no_scripts :: running_scripts where
  "no_scripts = \<lparr> request_processing = None, rivet_before_script_obj = None,
     rivet_after_script_obj = None, rivet_error_script_obj = None, rivet_abort_script_obj = None,
     after_every_script_obj = None \<rparr>"

text \<open>The script cache of an interpreter: \<open>objCache\<close> is the hash table (\<open>None\<close> where it was never
  created, an entry without a value where \<open>Tcl_CreateHashEntry\<close> made it and no value was set),
  \<open>objCacheList\<close> the array of keys, filled from its end.\<close>

record rivet_thread_interp =
  interp :: nat
  channel :: "nat option"
  cache_size :: int
  cache_free :: int
  objCache :: "(bytes \<Rightarrow> bytes option option) option"
  objCacheList :: "bytes option list"
  scripts :: running_scripts
  per_dir_scripts :: "bytes \<Rightarrow> running_scripts option"
  flags :: "32 word"

section \<open>Content types\<close>

definition RIVET_TEMPLATE_CTYPE :: bytes where "RIVET_TEMPLATE_CTYPE = ''application/x-httpd-rivet''"
definition RIVET_TCLFILE_CTYPE :: bytes where "RIVET_TCLFILE_CTYPE = ''application/x-rivet-tcl''"

datatype rivet_req_ctype = CTYPE_NOT_HANDLED | RIVET_TEMPLATE | RIVET_TCLFILE

definition VAR_SRC_QUERYSTRING :: int where "VAR_SRC_QUERYSTRING = 1"
definition VAR_SRC_POST :: int where "VAR_SRC_POST = 2"
definition VAR_SRC_ALL :: int where "VAR_SRC_ALL = 3"

end
