(* ===== verification/Rivet_Cache.thy ===== *)
theory Rivet_Cache
  imports Rivet_Types
begin

text \<open>
  src/src/mod_rivet_ng/mod_rivet_cache.c: the per interpreter cache of compiled scripts, a hash
  table and an array of its keys that is filled from the end. \<open>cache_ok\<close> is the invariant that ties
  the two together; the locale \<open>script_cache\<close> is the contract the commands \<open>parse\<close> and
  \<open>url_script\<close> rely on, interpreted on the operations of the source.
\<close>

section \<open>The source routines\<close>

definition RIVET_CACHE_SIZE_MINIMUM :: int where "RIVET_CACHE_SIZE_MINIMUM = 50"

definition RivetCache_DefaultSize :: "int \<Rightarrow> int" where
  "RivetCache_DefaultSize ap_max_requests_per_child =
     (if ap_max_requests_per_child \<noteq> 0
      then max RIVET_CACHE_SIZE_MINIMUM (c_div ap_max_requests_per_child 5)
      else RIVET_CACHE_SIZE_MINIMUM)"

definition RivetCache_Create :: "rivet_thread_interp \<Rightarrow> rivet_thread_interp" where
  "RivetCache_Create interp_obj =
     interp_obj\<lparr>objCacheList := replicate (nat (cache_size interp_obj)) None,
       objCache := Some Map.empty\<rparr>"

text \<open>The clean-up loop: \<open>ct\<close> runs over the used part of the key array. A NULL key or a missing
  table would be dereferenced by \<open>Tcl_FindHashEntry\<close>.\<close>

function cleanup_loop :: "int \<Rightarrow> rivet_thread_interp \<Rightarrow> rivet_thread_interp outcome" where
  "cleanup_loop ct ri =
     (if ct < cache_size ri then
        if ct < 0 \<or> nat ct \<ge> length (objCacheList ri) then Fault OutOfBounds
        else (case (objCache ri, objCacheList ri ! nat ct) of
           (Some table, Some key) \<Rightarrow>
             cleanup_loop (ct + 1)
               (if table key \<noteq> None
                then ri\<lparr>objCache := Some (table(key := None)),
                        objCacheList := (objCacheList ri)[nat ct := None]\<rparr>
                else ri)
         | _ \<Rightarrow> Fault NullDeref)
      else Ret ri)"
  by pat_completeness auto
termination by (relation "measure (\<lambda>(ct, ri). nat (cache_size ri - ct))") (auto split: if_splits)

declare cleanup_loop.simps [simp del]

text \<open>\<open>pool_created\<close> is the success of \<open>apr_pool_create\<close>.\<close>

definition RivetCache_Cleanup :: "bool \<Rightarrow> rivet_thread_interp \<Rightarrow> rivet_thread_interp outcome" where
  "RivetCache_Cleanup pool_created ri =
     bindO (cleanup_loop (cache_free ri) ri)
       (\<lambda>ri. Ret (if \<not> pool_created then ri\<lparr>cache_free := 0, cache_size := 0\<rparr>
                  else ri\<lparr>objCacheList := replicate (nat (cache_size ri)) None,
                          cache_free := cache_size ri\<rparr>))"

definition RivetCache_MakeKey :: "bytes \<Rightarrow> int \<Rightarrow> int \<Rightarrow> bool \<Rightarrow> int \<Rightarrow> bytes" where
  "RivetCache_MakeKey filename ctime mtime user_conf toplevel =
     cstr filename @ printf_lx mtime @ printf_lx ctime @ printf_d toplevel @ ''-''
       @ printf_d (if user_conf then 1 else 0)"

definition RivetCache_EntryLookup :: "rivet_thread_interp \<Rightarrow> bytes \<Rightarrow> bytes option option outcome" where
  "RivetCache_EntryLookup ri hashKey =
     (case objCache ri of None \<Rightarrow> Fault NullDeref | Some table \<Rightarrow> Ret (table hashKey))"

text \<open>The result is \<open>isNew\<close>; the value of a new entry is NULL.\<close>

definition RivetCache_CreateEntry ::
    "rivet_thread_interp \<Rightarrow> bytes \<Rightarrow> (rivet_thread_interp \<times> bool) outcome" where
  "RivetCache_CreateEntry ri hashKey =
     (case objCache ri of
        None \<Rightarrow> Fault NullDeref
      | Some table \<Rightarrow>
          (if table hashKey = None then Ret (ri\<lparr>objCache := Some (table(hashKey \<mapsto> None))\<rparr>, True)
           else Ret (ri, False)))"

definition RivetCache_FetchScript :: "bytes option \<Rightarrow> bytes outcome" where
  "RivetCache_FetchScript entry = (case entry of None \<Rightarrow> Fault NullDeref | Some script \<Rightarrow> Ret script)"

definition RivetCache_StoreScript ::
    "rivet_thread_interp \<Rightarrow> bytes \<Rightarrow> bytes \<Rightarrow> (rivet_thread_interp \<times> int) outcome" where
  "RivetCache_StoreScript ri key script =
     (if cache_size ri \<noteq> 0 then
        if cache_free ri \<noteq> 0 then
          (case objCache ri of
             None \<Rightarrow> Fault NullDeref
           | Some table \<Rightarrow>
               let free = cache_free ri - 1 in
               if free < 0 \<or> nat free \<ge> length (objCacheList ri) then Fault OutOfBounds
               else Ret (ri\<lparr>objCache := Some (table(key \<mapsto> Some script)), cache_free := free,
                            objCacheList := (objCacheList ri)[nat free := Some key]\<rparr>, 0))
        else Ret (ri, 1)
      else Ret (ri, 0))"

definition RivetCache_DeleteEntry :: "rivet_thread_interp \<Rightarrow> bytes \<Rightarrow> rivet_thread_interp outcome" where
  "RivetCache_DeleteEntry ri key =
     (case objCache ri of
        None \<Rightarrow> Fault NullDeref
      | Some table \<Rightarrow> Ret (ri\<lparr>objCache := Some (table(key := None))\<rparr>))"

text \<open>\<open>Rivet_NewVHostInterp\<close> of mod_rivet_common.c, which sets up the cache of a new interpreter.
  \<open>new_interp\<close> is the Tcl interpreter; the memory of the record starts zeroed.\<close>

definition zeroed_interp :: "nat \<Rightarrow> rivet_thread_interp" where
  "zeroed_interp new_interp = \<lparr> interp = new_interp, channel = None, cache_size = 0, cache_free = 0,
     objCache = None, objCacheList = [], scripts = no_scripts, per_dir_scripts = Map.empty,
     flags = 0 \<rparr>"

definition Rivet_NewVHostInterp ::
    "bool \<Rightarrow> int \<Rightarrow> nat \<Rightarrow> int \<Rightarrow> rivet_thread_interp option" where
  "Rivet_NewVHostInterp pool_created max_requests new_interp dflt_cache_size =
     (if \<not> pool_created then None
      else
        let interp_obj = zeroed_interp new_interp;
            size =
              (if dflt_cache_size < 0 then RivetCache_DefaultSize max_requests
               else if dflt_cache_size > 0 then dflt_cache_size
               else cache_size interp_obj);
            interp_obj = interp_obj\<lparr>cache_size := size, cache_free := size\<rparr>;
            interp_obj = (if cache_size interp_obj \<noteq> 0 then RivetCache_Create interp_obj else interp_obj)
        in Some (interp_obj\<lparr>flags := 0, scripts := no_scripts, per_dir_scripts := Map.empty\<rparr>))"

text \<open>\<open>Rivet_CacheContent\<close> of rivetCore.c lists the keys from the end of the array down to the first
  empty slot.\<close>

function cache_content_loop :: "int \<Rightarrow> bytes option list \<Rightarrow> bytes list outcome" where
  "cache_content_loop ep keys =
     (if ep \<ge> 0 then
        if nat ep \<ge> length keys then Fault OutOfBounds
        else (case keys ! nat ep of
                None \<Rightarrow> Ret []
              | Some key \<Rightarrow> bindO (cache_content_loop (ep - 1) keys) (\<lambda>l. Ret (key # l)))
      else Ret [])"
  by pat_completeness auto
termination by (relation "measure (\<lambda>(ep, _). nat (ep + 1))") auto

declare cache_content_loop.simps [simp del]

definition Rivet_CacheContent :: "rivet_thread_interp \<Rightarrow> tobj outcome" where
  "Rivet_CacheContent ri =
     bindO (cache_content_loop (cache_size ri - 1) (objCacheList ri)) (\<lambda>l. Ret (TList l))"

text \<open>What \<open>Rivet_Parse\<close> and \<open>Rivet_UrlScript\<close> of rivetCore.c do with a script that was not in the
  cache: it gets an entry while there is room, otherwise the interpreter is marked once.\<close>

definition cache_new_script ::
    "rivet_thread_interp \<Rightarrow> bytes \<Rightarrow> bytes \<Rightarrow> rivet_thread_interp outcome" where
  "cache_new_script ri cache_key script =
     (if cache_free ri > 0 then
        bindO (RivetCache_CreateEntry ri cache_key)
          (\<lambda>(ri, isNew).
             if \<not> isNew then Fault AssertFailed
             else bindO (RivetCache_StoreScript ri cache_key script) (\<lambda>(ri, _). Ret ri))
      else if flags ri AND RIVET_CACHE_FULL = 0 then Ret (ri\<lparr>flags := flags ri OR RIVET_CACHE_FULL\<rparr>)
      else Ret ri)"

section \<open>The invariant\<close>

text \<open>\<open>cache_rep ri keys table\<close>: the array holds \<open>keys\<close> behind \<open>cache_free\<close> empty slots, and the
  table has exactly these keys, each with a script.\<close>

definition cache_rep ::
    "rivet_thread_interp \<Rightarrow> bytes list \<Rightarrow> (bytes \<Rightarrow> bytes option option) \<Rightarrow> bool" where
  "cache_rep ri keys table \<longleftrightarrow>
     0 \<le> cache_free ri \<and> cache_size ri = cache_free ri + int (length keys)
     \<and> objCacheList ri = replicate (nat (cache_free ri)) None @ map Some keys
     \<and> objCache ri = Some table \<and> dom table = set keys \<and> distinct keys \<and> None \<notin> ran table"

definition cache_ok :: "rivet_thread_interp \<Rightarrow> bool" where
  "cache_ok ri \<longleftrightarrow> (\<exists>keys table. cache_rep ri keys table)"

text \<open>The abstract value of a cache: the scripts under their keys.\<close>

definition cache_map :: "rivet_thread_interp \<Rightarrow> bytes \<Rightarrow> bytes option" where
  "cache_map ri key = (case objCache ri of None \<Rightarrow> None | Some table \<Rightarrow> Option.bind (table key) id)"

lemma cache_rep_lookup:
  "cache_rep ri keys table \<Longrightarrow> table key = map_option Some (cache_map ri key)"
proof (cases "table key")
  case (Some v)
  moreover assume "cache_rep ri keys table"
  ultimately show ?thesis by (cases v) (auto simp: cache_rep_def cache_map_def ran_def)
qed (simp add: cache_rep_def cache_map_def)

lemma dom_cache_map: "cache_rep ri keys table \<Longrightarrow> dom (cache_map ri) = set keys"
  using cache_rep_lookup [of ri keys table] by (auto simp: cache_rep_def dom_def)

lemma store_slot:
  "0 < n \<Longrightarrow> (replicate n None @ map Some keys)[n - Suc 0 := Some key]
     = replicate (n - Suc 0) None @ map Some (key # keys)"
proof -
  assume "0 < n"
  then obtain m where m: "n = Suc m" by (cases n) auto
  have "replicate n None @ map Some keys = replicate m None @ None # map Some keys"
    by (simp add: m replicate_app_Cons_same)
  then show ?thesis
    using list_update_length [of "replicate m None" None "map Some keys" "Some key"] by (simp add: m)
qed

lemma cache_new_script_room:
  assumes rep: "cache_rep ri keys table" and new: "cache_map ri key = None" and room: "cache_free ri > 0"
  shows "\<exists>ri'. cache_new_script ri key script = Ret ri'
    \<and> cache_rep ri' (key # keys) (table(key \<mapsto> Some script))
    \<and> cache_map ri' = (cache_map ri)(key \<mapsto> script)
    \<and> cache_free ri' = cache_free ri - 1 \<and> cache_size ri' = cache_size ri \<and> flags ri' = flags ri"
proof -
  have key: "table key = None" "key \<notin> set keys"
    using cache_rep_lookup [OF rep, of key] new rep by (auto simp: cache_rep_def)
  have free: "nat (cache_free ri - 1) = nat (cache_free ri) - Suc 0" "0 < nat (cache_free ri)"
    using room by linarith+
  have slot: "(objCacheList ri)[nat (cache_free ri - 1) := Some key]
      = replicate (nat (cache_free ri - 1)) None @ map Some (key # keys)"
    using rep store_slot [OF free(2), of keys key] by (simp add: cache_rep_def free(1))
  have len: "length (objCacheList ri) = nat (cache_free ri) + length keys"
    using rep by (simp add: cache_rep_def)
  let ?ri = "ri\<lparr>objCache := Some (table(key \<mapsto> Some script)), cache_free := cache_free ri - 1,
    objCacheList := (objCacheList ri)[nat (cache_free ri - 1) := Some key]\<rparr>"
  have "cache_new_script ri key script = Ret ?ri"
    using rep room key free len
    by (auto simp: cache_new_script_def RivetCache_CreateEntry_def RivetCache_StoreScript_def
        cache_rep_def Let_def)
  moreover have "cache_rep ?ri (key # keys) (table(key \<mapsto> Some script))"
    using rep room key slot by (auto simp: cache_rep_def ran_def)
  moreover have "cache_map ?ri = (cache_map ri)(key \<mapsto> script)"
    using rep by (auto simp: cache_map_def cache_rep_def)
  ultimately show ?thesis by force
qed

lemma cache_new_script_full:
  "cache_rep ri keys table \<Longrightarrow> \<not> cache_free ri > 0 \<Longrightarrow>
   \<exists>ri'. cache_new_script ri key script = Ret ri' \<and> cache_rep ri' keys table
     \<and> cache_map ri' = cache_map ri \<and> cache_free ri' = cache_free ri \<and> cache_size ri' = cache_size ri"
  by (auto simp: cache_new_script_def cache_rep_def cache_map_def)

lemma cleanup_loop_result:
  assumes "objCache ri = Some table" "objCacheList ri = pre @ map Some keys" "length pre = nat ct" "0 \<le> ct"
    "cache_size ri = ct + int (length keys)" "distinct keys" "set keys \<subseteq> dom table"
  shows "cleanup_loop ct ri = Ret (ri\<lparr>objCache := Some (table |` (- set keys)),
    objCacheList := pre @ replicate (length keys) None\<rparr>)"
  using assms
proof (induction keys arbitrary: ri ct pre table)
  case Nil
  then have "ri\<lparr>objCache := Some table, objCacheList := pre\<rparr> = ri" by (cases ri) simp
  with Nil show ?case by (subst cleanup_loop.simps) (simp add: restrict_map_def)
next
  case (Cons key keys)
  let ?ri = "ri\<lparr>objCache := Some (table(key := None)), objCacheList := (objCacheList ri)[nat ct := None]\<rparr>"
  have list: "objCacheList ?ri = (pre @ [None]) @ map Some keys"
    using Cons.prems by (simp add: list_update_append)
  have next_index: "nat (ct + 1) = Suc (nat ct)" using Cons.prems(4) by simp
  have sub: "set keys \<subseteq> dom (table(key := None))" using Cons.prems(6,7) by auto
  have "cleanup_loop (ct + 1) ?ri = Ret (?ri\<lparr>objCache := Some (table(key := None) |` (- set keys)),
      objCacheList := (pre @ [None]) @ replicate (length keys) None\<rparr>)"
    using Cons.prems list next_index sub by (intro Cons.IH) auto
  moreover have "cleanup_loop ct ri = cleanup_loop (ct + 1) ?ri"
    using Cons.prems by (subst cleanup_loop.simps) (auto simp: nth_append)
  moreover have "table(key := None) |` (- set keys) = table |` (- set (key # keys))"
    by (auto simp: restrict_map_def)
  ultimately show ?case by simp
qed

lemma cleanup_loop_all:
  assumes "cache_rep ri keys table"
  shows "cleanup_loop (cache_free ri) ri = Ret (ri\<lparr>objCache := Some Map.empty,
    objCacheList := replicate (nat (cache_size ri)) None\<rparr>)"
proof -
  have "cleanup_loop (cache_free ri) ri = Ret (ri\<lparr>objCache := Some (table |` (- set keys)),
      objCacheList := replicate (nat (cache_free ri)) None @ replicate (length keys) None\<rparr>)"
    using assms by (intro cleanup_loop_result) (auto simp: cache_rep_def)
  moreover have "dom (table |` (- set keys)) = {}"
    using assms by (simp add: cache_rep_def del: dom_eq_empty_conv)
  then have "table |` (- set keys) = Map.empty" by blast
  moreover have "replicate (nat (cache_size ri)) None
      = replicate (nat (cache_free ri)) None @ replicate (length keys) (None :: bytes option)"
    using assms by (simp add: cache_rep_def nat_add_distrib flip: replicate_add)
  ultimately show ?thesis by simp
qed

lemma RivetCache_Cleanup_result:
  assumes "cache_rep ri keys table"
  shows "RivetCache_Cleanup pool_created ri =
    Ret (if pool_created then ri\<lparr>objCache := Some Map.empty,
           objCacheList := replicate (nat (cache_size ri)) None, cache_free := cache_size ri\<rparr>
         else ri\<lparr>objCache := Some Map.empty, objCacheList := replicate (nat (cache_size ri)) None,
           cache_free := 0, cache_size := 0\<rparr>)"
  by (simp add: RivetCache_Cleanup_def cleanup_loop_all [OF assms])

lemma RivetCache_Create_rep:
  "cache_size ri = cache_free ri \<Longrightarrow> 0 \<le> cache_free ri \<Longrightarrow> cache_rep (RivetCache_Create ri) [] Map.empty"
  by (simp add: RivetCache_Create_def cache_rep_def)

lemma DefaultSize_minimum: "50 \<le> RivetCache_DefaultSize m"
  by (simp add: RivetCache_DefaultSize_def RIVET_CACHE_SIZE_MINIMUM_def)

lemma NewVHostInterp_ok:
  assumes "Rivet_NewVHostInterp True m i sz = Some ri" "sz \<noteq> 0"
  shows "cache_rep ri [] Map.empty \<and> cache_size ri = (if sz < 0 then RivetCache_DefaultSize m else sz)"
proof -
  have "0 < RivetCache_DefaultSize m" using DefaultSize_minimum [of m] by linarith
  with assms show ?thesis
    by (auto simp: Rivet_NewVHostInterp_def Let_def cache_rep_def RivetCache_Create_def zeroed_interp_def
        split: if_splits)
qed

section \<open>The contract of the cache\<close>

text \<open>What the commands use: a lookup reads the abstract map, storing a new script adds it or leaves
  the map as it is, clearing empties it. Then every cached script stays valid when each stored one
  was.\<close>

locale script_cache =
  fixes ok :: "'s \<Rightarrow> bool"
    and view :: "'s \<Rightarrow> bytes \<Rightarrow> bytes option"
    and lookup :: "'s \<Rightarrow> bytes \<Rightarrow> bytes option option outcome"
    and insert_new :: "'s \<Rightarrow> bytes \<Rightarrow> bytes \<Rightarrow> 's outcome"
    and clear :: "'s \<Rightarrow> 's outcome"
  assumes lookup_view: "ok s \<Longrightarrow> lookup s k = Ret (map_option Some (view s k))"
    and insert_law: "ok s \<Longrightarrow> view s k = None \<Longrightarrow>
      \<exists>s'. insert_new s k v = Ret s' \<and> ok s' \<and> (view s' = (view s)(k \<mapsto> v) \<or> view s' = view s)"
    and clear_law: "ok s \<Longrightarrow> \<exists>s'. clear s = Ret s' \<and> ok s' \<and> view s' = Map.empty"
begin

lemma hit_valid:
  assumes "ok s" "\<forall>k v. view s k = Some v \<longrightarrow> valid k v" "lookup s k = Ret (Some e)"
  shows "\<exists>v. e = Some v \<and> valid k v \<and> view s k = Some v"
  using assms lookup_view [of s k] by auto

lemma miss_insert:
  assumes "ok s" "\<forall>k v. view s k = Some v \<longrightarrow> valid k v" "lookup s k = Ret None" "valid k v"
  shows "\<exists>s'. insert_new s k v = Ret s' \<and> ok s' \<and> (\<forall>k v. view s' k = Some v \<longrightarrow> valid k v)"
proof -
  have "view s k = None" using assms(1,3) lookup_view [of s k] by simp
  then obtain s' where "insert_new s k v = Ret s'" "ok s'" "view s' = (view s)(k \<mapsto> v) \<or> view s' = view s"
    using insert_law [OF assms(1)] by blast
  moreover from this have "\<forall>k v. view s' k = Some v \<longrightarrow> valid k v"
    using assms(2,4) by (metis map_upd_Some_unfold)
  ultimately show ?thesis by blast
qed

lemma lookup_total: "ok s \<Longrightarrow> lookup s k \<noteq> Fault e \<and> lookup s k \<noteq> Fail m"
  by (simp add: lookup_view)

end

interpretation cache: script_cache cache_ok cache_map RivetCache_EntryLookup cache_new_script
  "RivetCache_Cleanup True"
proof
  fix ri :: rivet_thread_interp and k v :: bytes
  assume "cache_ok ri"
  then obtain keys table where rep: "cache_rep ri keys table" by (auto simp: cache_ok_def)
  show "RivetCache_EntryLookup ri k = Ret (map_option Some (cache_map ri k))"
    using rep cache_rep_lookup [OF rep] by (auto simp: RivetCache_EntryLookup_def cache_rep_def)
  show "\<exists>ri'. cache_new_script ri k v = Ret ri' \<and> cache_ok ri'
      \<and> (cache_map ri' = (cache_map ri)(k \<mapsto> v) \<or> cache_map ri' = cache_map ri)"
    if "cache_map ri k = None"
    using that rep cache_new_script_room [OF rep that, of v] cache_new_script_full [OF rep, of k v]
    by (cases "cache_free ri > 0") (auto simp: cache_ok_def)
  show "\<exists>ri'. RivetCache_Cleanup True ri = Ret ri' \<and> cache_ok ri' \<and> cache_map ri' = Map.empty"
    using RivetCache_Cleanup_result [OF rep] rep
    by (force simp: cache_ok_def cache_rep_def cache_map_def)
qed

section \<open>Sequences of operations\<close>

text \<open>What happens to the cache of an interpreter over its life: a lookup that misses is followed by
  a store, and the cache is cleared between requests.\<close>

datatype cache_op = Request bytes bytes | Clear

fun cache_step :: "cache_op \<Rightarrow> rivet_thread_interp \<Rightarrow> rivet_thread_interp outcome" where
  "cache_step (Request key script) ri =
     bindO (RivetCache_EntryLookup ri key)
       (\<lambda>e. case e of None \<Rightarrow> cache_new_script ri key script | Some _ \<Rightarrow> Ret ri)"
| "cache_step Clear ri = RivetCache_Cleanup True ri"

fun cache_run :: "cache_op list \<Rightarrow> rivet_thread_interp \<Rightarrow> rivet_thread_interp outcome" where
  "cache_run [] ri = Ret ri"
| "cache_run (op # ops) ri = bindO (cache_step op ri) (cache_run ops)"

lemma cache_step_keeps:
  assumes "cache_rep ri keys table"
  shows "\<exists>ri' keys' table'. cache_step op ri = Ret ri' \<and> cache_rep ri' keys' table'
    \<and> cache_size ri' = cache_size ri"
proof (cases op)
  case (Request key script)
  have l: "RivetCache_EntryLookup ri key = Ret (map_option Some (cache_map ri key))"
    using cache.lookup_view assms by (auto simp: cache_ok_def)
  show ?thesis
  proof (cases "cache_map ri key")
    case None
    then show ?thesis
      using l Request cache_new_script_room [OF assms None, of script]
        cache_new_script_full [OF assms, of key script]
      by (cases "cache_free ri > 0") auto
  next
    case (Some s)
    then show ?thesis using l Request assms by auto
  qed
next
  case Clear
  have "cache_rep (ri\<lparr>objCache := Some Map.empty, objCacheList := replicate (nat (cache_size ri)) None,
      cache_free := cache_size ri\<rparr>) [] Map.empty"
    using assms by (simp add: cache_rep_def)
  then show ?thesis using Clear RivetCache_Cleanup_result [OF assms] by auto
qed

lemma cache_run_keeps:
  "cache_rep ri keys table \<Longrightarrow>
   \<exists>ri' keys' table'. cache_run ops ri = Ret ri' \<and> cache_rep ri' keys' table' \<and> cache_size ri' = cache_size ri"
proof (induction ops arbitrary: ri keys table)
  case Nil
  then show ?case by auto
next
  case (Cons op ops)
  from cache_step_keeps [OF Cons.prems, of op] obtain ri1 k1 t1
    where "cache_step op ri = Ret ri1" "cache_rep ri1 k1 t1" "cache_size ri1 = cache_size ri" by blast
  with Cons.IH [of ri1 k1 t1] show ?case by simp
qed

lemma cache_content_loop_spec:
  "m \<le> length xs \<Longrightarrow>
   cache_content_loop (int m - 1) xs = Ret (map the (takeWhile (\<lambda>x. x \<noteq> None) (rev (take m xs))))"
proof (induction m)
  case 0
  then show ?case by (subst cache_content_loop.simps) simp
next
  case (Suc m)
  then show ?case
    by (subst cache_content_loop.simps) (auto simp: take_Suc_conv_app_nth split: option.split)
qed

lemma cache_content_rep:
  assumes "cache_rep ri keys table"
  shows "Rivet_CacheContent ri = Ret (TList (rev keys))"
proof -
  have t: "takeWhile (\<lambda>x. x \<noteq> None) (map Some ys @ replicate n None) = map Some ys" for ys :: "bytes list" and n
  proof (induction ys)
    case Nil
    show ?case by (cases n) simp_all
  qed simp
  have "objCacheList ri = replicate (nat (cache_free ri)) None @ map Some keys"
    "cache_size ri = int (length (objCacheList ri))"
    using assms by (simp_all add: cache_rep_def)
  then show ?thesis
    using cache_content_loop_spec [of "length (objCacheList ri)" "objCacheList ri"] t [of "rev keys"]
    by (simp add: Rivet_CacheContent_def rev_map)
qed

section \<open>Properties\<close>



text \<open>C17: while there is room, a script that is not in the cache is stored under its key and every
  other entry stays; when the cache is full the entries stay as they are and the interpreter is
  marked full.\<close>

theorem cache_new_script_spec:
  assumes "cache_ok ri" "cache_map ri key = None"
  shows "\<exists>ri'. cache_new_script ri key script = Ret ri' \<and> cache_ok ri'
    \<and> cache_map ri' = (if cache_free ri > 0 then (cache_map ri)(key \<mapsto> script) else cache_map ri)
    \<and> cache_free ri' = max 0 (cache_free ri - 1)
    \<and> (cache_free ri = 0 \<longrightarrow> flags ri' AND RIVET_CACHE_FULL \<noteq> 0)"
proof -
  obtain keys table where rep: "cache_rep ri keys table" using assms(1) by (auto simp: cache_ok_def)
  show ?thesis
  proof (cases "cache_free ri > 0")
    case True
    then show ?thesis
      using cache_new_script_room [OF rep assms(2) True, of script] by (auto simp: cache_ok_def)
  next
    case False
    then have "cache_free ri = 0" using rep by (simp add: cache_rep_def)
    moreover have "(flags ri OR RIVET_CACHE_FULL) AND RIVET_CACHE_FULL \<noteq> 0"
      by (simp add: RIVET_CACHE_FULL_def bit.conj_disj_distrib2)
    ultimately show ?thesis
      using rep by (auto simp: cache_new_script_def cache_ok_def cache_rep_def cache_map_def)
  qed
qed

text \<open>Cleaning up the cache frees exactly its entries: no script is left, all slots are free
  again, and the other fields of the interpreter are unchanged; when the new memory pool cannot be
  created the cache is disabled.\<close>

theorem RivetCache_Cleanup_spec:
  assumes "cache_ok ri"
  shows "\<exists>ri'. RivetCache_Cleanup pool_created ri = Ret ri' \<and> cache_map ri' = Map.empty
    \<and> (if pool_created then cache_ok ri' \<and> cache_free ri' = cache_size ri \<and> cache_size ri' = cache_size ri
       else cache_free ri' = 0 \<and> cache_size ri' = 0)
    \<and> scripts ri' = scripts ri \<and> per_dir_scripts ri' = per_dir_scripts ri \<and> flags ri' = flags ri"
proof -
  obtain keys table where rep: "cache_rep ri keys table" using assms by (auto simp: cache_ok_def)
  then have "0 \<le> cache_size ri" by (simp add: cache_rep_def)
  then show ?thesis
    using RivetCache_Cleanup_result [OF rep, of pool_created]
    by (cases pool_created) (auto simp: cache_map_def cache_ok_def cache_rep_def)
qed

definition demo_interp :: rivet_thread_interp where
  "demo_interp = (zeroed_interp 1)\<lparr>cache_size := 2, cache_free := 1,
     objCache := Some [''k'' \<mapsto> Some ''s''], objCacheList := [None, Some ''k'']\<rparr>"

lemma demo_interp_ok: "cache_ok demo_interp"
  unfolding cache_ok_def
  by (rule exI [of _ "[''k'']"], rule exI [of _ "[''k'' \<mapsto> Some ''s'']"])
    (simp add: cache_rep_def demo_interp_def)

lemma cache_new_script_spec_witness:
  "\<exists>ri'. cache_new_script demo_interp ''n'' ''puts 1'' = Ret ri' \<and> cache_ok ri'
    \<and> cache_map ri' = (if cache_free demo_interp > 0 then (cache_map demo_interp)(''n'' \<mapsto> ''puts 1'')
        else cache_map demo_interp)
    \<and> cache_free ri' = max 0 (cache_free demo_interp - 1)
    \<and> (cache_free demo_interp = 0 \<longrightarrow> flags ri' AND RIVET_CACHE_FULL \<noteq> 0)"
  by (rule cache_new_script_spec [OF demo_interp_ok]) (simp add: demo_interp_def cache_map_def)

lemma RivetCache_Cleanup_spec_witness:
  "\<exists>ri'. RivetCache_Cleanup True demo_interp = Ret ri' \<and> cache_map ri' = Map.empty
    \<and> (if True then cache_ok ri' \<and> cache_free ri' = cache_size demo_interp
          \<and> cache_size ri' = cache_size demo_interp
       else cache_free ri' = 0 \<and> cache_size ri' = 0)
    \<and> scripts ri' = scripts demo_interp \<and> per_dir_scripts ri' = per_dir_scripts demo_interp
    \<and> flags ri' = flags demo_interp"
  by (rule RivetCache_Cleanup_spec [OF demo_interp_ok])

text \<open>The listing of the cache has every cached key exactly once, the oldest first.\<close>

theorem Rivet_CacheContent_spec:
  assumes "cache_ok ri"
  shows "\<exists>keys. Rivet_CacheContent ri = Ret (TList keys) \<and> distinct keys \<and> set keys = dom (cache_map ri)"
proof -
  obtain keys table where rep: "cache_rep ri keys table" using assms by (auto simp: cache_ok_def)
  then have "distinct (rev keys) \<and> set (rev keys) = dom (cache_map ri)"
    by (simp add: dom_cache_map [OF rep] cache_rep_def)
  then show ?thesis using cache_content_rep [OF rep] by blast
qed

lemma Rivet_CacheContent_spec_witness:
  "\<exists>keys. Rivet_CacheContent demo_interp = Ret (TList keys) \<and> distinct keys
    \<and> set keys = dom (cache_map demo_interp)"
  by (rule Rivet_CacheContent_spec [OF demo_interp_ok])

text \<open>A cache of size 0, which the configuration describes as a disabled cache, has no hash table:
  the first lookup dereferences NULL.\<close>

lemma cache_size_zero_lookup:
  "Rivet_NewVHostInterp True m i 0 = Some ri \<Longrightarrow> RivetCache_EntryLookup ri key = Fault NullDeref"
  by (auto simp: Rivet_NewVHostInterp_def zeroed_interp_def RivetCache_EntryLookup_def Let_def)

text \<open>The numbers of a key are not separated from each other: two files with different times can
  have one key.\<close>

lemma MakeKey_ambiguous:
  "RivetCache_MakeKey ''a'' 1 0x12 False 1 = RivetCache_MakeKey ''a1'' 1 2 False 1"
  "RivetCache_MakeKey ''a'' 0x21 1 False 1 = RivetCache_MakeKey ''a'' 1 0x12 False 1"
  by (simp_all add: RivetCache_MakeKey_def printf_lx_def digits.simps digit_char_def char_of_def bit_0)

end
