(* ===== verification/Rivet_Config.thy ===== *)
theory Rivet_Config
  imports Rivet_Types
begin

text \<open>
  src/src/mod_rivet_ng/apache_config.c: the configuration directives and the merging of the
  server, virtual host and directory records. A directive returns the updated records and the
  error string, if any. The APR tables and \<open>Tcl_GetBoolean\<close> are parameters; the build constants of
  rivet_config.h are a record.
\<close>

record conf_lib =
  conf_table_set :: "bytes option apr_table \<Rightarrow> bytes \<Rightarrow> bytes option \<Rightarrow> bytes option apr_table"
  conf_table_overlay :: "bytes option apr_table \<Rightarrow> bytes option apr_table \<Rightarrow> bytes option apr_table"
  conf_GetBoolean :: "bytes \<Rightarrow> int option"

record build_constants =
  RIVET_MAX_POST :: int
  RIVET_UPLOAD_FILES_TO_VAR :: int
  RIVET_NAMESPACE_EXPORT :: int
  RIVET_NAMESPACE_IMPORT :: int
  RIVET_HEAD_REQUESTS :: int
  RIVET_UPLOAD_DIR :: "bytes option"

section \<open>The source routines\<close>

definition Rivet_AppendStringToConf :: "bytes option \<Rightarrow> bytes \<Rightarrow> bytes" where
  "Rivet_AppendStringToConf p string = (case p of None \<Rightarrow> string | Some s \<Rightarrow> s @ [LF] @ string)"

text \<open>The result is the new value of the field the script name selects, \<open>None\<close> for another name.\<close>

definition Rivet_SetScript :: "rivet_server_conf \<Rightarrow> mod_rivet_globals \<Rightarrow> bytes \<Rightarrow> bytes \<Rightarrow>
    rivet_server_conf \<times> mod_rivet_globals \<times> bytes option" where
  "Rivet_SetScript rsc mg script string =
     (let app = (\<lambda>c. Some (Rivet_AppendStringToConf c string)) in
      if STREQU script ''GlobalInitScript'' then
        (rsc\<lparr>rivet_global_init_script := app (rivet_global_init_script rsc)\<rparr>, mg, app (rivet_global_init_script rsc))
      else if STREQU script ''ChildInitScript'' then
        (rsc\<lparr>rivet_child_init_script := app (rivet_child_init_script rsc)\<rparr>, mg, app (rivet_child_init_script rsc))
      else if STREQU script ''ChildExitScript'' then
        (rsc\<lparr>rivet_child_exit_script := app (rivet_child_exit_script rsc)\<rparr>, mg, app (rivet_child_exit_script rsc))
      else if STREQU script ''RequestHandler'' then
        (rsc\<lparr>request_handler := app (request_handler rsc)\<rparr>, mg, app (request_handler rsc))
      else if STREQU script ''BeforeScript'' then
        (rsc\<lparr>rivet_before_script := app (rivet_before_script rsc)\<rparr>, mg, app (rivet_before_script rsc))
      else if STREQU script ''AfterScript'' then
        (rsc\<lparr>rivet_after_script := app (rivet_after_script rsc)\<rparr>, mg, app (rivet_after_script rsc))
      else if STREQU script ''ErrorScript'' then
        (rsc\<lparr>rivet_error_script := app (rivet_error_script rsc)\<rparr>, mg, app (rivet_error_script rsc))
      else if STREQU script ''AbortScript'' then
        (rsc\<lparr>rivet_abort_script := app (rivet_abort_script rsc)\<rparr>, mg, app (rivet_abort_script rsc))
      else if STREQU script ''AfterEveryScript'' then
        (rsc\<lparr>after_every_script := app (after_every_script rsc)\<rparr>, mg, app (after_every_script rsc))
      else if STREQU script ''ServerInitScript'' then
        (rsc, mg\<lparr>rivet_server_init_script := app (rivet_server_init_script mg)\<rparr>, app (rivet_server_init_script mg))
      else (rsc, mg, None))"

definition Rivet_CopyConfig :: "rivet_server_conf \<Rightarrow> rivet_server_conf \<Rightarrow> rivet_server_conf" where
  "Rivet_CopyConfig oldrsc newrsc = newrsc\<lparr>
     rivet_global_init_script := rivet_global_init_script oldrsc,
     request_handler := request_handler oldrsc,
     rivet_before_script := rivet_before_script oldrsc,
     rivet_after_script := rivet_after_script oldrsc,
     rivet_error_script := rivet_error_script oldrsc,
     rivet_abort_script := rivet_abort_script oldrsc,
     after_every_script := after_every_script oldrsc,
     default_cache_size := default_cache_size oldrsc,
     upload_max := upload_max oldrsc,
     upload_files_to_var := upload_files_to_var oldrsc,
     export_rivet_ns := export_rivet_ns oldrsc,
     import_rivet_ns := import_rivet_ns oldrsc,
     honor_head_requests := honor_head_requests oldrsc,
     server_name := server_name oldrsc,
     upload_dir := upload_dir oldrsc,
     rivet_server_vars := rivet_server_vars oldrsc,
     rivet_dir_vars := rivet_dir_vars oldrsc,
     rivet_user_vars := rivet_user_vars oldrsc,
     idx := idx oldrsc,
     path := path oldrsc,
     user_scripts_status := user_scripts_status oldrsc\<rparr>"

definition merge_vars :: "conf_lib \<Rightarrow> bytes option apr_table option \<Rightarrow> bytes option apr_table option \<Rightarrow>
    bytes option apr_table option" where
  "merge_vars lib base add =
     (case (base, add) of (Some b, Some a) \<Rightarrow> Some (conf_table_overlay lib b a) | _ \<Rightarrow> base)"

definition Rivet_MergeDirConfigVars :: "conf_lib \<Rightarrow> rivet_server_conf \<Rightarrow> rivet_server_conf \<Rightarrow>
    rivet_server_conf \<Rightarrow> rivet_server_conf" where
  "Rivet_MergeDirConfigVars lib new base add = new\<lparr>
     rivet_child_init_script := select_ptr (rivet_child_init_script base) (rivet_child_init_script add),
     rivet_child_exit_script := select_ptr (rivet_child_exit_script base) (rivet_child_exit_script add),
     request_handler := select_ptr (request_handler base) (request_handler add),
     rivet_before_script := select_ptr (rivet_before_script base) (rivet_before_script add),
     rivet_after_script := select_ptr (rivet_after_script base) (rivet_after_script add),
     rivet_error_script := select_ptr (rivet_error_script base) (rivet_error_script add),
     rivet_abort_script := select_ptr (rivet_abort_script base) (rivet_abort_script add),
     after_every_script := select_ptr (after_every_script base) (after_every_script add),
     upload_dir := select_ptr (upload_dir base) (upload_dir add),
     rivet_dir_vars := merge_vars lib (rivet_dir_vars base) (rivet_dir_vars add),
     rivet_user_vars := merge_vars lib (rivet_user_vars base) (rivet_user_vars add),
     path := select_ptr (path base) (path add),
     user_scripts_status := user_scripts_status add\<rparr>"

definition Rivet_CreateDirConfig :: rivet_server_conf where
  "Rivet_CreateDirConfig = RIVET_NEW_CONF\<lparr>rivet_server_vars := Some [], rivet_dir_vars := Some [],
     rivet_user_vars := Some []\<rparr>"

definition Rivet_MergeDirConfig :: "conf_lib \<Rightarrow> rivet_server_conf \<Rightarrow> rivet_server_conf \<Rightarrow> rivet_server_conf" where
  "Rivet_MergeDirConfig lib base add = Rivet_MergeDirConfigVars lib RIVET_NEW_CONF base add"

text \<open>\<open>Rivet_GetConf\<close> runs for every request; \<open>dconf\<close> is the per directory record of the request.\<close>

definition Rivet_GetConf :: "conf_lib \<Rightarrow> rivet_server_conf \<Rightarrow> rivet_server_conf option \<Rightarrow> rivet_server_conf" where
  "Rivet_GetConf lib rsc dconf =
     (case dconf of
        None \<Rightarrow> rsc
      | Some rdc \<Rightarrow> Rivet_MergeDirConfigVars lib (Rivet_CopyConfig rsc RIVET_NEW_CONF) rsc rdc)"

definition Rivet_MergeConfig :: "rivet_server_conf \<Rightarrow> rivet_server_conf \<Rightarrow> rivet_server_conf" where
  "Rivet_MergeConfig base overrides = RIVET_NEW_CONF\<lparr>
     rivet_child_init_script := select_ptr (rivet_child_init_script base) (rivet_child_init_script overrides),
     rivet_child_exit_script := select_ptr (rivet_child_exit_script base) (rivet_child_exit_script overrides),
     request_handler := select_ptr (request_handler base) (request_handler overrides),
     rivet_before_script := select_ptr (rivet_before_script base) (rivet_before_script overrides),
     rivet_after_script := select_ptr (rivet_after_script base) (rivet_after_script overrides),
     rivet_error_script := select_ptr (rivet_error_script base) (rivet_error_script overrides),
     rivet_abort_script := select_ptr (rivet_abort_script base) (rivet_abort_script overrides),
     after_every_script := select_ptr (after_every_script base) (after_every_script overrides),
     default_cache_size := select_int (default_cache_size base) (default_cache_size overrides),
     honor_head_requests := honor_head_requests base,
     upload_files_to_var := upload_files_to_var base,
     import_rivet_ns := import_rivet_ns base,
     export_rivet_ns := export_rivet_ns base,
     upload_max := upload_max base,
     upload_dir := select_ptr (upload_dir base) (upload_dir overrides),
     rivet_server_vars := select_ptr (rivet_server_vars base) (rivet_server_vars overrides),
     rivet_dir_vars := select_ptr (rivet_dir_vars base) (rivet_dir_vars overrides),
     rivet_user_vars := select_ptr (rivet_user_vars base) (rivet_user_vars overrides),
     path := select_ptr (path base) (path overrides)\<rparr>"

definition Rivet_CreateConfig :: "build_constants \<Rightarrow> rivet_server_conf" where
  "Rivet_CreateConfig k = RIVET_NEW_CONF\<lparr>
     user_scripts_status := 0, default_cache_size := - 1, upload_max := RIVET_MAX_POST k,
     upload_files_to_var := RIVET_UPLOAD_FILES_TO_VAR k, export_rivet_ns := RIVET_NAMESPACE_EXPORT k,
     import_rivet_ns := RIVET_NAMESPACE_IMPORT k, honor_head_requests := RIVET_HEAD_REQUESTS k,
     upload_dir := RIVET_UPLOAD_DIR k, rivet_server_vars := Some [], rivet_dir_vars := Some [],
     rivet_user_vars := Some [], idx := 0\<rparr>"

section \<open>The directives\<close>

text \<open>A directive gets its two arguments as pointers; the result is an error string or NULL. Writing
  to a table that was never made is a NULL dereference.\<close>

definition set_in_table :: "conf_lib \<Rightarrow> bytes option apr_table option \<Rightarrow> bytes \<Rightarrow> bytes option \<Rightarrow>
    bytes option apr_table option outcome" where
  "set_in_table lib t var val =
     (case t of None \<Rightarrow> Fault NullDeref | Some t \<Rightarrow> Ret (Some (conf_table_set lib t var val)))"

definition Rivet_UserConf :: "conf_lib \<Rightarrow> rivet_server_conf \<Rightarrow> mod_rivet_globals \<Rightarrow> bytes option \<Rightarrow>
    bytes option \<Rightarrow> (rivet_server_conf \<times> mod_rivet_globals \<times> bytes option) outcome" where
  "Rivet_UserConf lib rdc mg var val =
     (case (var, val) of
        (Some var, Some val) \<Rightarrow>
          (let rdc = rdc\<lparr>user_scripts_status :=
                 user_scripts_status rdc OR (USER_SCRIPTS_UPDATED OR USER_SCRIPTS_CONF)\<rparr> in
           if list_ex (STREQU var) [''BeforeScript'', ''AfterScript'', ''AbortScript'',
                ''AfterEveryScript'', ''UploadDirectory'', ''ErrorScript''] then
             (case Rivet_SetScript rdc mg var val of (rdc, mg, string) \<Rightarrow>
                bindO (set_in_table lib (rivet_user_vars rdc) var string)
                  (\<lambda>t. Ret (rdc\<lparr>rivet_user_vars := t\<rparr>, mg, None)))
           else if list_ex (STREQU var) [''Debug'', ''DebugIp'', ''DebugSubst'', ''DebugSeparator''] then
             bindO (set_in_table lib (rivet_user_vars rdc) var (Some val))
               (\<lambda>t. Ret (rdc\<lparr>rivet_user_vars := t\<rparr>, mg, None))
           else Ret (rdc, mg, Some (''Rivet configuration error: '' @ [SQ] @ cstr var @ [SQ]
                                   @ '' not valid for RivetUserConf'')))
      | _ \<Rightarrow> Ret (rdc, mg, Some ''Rivet Error: RivetUserConf requires two arguments''))"

definition Rivet_DirConf :: "conf_lib \<Rightarrow> bytes option \<Rightarrow> rivet_server_conf \<Rightarrow> mod_rivet_globals \<Rightarrow>
    bytes option \<Rightarrow> bytes option \<Rightarrow> (rivet_server_conf \<times> mod_rivet_globals \<times> bytes option) outcome" where
  "Rivet_DirConf lib cmd_path rdc mg var val =
     (case (var, val) of
        (Some var, Some val) \<Rightarrow>
          (let finish = (\<lambda>(rdc, mg, string).
                 bindO (if string \<noteq> None then set_in_table lib (rivet_dir_vars rdc) var string
                        else Ret (rivet_dir_vars rdc))
                   (\<lambda>t. Ret (rdc\<lparr>rivet_dir_vars := t, path := cmd_path\<rparr>, mg, None))) in
           if STREQU var ''UploadDirectory'' then finish (rdc\<lparr>upload_dir := Some val\<rparr>, mg, Some val)
           else if list_ex (STREQU var) [''BeforeScript'', ''AfterScript'', ''AbortScript'',
                ''AfterEveryScript'', ''ErrorScript''] then finish (Rivet_SetScript rdc mg var val)
           else Ret (rdc, mg, Some (''Rivet configuration error: '' @ [SQ] @ cstr var @ [SQ]
                                   @ '' not valid in <Directory> sections'')))
      | _ \<Rightarrow> Ret (rdc, mg, Some ''Rivet Error: RivetDirConf requires two arguments''))"

text \<open>\<open>Tcl_GetBoolean\<close> with a NULL interpreter leaves the variable as it is when the value is no
  boolean; its result is ignored.\<close>

definition get_boolean :: "conf_lib \<Rightarrow> bytes \<Rightarrow> int \<Rightarrow> int" where
  "get_boolean lib val old = (case conf_GetBoolean lib val of None \<Rightarrow> old | Some b \<Rightarrow> b)"

definition Rivet_ServerConf :: "conf_lib \<Rightarrow> rivet_server_conf \<Rightarrow> mod_rivet_globals \<Rightarrow> bytes option \<Rightarrow>
    bytes option \<Rightarrow> (rivet_server_conf \<times> mod_rivet_globals \<times> bytes option) outcome" where
  "Rivet_ServerConf lib rsc mg var val =
     (case (var, val) of
        (Some var, Some val) \<Rightarrow>
          (let (rsc, mg, string) =
             (if STREQU var ''CacheSize'' then
                (rsc\<lparr>default_cache_size := c_int (strtol10 val)\<rparr>, mg, Some val)
              else if STREQU var ''UploadDirectory'' then (rsc\<lparr>upload_dir := Some val\<rparr>, mg, Some val)
              else if STREQU var ''UploadMaxSize'' then
                (rsc\<lparr>upload_max := c_int (strtol10 val)\<rparr>, mg, Some val)
              else if STREQU var ''UploadFilesToVar'' then
                (rsc\<lparr>upload_files_to_var := get_boolean lib val (upload_files_to_var rsc)\<rparr>, mg, Some val)
              else if STREQU var ''SeparateVirtualInterps'' then
                (rsc, mg\<lparr>separate_virtual_interps := get_boolean lib val (separate_virtual_interps mg)\<rparr>, Some val)
              else if STREQU var ''HonorHeaderOnlyRequests'' then
                (rsc\<lparr>honor_head_requests := get_boolean lib val (honor_head_requests rsc)\<rparr>, mg, Some val)
              else if STREQU var ''HonorHeadRequests'' then
                (rsc\<lparr>honor_head_requests := get_boolean lib val (honor_head_requests rsc)\<rparr>, mg, Some val)
              else if STREQU var ''SingleThreadExit'' then
                (rsc, mg\<lparr>single_thread_exit := get_boolean lib val (single_thread_exit mg)\<rparr>, Some val)
              else if STREQU var ''SeparateChannels'' then
                (rsc, mg\<lparr>separate_channels := get_boolean lib val (separate_channels mg)\<rparr>, Some val)
              else if STREQU var ''MpmBridge'' then (rsc, mg\<lparr>mpm_bridge := Some val\<rparr>, Some val)
              else if STREQU var ''ImportRivetNS'' then
                (rsc\<lparr>import_rivet_ns := get_boolean lib val (import_rivet_ns rsc)\<rparr>, mg, Some val)
              else if STREQU var ''ExportRivetNS'' then
                (rsc\<lparr>export_rivet_ns := get_boolean lib val (export_rivet_ns rsc)\<rparr>, mg, Some val)
              else Rivet_SetScript rsc mg var val)
           in bindO (if string \<noteq> None then set_in_table lib (rivet_server_vars rsc) var string
                     else Ret (rivet_server_vars rsc))
                (\<lambda>t. Ret (rsc\<lparr>rivet_server_vars := t\<rparr>, mg, None)))
      | _ \<Rightarrow> Ret (rsc, mg, Some ''Rivet Error: RivetServerConf requires two arguments''))"

section \<open>Facts about the script directives\<close>

text \<open>The script directives of a server record and the fields they fill, and the fields a directory
  section can override.\<close>

definition script_directives :: "(bytes \<times> (rivet_server_conf \<Rightarrow> bytes option)) list" where
  "script_directives =
     [(''GlobalInitScript'', rivet_global_init_script), (''ChildInitScript'', rivet_child_init_script),
      (''ChildExitScript'', rivet_child_exit_script), (''RequestHandler'', request_handler),
      (''BeforeScript'', rivet_before_script), (''AfterScript'', rivet_after_script),
      (''ErrorScript'', rivet_error_script), (''AbortScript'', rivet_abort_script),
      (''AfterEveryScript'', after_every_script)]"

definition dir_fields :: "(rivet_server_conf \<Rightarrow> bytes option) list" where
  "dir_fields = [request_handler, rivet_before_script, rivet_after_script, rivet_error_script,
     rivet_abort_script, after_every_script, upload_dir]"

lemma distinct_directives: "distinct (map fst script_directives)"
  by (simp add: script_directives_def)

lemma directive_names: "n \<in> fst ` set script_directives \<longleftrightarrow>
    n \<in> {''GlobalInitScript'', ''ChildInitScript'', ''ChildExitScript'', ''RequestHandler'',
      ''BeforeScript'', ''AfterScript'', ''ErrorScript'', ''AbortScript'', ''AfterEveryScript''}"
  by (simp add: script_directives_def)

lemma SetScript_simps:
  "Rivet_SetScript rsc mg ''GlobalInitScript'' v =
     (let s = Some (Rivet_AppendStringToConf (rivet_global_init_script rsc) v) in (rsc\<lparr>rivet_global_init_script := s\<rparr>, mg, s))"
  "Rivet_SetScript rsc mg ''ChildInitScript'' v =
     (let s = Some (Rivet_AppendStringToConf (rivet_child_init_script rsc) v) in (rsc\<lparr>rivet_child_init_script := s\<rparr>, mg, s))"
  "Rivet_SetScript rsc mg ''ChildExitScript'' v =
     (let s = Some (Rivet_AppendStringToConf (rivet_child_exit_script rsc) v) in (rsc\<lparr>rivet_child_exit_script := s\<rparr>, mg, s))"
  "Rivet_SetScript rsc mg ''RequestHandler'' v =
     (let s = Some (Rivet_AppendStringToConf (request_handler rsc) v) in (rsc\<lparr>request_handler := s\<rparr>, mg, s))"
  "Rivet_SetScript rsc mg ''BeforeScript'' v =
     (let s = Some (Rivet_AppendStringToConf (rivet_before_script rsc) v) in (rsc\<lparr>rivet_before_script := s\<rparr>, mg, s))"
  "Rivet_SetScript rsc mg ''AfterScript'' v =
     (let s = Some (Rivet_AppendStringToConf (rivet_after_script rsc) v) in (rsc\<lparr>rivet_after_script := s\<rparr>, mg, s))"
  "Rivet_SetScript rsc mg ''ErrorScript'' v =
     (let s = Some (Rivet_AppendStringToConf (rivet_error_script rsc) v) in (rsc\<lparr>rivet_error_script := s\<rparr>, mg, s))"
  "Rivet_SetScript rsc mg ''AbortScript'' v =
     (let s = Some (Rivet_AppendStringToConf (rivet_abort_script rsc) v) in (rsc\<lparr>rivet_abort_script := s\<rparr>, mg, s))"
  "Rivet_SetScript rsc mg ''AfterEveryScript'' v =
     (let s = Some (Rivet_AppendStringToConf (after_every_script rsc) v) in (rsc\<lparr>after_every_script := s\<rparr>, mg, s))"
  by (simp_all only: Rivet_SetScript_def Let_def) (simp_all add: STREQU_def)

lemma SetScript_directives:
  "list_all (\<lambda>(name, sel). \<exists>rsc'. Rivet_SetScript rsc mg name val
      = (rsc', mg, Some (Rivet_AppendStringToConf (sel rsc) val))
    \<and> sel rsc' = Some (Rivet_AppendStringToConf (sel rsc) val)
    \<and> list_all (\<lambda>(n, f). n \<noteq> name \<longrightarrow> f rsc' = f rsc) script_directives
    \<and> rivet_server_vars rsc' = rivet_server_vars rsc) script_directives"
  by (simp add: script_directives_def SetScript_simps Let_def)

lemma SetScript_directive:
  assumes "(name, sel) \<in> set script_directives"
  shows "\<exists>rsc'. Rivet_SetScript rsc mg name val
      = (rsc', mg, Some (Rivet_AppendStringToConf (sel rsc) val))
    \<and> sel rsc' = Some (Rivet_AppendStringToConf (sel rsc) val)
    \<and> (\<forall>(n, f) \<in> set script_directives. n \<noteq> name \<longrightarrow> f rsc' = f rsc)
    \<and> rivet_server_vars rsc' = rivet_server_vars rsc"
  using SetScript_directives [of rsc mg val] assms by (fastforce simp: list_all_iff split_beta)

text \<open>No script directive has the name of another server setting.\<close>

lemma ServerConf_is_SetScript:
  "list_all (\<lambda>(name, sel). Rivet_ServerConf lib rsc mg (Some name) (Some val) =
     (let (rsc, mg, string) = Rivet_SetScript rsc mg name val
      in bindO (if string \<noteq> None then set_in_table lib (rivet_server_vars rsc) name string
                else Ret (rivet_server_vars rsc))
           (\<lambda>t. Ret (rsc\<lparr>rivet_server_vars := t\<rparr>, mg, None)))) script_directives"
  by (simp add: script_directives_def Rivet_ServerConf_def STREQU_def)

lemma directive_keeps_vars:
  "list_all (\<lambda>(n, f). f (r\<lparr>rivet_server_vars := x\<rparr>) = f r) script_directives"
  by (simp add: script_directives_def)

lemma ServerConf_directive:
  assumes "(name, sel) \<in> set script_directives" "rivet_server_vars rsc = Some t"
  shows "\<exists>rsc' t'. Rivet_ServerConf lib rsc mg (Some name) (Some val) = Ret (rsc', mg, None)
    \<and> sel rsc' = Some (Rivet_AppendStringToConf (sel rsc) val)
    \<and> (\<forall>(n, f) \<in> set script_directives. n \<noteq> name \<longrightarrow> f rsc' = f rsc)
    \<and> rivet_server_vars rsc' = Some t'"
proof -
  obtain r where r: "Rivet_SetScript rsc mg name val = (r, mg, Some (Rivet_AppendStringToConf (sel rsc) val))"
      "sel r = Some (Rivet_AppendStringToConf (sel rsc) val)"
      "\<forall>(n, f) \<in> set script_directives. n \<noteq> name \<longrightarrow> f r = f rsc"
      "rivet_server_vars r = Some t"
    using SetScript_directive [OF assms(1), of rsc mg val] assms(2) by auto
  let ?r = "r\<lparr>rivet_server_vars :=
      Some (conf_table_set lib t name (Some (Rivet_AppendStringToConf (sel rsc) val)))\<rparr>"
  have keep: "\<forall>(n, f) \<in> set script_directives. f ?r = f r"
    using directive_keeps_vars [where r = r] by (simp add: list_all_iff)
  have "Rivet_ServerConf lib rsc mg (Some name) (Some val) = Ret (?r, mg, None)"
    using ServerConf_is_SetScript [of lib rsc mg val] assms(1) r(1,4)
    by (fastforce simp: list_all_iff set_in_table_def)
  moreover have "sel ?r = Some (Rivet_AppendStringToConf (sel rsc) val)"
    using keep assms(1) r(2) by fastforce
  moreover have "\<forall>(n, f) \<in> set script_directives. n \<noteq> name \<longrightarrow> f ?r = f rsc"
    using keep r(3) by fastforce
  moreover have "rivet_server_vars ?r = Some
      (conf_table_set lib t name (Some (Rivet_AppendStringToConf (sel rsc) val)))" by simp
  ultimately show ?thesis by blast
qed

fun run_directives :: "conf_lib \<Rightarrow> (bytes \<times> bytes) list \<Rightarrow> rivet_server_conf \<Rightarrow> mod_rivet_globals \<Rightarrow>
    (rivet_server_conf \<times> mod_rivet_globals) outcome" where
  "run_directives lib [] rsc mg = Ret (rsc, mg)"
| "run_directives lib ((var, val) # ds) rsc mg =
     bindO (Rivet_ServerConf lib rsc mg (Some var) (Some val))
       (\<lambda>(rsc, mg, err). if err \<noteq> None then Fail (ErrMsg (the err)) else run_directives lib ds rsc mg)"

definition collected :: "bytes option \<Rightarrow> bytes list \<Rightarrow> bytes option" where
  "collected start vals = foldl (\<lambda>s v. Some (Rivet_AppendStringToConf s v)) start vals"

lemma run_directives_collect:
  assumes "(name, sel) \<in> set script_directives"
  shows "rivet_server_vars rsc = Some t \<Longrightarrow> list_all (\<lambda>(n, v). n \<in> fst ` set script_directives) ds \<Longrightarrow>
   \<exists>rsc' t'. run_directives lib ds rsc mg = Ret (rsc', mg) \<and> rivet_server_vars rsc' = Some t'
     \<and> sel rsc' = collected (sel rsc) (map snd (filter (\<lambda>(n, v). n = name) ds))"
proof (induction ds arbitrary: rsc t)
  case Nil
  then show ?case by (simp add: collected_def)
next
  case (Cons d ds)
  obtain n v where d: "d = (n, v)" by (cases d)
  obtain f where f: "(n, f) \<in> set script_directives" using Cons.prems(2) d by auto
  obtain r t' where r: "Rivet_ServerConf lib rsc mg (Some n) (Some v) = Ret (r, mg, None)"
      "f r = Some (Rivet_AppendStringToConf (f rsc) v)"
      "\<forall>(m, g) \<in> set script_directives. m \<noteq> n \<longrightarrow> g r = g rsc" "rivet_server_vars r = Some t'"
    using ServerConf_directive [OF f Cons.prems(1)] by blast
  have "n = name \<Longrightarrow> f = sel"
    using f assms by (metis distinct_directives eq_key_imp_eq_value)
  then have "sel r = (if n = name then Some (Rivet_AppendStringToConf (sel rsc) v) else sel rsc)"
    using r(2,3) assms by auto
  moreover obtain r' t'' where "run_directives lib ds r mg = Ret (r', mg)" "rivet_server_vars r' = Some t''"
      "sel r' = collected (sel r) (map snd (filter (\<lambda>(n, v). n = name) ds))"
    using Cons.IH [OF r(4)] Cons.prems(2) by auto
  ultimately show ?case using r(1) d by (simp add: collected_def)
qed

lemma collected_join: "collected None vals = (if vals = [] then None else Some (join_with [LF] vals))"
proof (induction vals rule: rev_induct)
  case (snoc v vals)
  then show ?case by (simp add: collected_def Rivet_AppendStringToConf_def join_with_snoc)
qed (simp add: collected_def)

lemma select_ptr_assoc: "select_ptr (select_ptr a b) c = select_ptr a (select_ptr b c)"
  by (cases c) (simp_all add: select_ptr_def)

lemma dir_chain_field:
  "f \<in> set dir_fields \<Longrightarrow> f (foldl (Rivet_MergeDirConfig lib) d ds) = foldl select_ptr (f d) (map f ds)"
proof (induction ds arbitrary: d)
  case (Cons e ds)
  have "f (Rivet_MergeDirConfig lib d e) = select_ptr (f d) (f e)"
    using Cons.prems by (auto simp: dir_fields_def Rivet_MergeDirConfig_def Rivet_MergeDirConfigVars_def)
  with Cons show ?case by simp
qed simp

lemma fresh_scripts:
  "list_all (\<lambda>(n, f). f (Rivet_CreateConfig k) = None) script_directives"
  by (simp add: script_directives_def Rivet_CreateConfig_def RIVET_NEW_CONF_def)

lemma GetConf_fields:
  "list_all (\<lambda>f. f (Rivet_GetConf lib rsc (Some rdc)) = select_ptr (f rsc) (f rdc)) dir_fields"
  by (simp add: dir_fields_def Rivet_GetConf_def Rivet_MergeDirConfigVars_def)

lemma select_ptr_foldl: "select_ptr a (foldl select_ptr b xs) = foldl select_ptr a (b # xs)"
  by (induction xs arbitrary: b) (simp_all add: select_ptr_assoc)

section \<open>Properties\<close>


definition demo_conf_lib :: conf_lib where
  "demo_conf_lib = \<lparr> conf_table_set = \<lambda>t k v. filter (\<lambda>e. fst e \<noteq> k) t @ [(k, v)],
     conf_table_overlay = (@), conf_GetBoolean = \<lambda>v. if v = ''1'' then Some 1 else None \<rparr>"

definition demo_constants :: build_constants where
  "demo_constants = \<lparr> RIVET_MAX_POST = 0, RIVET_UPLOAD_FILES_TO_VAR = 1, RIVET_NAMESPACE_EXPORT = 1,
     RIVET_NAMESPACE_IMPORT = 0, RIVET_HEAD_REQUESTS = 0, RIVET_UPLOAD_DIR = Some ''/tmp'' \<rparr>"

definition demo_globals :: mod_rivet_globals where
  "demo_globals = \<lparr> rivet_server_init_script = None, mpm_bridge = None, single_thread_exit = - 1,
     separate_virtual_interps = 0, separate_channels = 0 \<rparr>"




text \<open>A virtual host record starts with a cache size of -1, which counts as set: the base server's
  \<open>CacheSize\<close> never reaches a virtual host, while a \<open>CacheSize 0\<close> of the virtual host falls back to
  the base. \<open>HonorHeadRequests\<close> and \<open>UploadMaxSize\<close> of a virtual host have no effect.\<close>

lemma vhost_settings:
  "default_cache_size (Rivet_MergeConfig base (Rivet_CreateConfig k)) = - 1"
  "default_cache_size (Rivet_MergeConfig base ((Rivet_CreateConfig k)\<lparr>default_cache_size := 0\<rparr>))
     = default_cache_size base"
  "honor_head_requests (Rivet_MergeConfig base vhost) = honor_head_requests base"
  "upload_max (Rivet_MergeConfig base vhost) = upload_max base"
  by (simp_all add: Rivet_MergeConfig_def Rivet_CreateConfig_def select_int_def)

text \<open>\<open>RivetUserConf UploadDirectory\<close> is accepted and changes no setting, only the table of user
  variables gets an entry without a value.\<close>

lemma UserConf_UploadDirectory:
  assumes "rivet_user_vars rdc = Some t"
  shows "\<exists>rdc'. Rivet_UserConf lib rdc mg (Some ''UploadDirectory'') (Some val) = Ret (rdc', mg, None)
    \<and> upload_dir rdc' = upload_dir rdc
    \<and> rivet_user_vars rdc' = Some (conf_table_set lib t ''UploadDirectory'' None)"
  using assms
  by (simp add: Rivet_UserConf_def STREQU_def Rivet_SetScript_def set_in_table_def)

end
