(* ===== verification/Rivet_Request.thy ===== *)
theory Rivet_Request
  imports Rivet_Types Rivet_WWW
begin

text \<open>
  src/src/request/apache_request.c: the request object, reading the body of a request, and the
  parsing of URL encoded parameters. The decoding routine \<open>ap_unescape_url_u\<close> works in place; it is
  modelled on the byte array with its two indices, and \<open>unescape_u\<close> is the decoder it refines.
  The routines of httpd and APR are parameters (\<open>apr_lib\<close>, \<open>client\<close>), their documented behaviour
  is stated by \<open>apr_laws\<close>.
\<close>

section \<open>Data\<close>

datatype http_method = M_GET | M_POST | M_PUT | M_DELETE | M_OTHER

definition HTTP_OK :: int where "HTTP_OK = 0"
definition DECLINED :: int where "DECLINED = - 1"
definition HTTP_BAD_REQUEST :: int where "HTTP_BAD_REQUEST = 400"
definition HTTP_FORBIDDEN :: int where "HTTP_FORBIDDEN = 403"
definition HTTP_NOT_FOUND :: int where "HTTP_NOT_FOUND = 404"
definition HTTP_REQUEST_ENTITY_TOO_LARGE :: int where "HTTP_REQUEST_ENTITY_TOO_LARGE = 413"
definition HTTP_INTERNAL_SERVER_ERROR :: int where "HTTP_INTERNAL_SERVER_ERROR = 500"

text \<open>What the module reads of httpd's \<open>request_rec\<close>. \<open>finfo_exists\<close> is a file type other than
  APR_NOFILE; \<open>r_server\<close> is the virtual host, \<open>per_dir_config\<close> the directory
  configuration, which may be NULL or hold no record of the module.\<close>

record request_rec =
  uri :: bytes
  path_info :: "bytes option"
  filename :: bytes
  args :: "bytes option"
  method_number :: http_method
  headers_in :: "bytes apr_table"
  header_only :: bool
  finfo_ctime :: int
  finfo_mtime :: int
  request_hostname :: "bytes option"
  r_handler :: "bytes option"
  finfo_exists :: bool
  per_dir_config :: "rivet_server_conf option option"
  r_server :: server_rec

text \<open>The routines of APR and httpd used on strings and tables.\<close>

record apr_lib =
  apr_table_get :: "bytes apr_table \<Rightarrow> bytes \<Rightarrow> bytes option"
  apr_table_set :: "bytes apr_table \<Rightarrow> bytes \<Rightarrow> bytes \<Rightarrow> bytes apr_table"
  apr_table_add :: "bytes apr_table \<Rightarrow> bytes \<Rightarrow> bytes \<Rightarrow> bytes apr_table"
  apr_table_unset :: "bytes apr_table \<Rightarrow> bytes \<Rightarrow> bytes apr_table"
  ap_getword :: "bytes \<Rightarrow> char \<Rightarrow> bytes \<times> bytes"
  ap_getword_conf :: "bytes \<Rightarrow> bytes \<times> bytes"
  ap_find_path_info :: "bytes \<Rightarrow> bytes \<Rightarrow> nat"
  ap_make_dirstr_parent :: "bytes \<Rightarrow> bytes"

definition apr_laws :: "apr_lib \<Rightarrow> bool" where
  "apr_laws lib \<longleftrightarrow>
     (\<forall>t k v. apr_table_add lib t k v = t @ [(k, v)])
     \<and> (\<forall>line c. ap_getword lib line c =
          (takeWhile (\<lambda>x. x \<noteq> c) line, dropWhile (\<lambda>x. x = c) (dropWhile (\<lambda>x. x \<noteq> c) line)))"

text \<open>The client side of the body: the results of \<open>ap_setup_client_block\<close> and
  \<open>ap_should_client_block\<close>, \<open>r->remaining\<close>, and the blocks \<open>ap_get_client_block\<close> delivers, in order;
  \<open>None\<close> stands for a read error.\<close>

record client =
  setup_client_block :: int
  should_client_block :: bool
  remaining :: int
  client_blocks :: "bytes option list"

definition HUGE_STRING_LEN :: nat where "HUGE_STRING_LEN = 8192"

definition blocks_fit :: "nat \<Rightarrow> client \<Rightarrow> bool" where
  "blocks_fit n cl \<longleftrightarrow> list_all (\<lambda>b. case b of None \<Rightarrow> True | Some bs \<Rightarrow> length bs \<le> n) (client_blocks cl)"

record upload_rec =
  up_name :: "bytes option"
  up_filename :: "bytes option"
  up_info :: "bytes apr_table"
  up_size :: int
  up_tempname :: "bytes option"
  up_data :: bytes

record apache_request =
  status :: int
  parms :: "bytes apr_table"
  upload :: "upload_rec list"
  post_max :: int
  disable_uploads :: bool
  has_upload_hook :: bool
  temp_dir :: "bytes option"
  raw_post :: "bytes option"
  raw_length :: int
  parsed :: bool
  nargs :: nat
  req_r :: request_rec

section \<open>The request object\<close>

definition ApacheRequest_init :: "apache_request \<Rightarrow> request_rec \<Rightarrow> apache_request" where
  "ApacheRequest_init req r = req\<lparr> status := HTTP_OK, parms := [], upload := [], post_max := - 1,
     disable_uploads := False, has_upload_hook := False, temp_dir := None, raw_post := None,
     raw_length := 0, parsed := False, req_r := r, nargs := 0\<rparr>"

definition ApacheUpload_new :: upload_rec where
  "ApacheUpload_new = \<lparr> up_name = None, up_filename = None, up_info = [], up_size = 0,
     up_tempname = None, up_data = [] \<rparr>"

text \<open>\<open>strcmp\<close> on the name of an upload that has none would dereference NULL.\<close>

fun ApacheUpload_find :: "upload_rec list \<Rightarrow> bytes \<Rightarrow> upload_rec option outcome" where
  "ApacheUpload_find [] name = Ret None"
| "ApacheUpload_find (u # us) name =
     (case up_name u of
        None \<Rightarrow> Fault NullDeref
      | Some n \<Rightarrow> if cstr n = cstr name then Ret (Some u) else ApacheUpload_find us name)"

definition ApacheRequest_script_name :: "apr_lib \<Rightarrow> apache_request \<Rightarrow> bytes" where
  "ApacheRequest_script_name lib req =
     (case path_info (req_r req) of
        Some pinfo \<Rightarrow>
          if byte0 pinfo \<noteq> NUL then take (ap_find_path_info lib (uri (req_r req)) pinfo) (uri (req_r req))
          else uri (req_r req)
      | None \<Rightarrow> uri (req_r req))"

definition ApacheRequest_script_path :: "apr_lib \<Rightarrow> apache_request \<Rightarrow> bytes" where
  "ApacheRequest_script_path lib req = ap_make_dirstr_parent lib (ApacheRequest_script_name lib req)"

text \<open>The first \<open>nargs\<close> entries of the parameter table come from the query string, the rest from the
  body: the two views share the array.\<close>

definition ApacheRequest_query_params :: "apache_request \<Rightarrow> bytes apr_table" where
  "ApacheRequest_query_params req = take (nargs req) (parms req)"

definition ApacheRequest_post_params :: "apache_request \<Rightarrow> bytes apr_table" where
  "ApacheRequest_post_params req = drop (nargs req) (parms req)"

text \<open>\<open>apr_table_do\<close> visits the entries whose key is equal up to case, in order.\<close>

definition params_of :: "apache_request \<Rightarrow> bytes \<Rightarrow> bytes list" where
  "params_of req key = map snd (filter (\<lambda>(k, v). strcaseEQ k key) (parms req))"

fun params_as_string_loop :: "bytes list \<Rightarrow> bytes option \<Rightarrow> bytes option" where
  "params_as_string_loop [] retval = retval"
| "params_as_string_loop (v # vs) retval =
     params_as_string_loop vs
       (Some ((case retval of None \<Rightarrow> [] | Some s \<Rightarrow> s) @ v @ (if vs = [] then [] else '', '')))"

section \<open>Reading the body\<close>

text \<open>Copying a block into the buffer of \<open>length + 1\<close> zeroed bytes at \<open>rpos\<close>.\<close>

definition memcpy_at :: "bytes \<Rightarrow> nat \<Rightarrow> bytes \<Rightarrow> bytes outcome" where
  "memcpy_at buf pos bs =
     (if pos + length bs \<le> length buf then Ret (take pos buf @ bs @ drop (pos + length bs) buf)
      else Fault OutOfBounds)"

fun read_blocks :: "bytes option list \<Rightarrow> int \<Rightarrow> bytes \<Rightarrow> int \<Rightarrow> bytes outcome" where
  "read_blocks [] rpos rbuf len = Ret rbuf"
| "read_blocks (b # bs) rpos rbuf len =
     (case b of
        None \<Rightarrow> Ret rbuf
      | Some buff \<Rightarrow>
          if buff = [] then Ret rbuf
          else
            let len_read = int (length buff);
                rsize = (if rpos + len_read > len then len - rpos else len_read)
            in if rsize < 0 then Fault OutOfBounds
               else bindO (memcpy_at rbuf (nat rpos) (take (nat rsize) buff))
                 (\<lambda>rbuf. read_blocks bs (rpos + rsize) rbuf len))"

text \<open>The result: the status, and the data and length when there was a body.\<close>

definition util_read :: "client \<Rightarrow> apache_request \<Rightarrow> (int \<times> (bytes \<times> int) option) outcome" where
  "util_read cl req =
     (if setup_client_block cl \<noteq> HTTP_OK then Ret (setup_client_block cl, None)
      else if should_client_block cl then
        let length = remaining cl in
        if length > post_max req \<and> post_max req > 0 then Ret (HTTP_REQUEST_ENTITY_TOO_LARGE, None)
        else bindO (read_blocks (client_blocks cl) 0 (replicate (nat (length + 1)) NUL) length)
          (\<lambda>rbuf. Ret (HTTP_OK, Some (rbuf, length)))
      else Ret (HTTP_OK, None))"

section \<open>Decoding\<close>

definition req_plustospace :: "bytes \<Rightarrow> bytes" where
  "req_plustospace s = map (\<lambda>c. if c = CHR ''+'' then CHR '' '' else c) s"

definition c_isxdigit :: "char \<Rightarrow> bool" where
  "c_isxdigit c \<longleftrightarrow> c_isdigit c \<or> 65 \<le> uchar c \<and> uchar c \<le> 70 \<or> 97 \<le> uchar c \<and> uchar c \<le> 102"

definition x2c_digit :: "char \<Rightarrow> int" where
  "x2c_digit c =
     (if schar c \<ge> 65 then (schar c AND 0xdf) - 65 + 10 else schar c - 48)"

definition x2c :: "char \<Rightarrow> char \<Rightarrow> char" where
  "x2c c1 c2 = to_char (x2c_digit c1 * 16 + x2c_digit c2)"

text \<open>\<open>utf8_convert\<close> reads up to four digits at \<open>pos\<close> and writes the letters back in lower case.\<close>

fun utf8_convert :: "nat \<Rightarrow> bytes \<Rightarrow> nat \<Rightarrow> int \<Rightarrow> (bytes \<times> int) outcome" where
  "utf8_convert 0 url pos x = Ret (url, x)"
| "utf8_convert (Suc n) url pos x =
     (if pos \<ge> length url then Fault OutOfBounds
      else
        let c = url ! pos in
        if \<not> c_isxdigit c then Ret (url, 0)
        else if c_isdigit c then utf8_convert n url (pos + 1) (x * 16 + schar c - 48)
        else let c = lower c in
          utf8_convert n (url[pos := c]) (pos + 1) (x * 16 + schar c - 97 + 10))"

definition utf8_bytes :: "int \<Rightarrow> bytes" where
  "utf8_bytes c =
     (let cont = (\<lambda>n. to_char (0x80 OR (drop_bit n c AND 0x3f))) in
      if c < 0x80 then [to_char c]
      else if c < 0x800 then [to_char (0xc0 OR drop_bit 6 c), cont 0]
      else if c < 0x10000 then [to_char (0xe0 OR drop_bit 12 c), cont 6, cont 0]
      else if c < 0x200000 then [to_char (0xf0 OR drop_bit 18 c), cont 12, cont 6, cont 0]
      else if c < 0x4000000 then [to_char (0xf8 OR drop_bit 24 c), cont 18, cont 12, cont 6, cont 0]
      else if c < 0x8000000 then
        [to_char (0xfe OR drop_bit 30 c), cont 24, cont 18, cont 12, cont 6, cont 0]
      else [])"

definition unescape_status :: "bool \<Rightarrow> bool \<Rightarrow> int" where
  "unescape_status badesc badpath =
     (if badesc then HTTP_BAD_REQUEST else if badpath then HTTP_NOT_FOUND else HTTP_OK)"

text \<open>The loop of \<open>ap_unescape_url_u\<close>: \<open>y\<close> reads, \<open>x\<close> writes in the same array.\<close>

lemma utf8_convert_length: "utf8_convert n url pos x = Ret (url', c) \<Longrightarrow> length url' = length url"
  by (induction n url pos x rule: utf8_convert.induct) (auto simp: Let_def split: if_splits)

lemma memcpy_at_length: "memcpy_at buf pos bs = Ret buf' \<Longrightarrow> length buf' = length buf"
  by (auto simp: memcpy_at_def split: if_splits)

function unescape_loop_u :: "bytes \<Rightarrow> nat \<Rightarrow> nat \<Rightarrow> bool \<Rightarrow> bool \<Rightarrow> (bytes \<times> int) outcome" where
  "unescape_loop_u url x y badesc badpath =
     (if y \<ge> length url then Fault OutOfBounds
      else if url ! y = NUL then
        bindO (memcpy_at url x [NUL]) (\<lambda>url. Ret (url, unescape_status badesc badpath))
      else if url ! y \<noteq> CHR ''%'' then
        bindO (memcpy_at url x [url ! y]) (\<lambda>url. unescape_loop_u url (x + 1) (y + 1) badesc badpath)
      else if y + 1 \<ge> length url then Fault OutOfBounds
      else if url ! (y + 1) = CHR ''u'' \<or> url ! (y + 1) = CHR ''U'' then
        bindO (utf8_convert 4 url (y + 2) 0)
          (\<lambda>(url, c). bindO (memcpy_at url x (utf8_bytes c))
             (\<lambda>url. unescape_loop_u url (x + length (utf8_bytes c)) (y + 6) badesc badpath))
      else if \<not> c_isxdigit (url ! (y + 1)) then
        bindO (memcpy_at url x ''%'') (\<lambda>url. unescape_loop_u url (x + 1) (y + 1) True badpath)
      else if y + 2 \<ge> length url then Fault OutOfBounds
      else if \<not> c_isxdigit (url ! (y + 2)) then
        bindO (memcpy_at url x ''%'') (\<lambda>url. unescape_loop_u url (x + 1) (y + 1) True badpath)
      else
        let c = x2c (url ! (y + 1)) (url ! (y + 2)) in
        bindO (memcpy_at url x [c])
          (\<lambda>url. unescape_loop_u url (x + 1) (y + 3) badesc (badpath \<or> c = CHR ''/'' \<or> c = NUL)))"
  by pat_completeness auto
termination
  by (relation "measure (\<lambda>(url, x, y, _). length url - y)")
    (auto dest!: memcpy_at_length utf8_convert_length)

declare unescape_loop_u.simps [simp del]

text \<open>On a C string: the array is the string with its terminator. The result is the string left in
  the array.\<close>

definition ap_unescape_url_u :: "bytes \<Rightarrow> (bytes \<times> int) outcome" where
  "ap_unescape_url_u url =
     bindO (unescape_loop_u (cstr url @ [NUL]) 0 0 False False) (\<lambda>(url, st). Ret (cstr url, st))"

definition my_urlword :: "bytes \<Rightarrow> bytes \<times> bytes" where
  "my_urlword line =
     (let sep = (\<lambda>ch. ch = CHR '';'' \<or> ch = CHR ''&'');
          pos = dropWhile (\<lambda>ch. \<not> sep ch) line
      in (takeWhile (\<lambda>ch. \<not> sep ch) line, dropWhile sep pos))"

lemma my_urlword_shorter: "line \<noteq> [] \<Longrightarrow> length (snd (my_urlword line)) < length line"
proof (cases line)
  case (Cons c cs)
  let ?sep = "\<lambda>ch. ch = CHR '';'' \<or> ch = CHR ''&''"
  have d: "length (dropWhile P xs) \<le> length xs" for P and xs :: bytes
    by (induction xs) auto
  show ?thesis
  proof (cases "?sep c")
    case True
    then show ?thesis using Cons d [of ?sep cs] by (auto simp: my_urlword_def Let_def)
  next
    case False
    then show ?thesis
      using Cons d [of ?sep "dropWhile (\<lambda>ch. \<not> ?sep ch) cs"] d [of "\<lambda>ch. \<not> ?sep ch" cs]
      by (auto simp: my_urlword_def Let_def)
  qed
qed simp

text \<open>\<open>data\<close> is a C string; key and value are decoded in place, the plus signs first. The status of the
  decoding is ignored.\<close>

definition decode_word :: "bytes \<Rightarrow> bytes outcome" where
  "decode_word s = bindO (ap_unescape_url_u (req_plustospace s)) (\<lambda>(s, _). Ret s)"

function split_loop :: "apr_lib \<Rightarrow> bytes \<Rightarrow> bytes apr_table \<Rightarrow> bytes apr_table outcome" where
  "split_loop lib data table =
     (if data = [] then Ret table
      else
        let (val, data) = my_urlword data;
            (key, val) = ap_getword lib val CHR ''=''
        in bindO (decode_word key)
             (\<lambda>key. bindO (decode_word val)
               (\<lambda>val. split_loop lib data (apr_table_add lib table key val))))"
  by pat_completeness auto
termination
  by (relation "measure (\<lambda>(_, data, _). length data)") (auto dest: my_urlword_shorter, metis my_urlword_shorter snd_conv)

declare split_loop.simps [simp del]

definition split_to_parms :: "apr_lib \<Rightarrow> apache_request \<Rightarrow> bytes \<Rightarrow> apache_request outcome" where
  "split_to_parms lib req data =
     bindO (split_loop lib (cstr data) (parms req)) (\<lambda>t. Ret (req\<lparr>parms := t\<rparr>))"

definition ApacheRequest_parse_urlencoded ::
    "apr_lib \<Rightarrow> client \<Rightarrow> apache_request \<Rightarrow> (apache_request \<times> int) outcome" where
  "ApacheRequest_parse_urlencoded lib cl req =
     (if method_number (req_r req) \<in> {M_POST, M_PUT, M_DELETE} then
        bindO (util_read cl req)
          (\<lambda>(rc, data).
             if rc \<noteq> HTTP_OK then Ret (req, rc)
             else (case data of
                None \<Rightarrow> Ret (req, HTTP_OK)
              | Some (data, len) \<Rightarrow>
                  bindO (split_to_parms lib (req\<lparr>raw_post := Some data, raw_length := c_int len\<rparr>) data)
                    (\<lambda>req. Ret (req, HTTP_OK))))
      else Ret (req, HTTP_OK))"

section \<open>Expiry dates\<close>

definition expire_mult :: "char \<Rightarrow> int" where
  "expire_mult s =
     (if s = CHR ''s'' then 1 else if s = CHR ''m'' then 60 else if s = CHR ''h'' then 60 * 60
      else if s = CHR ''d'' then 60 * 60 * 24 else if s = CHR ''M'' then 60 * 60 * 24 * 30
      else if s = CHR ''y'' then 60 * 60 * 24 * 365 else 1)"

text \<open>The digits are copied into a buffer of 256 bytes whose end is not checked. The product is
  computed in \<open>int\<close>; \<open>now\<close> is the clock.\<close>

definition expire_calc :: "int \<Rightarrow> bytes \<Rightarrow> int outcome" where
  "expire_calc now time_str =
     (let time_str = cstr time_str;
          c = byte0 time_str;
          digits = (\<lambda>is_neg s.
            let buf = takeWhile c_isdigit s; rest = dropWhile c_isdigit s;
                offset = c_int (strtol10 buf);
                seconds = expire_mult (byte0 rest) * (if is_neg then 0 - offset else offset)
            in if length buf + 1 > 256 then Fault OutOfBounds
               else if c_int seconds \<noteq> seconds then Fault IntOverflow
               else Ret (now + seconds))
      in if c = CHR ''-'' then digits True (tl time_str)
         else if c = CHR ''+'' then digits False (tl time_str)
         else if strcaseEQ time_str ''now'' then digits False time_str
         else Ret 0)"

section \<open>The decoder the loop refines\<close>

definition hex_value :: "bytes \<Rightarrow> int" where
  "hex_value ds =
     (if list_all c_isxdigit ds
      then foldl (\<lambda>x c. x * 16 + (if c_isdigit c then schar c - 48 else schar (lower c) - 97 + 10)) 0 ds
      else 0)"

text \<open>The result: the decoded bytes, whether a percent sign was not followed by two digits, whether a
  slash or NUL was decoded. A truncated \<open>%u\<close> sequence makes the loop step over the terminator.\<close>

fun unescape_u :: "bytes \<Rightarrow> (bytes \<times> bool \<times> bool) outcome" where
  "unescape_u [] = Ret ([], False, False)"
| "unescape_u (c # cs) =
     (if c \<noteq> CHR ''%'' then bindO (unescape_u cs) (\<lambda>(t, be, bp). Ret (c # t, be, bp))
      else (case cs of
         [] \<Rightarrow> bindO (unescape_u cs) (\<lambda>(t, be, bp). Ret (c # t, True, bp))
       | a # r \<Rightarrow>
           if a = CHR ''u'' \<or> a = CHR ''U'' then
             (case r of
                d1 # d2 # d3 # d4 # r' \<Rightarrow>
                  bindO (unescape_u r') (\<lambda>(t, be, bp). Ret (utf8_bytes (hex_value [d1, d2, d3, d4]) @ t, be, bp))
              | _ \<Rightarrow> Fault OutOfBounds)
           else if \<not> c_isxdigit a then bindO (unescape_u cs) (\<lambda>(t, be, bp). Ret (c # t, True, bp))
           else (case r of
                [] \<Rightarrow> bindO (unescape_u cs) (\<lambda>(t, be, bp). Ret (c # t, True, bp))
              | b # r' \<Rightarrow>
                  if \<not> c_isxdigit b then bindO (unescape_u cs) (\<lambda>(t, be, bp). Ret (c # t, True, bp))
                  else bindO (unescape_u r')
                    (\<lambda>(t, be, bp). Ret (x2c a b # t, be, bp \<or> x2c a b = CHR ''/'' \<or> x2c a b = NUL)))))"

lemma NUL_no_xdigit [simp]: "\<not> c_isxdigit NUL"
  by (simp add: c_isxdigit_def c_isdigit_def uchar_def)

lemma memcpy_window:
  assumes "length bs \<le> length mid"
  shows "memcpy_at (pre @ mid @ rest) (length pre) bs = Ret ((pre @ bs) @ drop (length bs) mid @ rest)"
  using assms by (simp add: memcpy_at_def)

lemma nth_window: "(pre @ junk @ w) ! (length pre + length junk + k) = w ! k"
  by (simp add: nth_append)

lemma utf8_bytes_length: "length (utf8_bytes c) \<le> 6"
  by (simp add: utf8_bytes_def Let_def)

lemma utf8_convert_safe:
  "(\<exists>k < n. pos + k < length url \<and> url ! (pos + k) = NUL) \<or> pos + n \<le> length url \<Longrightarrow>
   \<exists>url' c. utf8_convert n url pos x = Ret (url', c) \<and> length url' = length url"
proof (induction n arbitrary: url pos x)
  case (Suc n)
  have pos: "pos < length url" using Suc.prems by auto
  show ?case
  proof (cases "c_isxdigit (url ! pos)")
    case True
    then have ne: "url ! pos \<noteq> NUL" by auto
    have next_ok: "(\<exists>k < n. Suc pos + k < length u \<and> u ! (Suc pos + k) = NUL) \<or> Suc pos + n \<le> length u"
      if "u = url \<or> u = url[pos := l]" for u l
    proof -
      from Suc.prems consider k where "k < Suc n" "pos + k < length url" "url ! (pos + k) = NUL"
        | "Suc pos + n \<le> length url" by auto
      then show ?thesis
      proof cases
        case 1
        then have "k \<noteq> 0" using ne by (cases k) auto
        then obtain j where "k = Suc j" by (cases k) auto
        with 1 that show ?thesis by auto
      qed (use that in auto)
    qed
    show ?thesis
      using True pos Suc.IH [OF next_ok [of url]] Suc.IH [OF next_ok [OF disjI2 [OF refl]]]
      by (auto simp: Let_def)
  qed (use pos in \<open>simp add: Let_def\<close>)
qed simp

lemma utf8_convert_digits:
  "\<exists>ds'. utf8_convert (length ds) (p @ ds @ w) (length p) x
      = Ret (p @ ds' @ w, if list_all c_isxdigit ds
           then foldl (\<lambda>x c. x * 16 + (if c_isdigit c then schar c - 48 else schar (lower c) - 97 + 10)) x ds
           else 0)
    \<and> length ds' = length ds"
proof (induction ds arbitrary: p x)
  case (Cons d ds)
  show ?case
  proof (cases "c_isxdigit d")
    case False
    then show ?thesis by (simp add: Let_def)
  next
    case True
    define d' where "d' = (if c_isdigit d then d else lower d)"
    define x' where "x' = x * 16 + (if c_isdigit d then schar d - 48 else schar (lower d) - 97 + 10)"
    obtain ds' where "utf8_convert (length ds) ((p @ [d']) @ ds @ w) (length (p @ [d'])) x'
        = Ret ((p @ [d']) @ ds' @ w, if list_all c_isxdigit ds
             then foldl (\<lambda>x c. x * 16 + (if c_isdigit c then schar c - 48 else schar (lower c) - 97 + 10)) x' ds
             else 0)" "length ds' = length ds"
      using Cons.IH by blast
    then show ?thesis
      using True by (intro exI [of _ "d' # ds'"]) (auto simp: Let_def d'_def x'_def algebra_simps)
  qed
qed simp

text \<open>One turn of the loop: the bytes \<open>bs\<close> are written, \<open>mid\<close> is what lies between the write pointer
  and the new read pointer.\<close>

definition loop_at :: "bytes \<Rightarrow> bytes \<Rightarrow> bytes \<Rightarrow> bool \<Rightarrow> bool \<Rightarrow> (bytes \<times> int) outcome" where
  "loop_at pre junk s be bp =
     unescape_loop_u (pre @ junk @ s @ [NUL]) (length pre) (length pre + length junk) be bp"

lemma loop_write:
  assumes "length bs \<le> length mid" "n = length pre + length mid" "x = length pre + length bs"
  shows "bindO (memcpy_at (pre @ mid @ s @ [NUL]) (length pre) bs)
      (\<lambda>url. unescape_loop_u url x n be bp)
    = loop_at (pre @ bs) (drop (length bs) mid) s be bp"
proof -
  have "n = length (pre @ bs) + length (drop (length bs) mid)" using assms by simp
  then show ?thesis using assms(1,3) by (simp add: memcpy_window loop_at_def)
qed

lemma loop_end: "loop_at pre junk [] be bp
    = Ret (pre @ NUL # drop 1 (junk @ [NUL]), unescape_status be bp)"
  using memcpy_window [of "[NUL]" "junk @ [NUL]" pre "[]"]
  by (simp add: loop_at_def unescape_loop_u.simps)

lemma at_read:
  "(pre @ junk @ c # w) ! (length pre + length junk) = c"
  "(pre @ junk @ c # d # w) ! Suc (length pre + length junk) = d"
  "(pre @ junk @ c # d # e # w) ! Suc (Suc (length pre + length junk)) = e"
  using nth_window [of pre junk "c # w" 0] nth_window [of pre junk "c # d # w" 1]
    nth_window [of pre junk "c # d # e # w" 2]
  by simp_all

lemma loop_plain:
  assumes "c \<noteq> NUL" "c \<noteq> CHR ''%''"
  shows "loop_at pre junk (c # s) be bp = loop_at (pre @ [c]) (drop 1 (junk @ [c])) s be bp"
  using assms loop_write [of "[c]" "junk @ [c]" _ pre _ s be bp]
  by (simp add: loop_at_def [of pre junk] unescape_loop_u.simps [of "pre @ junk @ c # s @ [NUL]"] at_read)

lemma loop_bad_percent:
  assumes "s = [] \<or> hd s \<noteq> CHR ''u'' \<and> hd s \<noteq> CHR ''U''
      \<and> (\<not> c_isxdigit (hd s) \<or> tl s = [] \<or> \<not> c_isxdigit (hd (tl s)))"
  shows "loop_at pre junk (CHR ''%'' # s) be bp
    = loop_at (pre @ ''%'') (drop 1 (junk @ ''%'')) s True bp"
proof -
  have e: "pre @ junk @ CHR ''%'' # s @ [NUL] = pre @ (junk @ ''%'') @ s @ [NUL]" by simp
  have w: "bindO (memcpy_at (pre @ junk @ CHR ''%'' # s @ [NUL]) (length pre) ''%'')
      (\<lambda>url. unescape_loop_u url (Suc (length pre)) (Suc (length pre + length junk)) True bp)
    = loop_at (pre @ ''%'') (drop 1 (junk @ ''%'')) s True bp"
    unfolding e by (subst loop_write) simp_all
  consider "s = []" | a where "s = [a]" | a b r where "s = a # b # r"
    by (cases s rule: remdups_adj.cases) auto
  then have "loop_at pre junk (CHR ''%'' # s) be bp
      = bindO (memcpy_at (pre @ junk @ CHR ''%'' # s @ [NUL]) (length pre) ''%'')
      (\<lambda>url. unescape_loop_u url (Suc (length pre)) (Suc (length pre + length junk)) True bp)"
  proof cases
    case 1
    then show ?thesis
      unfolding loop_at_def
      by (subst unescape_loop_u.simps) (simp add: at_read)
  next
    case (2 a)
    then show ?thesis
      using assms unfolding loop_at_def
      by (subst unescape_loop_u.simps) (simp add: at_read)
  next
    case (3 a b r)
    then have "a \<noteq> CHR ''u''" "a \<noteq> CHR ''U''" "\<not> c_isxdigit a \<or> \<not> c_isxdigit b" using assms by simp_all
    then show ?thesis
      unfolding loop_at_def 3 by (subst unescape_loop_u.simps) (elim disjE; simp add: at_read)
  qed
  then show ?thesis using w by simp
qed

lemma loop_hex:
  assumes "c_isxdigit a" "c_isxdigit b"
  shows "loop_at pre junk (CHR ''%'' # a # b # s) be bp
    = loop_at (pre @ [x2c a b]) (drop 1 (junk @ [CHR ''%'', a, b])) s be
        (bp \<or> x2c a b = CHR ''/'' \<or> x2c a b = NUL)"
proof -
  have u: "a \<noteq> CHR ''u''" "a \<noteq> CHR ''U''"
    using assms(1) by (auto simp: c_isxdigit_def c_isdigit_def uchar_def)
  have e: "pre @ junk @ CHR ''%'' # a # b # s @ [NUL] = pre @ (junk @ [CHR ''%'', a, b]) @ s @ [NUL]"
    by simp
  have w: "bindO (memcpy_at (pre @ junk @ CHR ''%'' # a # b # s @ [NUL]) (length pre) [x2c a b])
      (\<lambda>url. unescape_loop_u url (Suc (length pre)) (length pre + length junk + 3) be bp')
    = loop_at (pre @ [x2c a b]) (drop 1 (junk @ [CHR ''%'', a, b])) s be bp'" for bp'
    unfolding e by (subst loop_write) simp_all
  show ?thesis
    using assms u w [of "bp \<or> x2c a b = CHR ''/'' \<or> x2c a b = NUL"]
    by (simp add: loop_at_def [of pre junk] unescape_loop_u.simps [of "pre @ junk @ _"] at_read Let_def)
qed

lemma loop_unicode:
  assumes "a = CHR ''u'' \<or> a = CHR ''U''"
  shows "\<exists>junk'. loop_at pre junk (CHR ''%'' # a # d1 # d2 # d3 # d4 # s) be bp
    = loop_at (pre @ utf8_bytes (hex_value [d1, d2, d3, d4])) junk' s be bp"
proof -
  let ?pre = "pre @ junk @ [CHR ''%'', a]" and ?bs = "utf8_bytes (hex_value [d1, d2, d3, d4])"
  obtain ds' where ds: "utf8_convert (length [d1, d2, d3, d4]) (?pre @ [d1, d2, d3, d4] @ s @ [NUL]) (length ?pre) 0
      = Ret (?pre @ ds' @ s @ [NUL], hex_value [d1, d2, d3, d4])" "length ds' = 4"
    using utf8_convert_digits [of "[d1, d2, d3, d4]" ?pre "s @ [NUL]" 0] by (auto simp: hex_value_def)
  let ?mid = "junk @ [CHR ''%'', a] @ ds'"
  have w: "bindO (memcpy_at (pre @ ?mid @ s @ [NUL]) (length pre) ?bs)
      (\<lambda>url. unescape_loop_u url (length pre + length ?bs) (length pre + length junk + 6) be bp)
    = loop_at (pre @ ?bs) (drop (length ?bs) ?mid) s be bp"
    using utf8_bytes_length [of "hex_value [d1, d2, d3, d4]"] ds(2) by (intro loop_write) simp_all
  show ?thesis
    using assms ds w
    by (intro exI [of _ "drop (length ?bs) ?mid"])
      (auto simp: loop_at_def [of pre junk] unescape_loop_u.simps [of "pre @ junk @ _"] at_read numeral_eq_Suc)
qed

lemma loop_unicode_short:
  assumes "a = CHR ''u'' \<or> a = CHR ''U''" "length r < 4" "NUL \<notin> set r"
  shows "loop_at pre junk (CHR ''%'' # a # r) be bp = Fault OutOfBounds"
proof -
  let ?url = "pre @ junk @ CHR ''%'' # a # r @ [NUL]" and ?pos = "length pre + length junk + 2"
  have "?url ! (?pos + length r) = NUL"
    using nth_window [of pre junk "CHR ''%'' # a # r @ [NUL]" "2 + length r"]
    by (simp add: nth_append add.assoc)
  then have "(\<exists>k < 4. ?pos + k < length ?url \<and> ?url ! (?pos + k) = NUL) \<or> ?pos + 4 \<le> length ?url"
    using assms(2) by (intro disjI1 exI [of _ "length r"]) simp
  then obtain url' c where u: "utf8_convert 4 ?url ?pos 0 = Ret (url', c)" "length url' = length ?url"
    using utf8_convert_safe by blast
  have f: "bindO (memcpy_at url' x bs) (\<lambda>url. unescape_loop_u url n (length pre + length junk + 6) be bp)
      = Fault OutOfBounds" if fits: "x + length bs \<le> length url'" for x bs n
  proof -
    obtain v where v: "memcpy_at url' x bs = Ret v" using fits by (simp add: memcpy_at_def)
    have len: "length v = length url'" using v by (rule memcpy_at_length)
    have "length v \<le> length pre + length junk + 6" using len u(2) assms(2) by simp
    then have "unescape_loop_u v n (length pre + length junk + 6) be bp = Fault OutOfBounds"
      by (subst unescape_loop_u.simps) simp
    then show ?thesis using v by simp
  qed
  show ?thesis
  proof (cases "length pre + length (utf8_bytes c) \<le> length url'")
    case True
    with f [OF True] u assms(1) show ?thesis
      by (auto simp: loop_at_def unescape_loop_u.simps [of "pre @ junk @ _"] at_read)
  next
    case False
    with u assms(1) show ?thesis
      by (auto simp: loop_at_def unescape_loop_u.simps [of "pre @ junk @ _"] at_read memcpy_at_def)
  qed
qed

text \<open>The loop on the array computes the decoder on the string, from any position of the two indices.\<close>

lemma four_bytes: "\<not> length r < 4 \<Longrightarrow> \<exists>d1 d2 d3 d4 r'. r = d1 # d2 # d3 # d4 # r'"
  by (auto simp: numeral_eq_Suc not_less Suc_le_length_iff)

lemma loop_refines:
  "NUL \<notin> set s \<Longrightarrow>
   case unescape_u s of
     Fault f \<Rightarrow> loop_at pre junk s be bp = Fault f
   | Fail e \<Rightarrow> False
   | Ret (t, be', bp') \<Rightarrow>
       \<exists>rest. loop_at pre junk s be bp = Ret (pre @ t @ NUL # rest, unescape_status (be \<or> be') (bp \<or> bp'))"
proof (induction "length s" arbitrary: s pre junk be bp rule: less_induct)
  case less
  have step: "case bindO (unescape_u s') (\<lambda>(t, be, bp). Ret (bs @ t, be \<or> e, bp \<or> p)) of
       Fault f \<Rightarrow> loop_at pre junk s be bp = Fault f
     | Fail e \<Rightarrow> False
     | Ret (t, be', bp') \<Rightarrow>
         \<exists>rest. loop_at pre junk s be bp = Ret (pre @ t @ NUL # rest, unescape_status (be \<or> be') (bp \<or> bp'))"
    if "loop_at pre junk s be bp = loop_at (pre @ bs) junk' s' (be \<or> e) (bp \<or> p)"
      "length s' < length s" "NUL \<notin> set s'" for s' bs junk' e p
    using less.hyps [OF that(2,3), of "pre @ bs" junk' "be \<or> e" "bp \<or> p"]
    by (cases "unescape_u s'") (auto simp: that(1) split: prod.splits, metis+)
  show ?case
  proof (cases s)
    case Nil
    then show ?thesis by (simp add: loop_end)
  next
    case (Cons c cs)
    note no = less.prems [unfolded Cons]
    have bad: ?thesis if "c = CHR ''%''" "cs = [] \<or> hd cs \<noteq> CHR ''u'' \<and> hd cs \<noteq> CHR ''U''
        \<and> (\<not> c_isxdigit (hd cs) \<or> tl cs = [] \<or> \<not> c_isxdigit (hd (tl cs)))"
    proof -
      have u: "unescape_u s = bindO (unescape_u cs) (\<lambda>(t, be, bp). Ret (''%'' @ t, be \<or> True, bp \<or> False))"
        using that Cons by (cases cs rule: remdups_adj.cases) auto
      show ?thesis
        unfolding u
        by (rule step [of "''%''" _ cs True False])
          (use that no Cons loop_bad_percent [OF that(2), of pre junk be bp] in auto)
    qed
    consider "c \<noteq> CHR ''%''" | "c = CHR ''%''" "cs = []"
      | a r where "c = CHR ''%''" "cs = a # r" "a = CHR ''u'' \<or> a = CHR ''U''"
      | a r where "c = CHR ''%''" "cs = a # r" "\<not> (a = CHR ''u'' \<or> a = CHR ''U'')"
      by (cases cs) auto
    then show ?thesis
    proof cases
      case 1
      have "unescape_u s = bindO (unescape_u cs) (\<lambda>(t, be, bp). Ret ([c] @ t, be \<or> False, bp \<or> False))"
        using 1 Cons by simp
      then show ?thesis
        by (simp only:) (rule step [of "[c]" _ cs False False]; use 1 no Cons loop_plain [of c pre junk cs be bp] in auto)
    next
      case 2
      then show ?thesis using bad by simp
    next
      case (3 a r)
      show ?thesis
      proof (cases "length r < 4")
        case True
        moreover have "unescape_u s = Fault OutOfBounds"
          using True 3 Cons by (auto simp: numeral_eq_Suc split: list.split)
        ultimately show ?thesis
          using loop_unicode_short [OF 3(3) True, of pre junk be bp] 3 Cons no by simp
      next
        case False
        then obtain d1 d2 d3 d4 r' where r: "r = d1 # d2 # d3 # d4 # r'"
          using four_bytes by blast
        let ?bs = "utf8_bytes (hex_value [d1, d2, d3, d4])"
        obtain junk' where l: "loop_at pre junk (CHR ''%'' # a # d1 # d2 # d3 # d4 # r') be bp
            = loop_at (pre @ ?bs) junk' r' be bp"
          using loop_unicode [OF 3(3)] by blast
        have "unescape_u s = bindO (unescape_u r') (\<lambda>(t, be, bp). Ret (?bs @ t, be \<or> False, bp \<or> False))"
          using 3 Cons r by auto
        then show ?thesis
          by (simp only:) (rule step [of ?bs junk' r' False False]; use 3 no Cons r l in auto)
      qed
    next
      case (4 a r)
      show ?thesis
      proof (cases "c_isxdigit a \<and> r \<noteq> [] \<and> c_isxdigit (hd r)")
        case True
        then obtain b r' where r: "r = b # r'" "c_isxdigit a" "c_isxdigit b" by (cases r) auto
        let ?p = "x2c a b = CHR ''/'' \<or> x2c a b = NUL"
        have "unescape_u s = bindO (unescape_u r') (\<lambda>(t, be, bp). Ret ([x2c a b] @ t, be \<or> False, bp \<or> ?p))"
          using 4 Cons r by simp
        then show ?thesis
          by (simp only:) (rule step [of "[x2c a b]" _ r' False ?p];
            use 4 no Cons r loop_hex [OF r(2,3), of pre junk r' be bp] in auto)
      next
        case False
        then show ?thesis using 4 bad by auto
      qed
    qed
  qed
qed

lemma ap_unescape_url_u_refines:
  "ap_unescape_url_u url =
     bindO (unescape_u (cstr url)) (\<lambda>(t, be, bp). Ret (cstr t, unescape_status be bp))"
proof -
  have e: "cstr (t @ NUL # rest) = cstr t" for t rest by (induction t) simp_all
  have "loop_at [] [] (cstr url) False False = unescape_loop_u (cstr url @ [NUL]) 0 0 False False"
    by (simp add: loop_at_def)
  then show ?thesis
    using loop_refines [of "cstr url" "[]" "[]" False False]
    by (cases "unescape_u (cstr url)") (auto simp: ap_unescape_url_u_def e)
qed

section \<open>Parsing undoes escaping\<close>

definition url_encode :: "bytes \<Rightarrow> bytes" where
  "url_encode s = concat (map escape_string_byte s)"

definition url_pair :: "bytes \<times> bytes \<Rightarrow> bytes" where
  "url_pair kv = url_encode (fst kv) @ ''='' @ url_encode (snd kv)"

definition query_string :: "bytes apr_table \<Rightarrow> bytes" where
  "query_string ps = join_with ''&'' (map url_pair ps)"

lemma x2c_digit_DigitToHex:
  assumes "0 \<le> n" "n < 16"
  shows "x2c_digit (Rivet_DigitToHex n) = n"
proof -
  consider "n < 10" | "n = 10" | "n = 11" | "n = 12" | "n = 13" | "n = 14" | "n = 15"
    using assms by linarith
  then show ?thesis
    using schar_DigitToHex [OF assms] assms by cases (simp_all add: x2c_digit_def)
qed

lemma xdigit_DigitToHex:
  assumes "0 \<le> n" "n < 16"
  shows "c_isxdigit (Rivet_DigitToHex n)"
proof -
  have s: "schar (Rivet_DigitToHex n) = (if n < 10 then n + 48 else n + 87)"
    using assms by (rule schar_DigitToHex)
  then have "uchar (Rivet_DigitToHex n) = (if n < 10 then n + 48 else n + 87)"
    using assms uchar_bounds [of "Rivet_DigitToHex n"] by (auto simp: schar_def split: if_splits)
  then show ?thesis using assms by (auto simp: c_isxdigit_def c_isdigit_def)
qed

lemma xdigit_no_u: "c_isxdigit c \<Longrightarrow> c \<noteq> CHR ''u'' \<and> c \<noteq> CHR ''U''"
  by (auto simp: c_isxdigit_def c_isdigit_def uchar_def)

lemma req_plustospace_append [simp]: "req_plustospace (s @ t) = req_plustospace s @ req_plustospace t"
  by (simp add: req_plustospace_def)

lemma unescape_u_encoded_byte:
  assumes "unescape_u rest = Ret (t, be, bp)"
  shows "\<exists>bp'. unescape_u (req_plustospace (escape_string_byte c) @ rest) = Ret (c # t, be, bp')"
proof -
  consider "c_isalnum c" | "c = CHR '' ''" | "\<not> c_isalnum c" "c \<noteq> CHR '' ''" by blast
  then show ?thesis
  proof cases
    case 1
    then show ?thesis
      using assms alnum_plain [of c] by (simp add: escape_string_byte_def req_plustospace_def)
  next
    case 2
    then show ?thesis
      using assms by (simp add: escape_string_byte_def req_plustospace_def c_isalnum_def)
  next
    case 3
    let ?a = "take_bit 4 (drop_bit 4 (schar c))" and ?b = "take_bit 4 (schar c)"
    have p: "Rivet_DigitToHex ?a \<noteq> CHR ''+''" "Rivet_DigitToHex ?b \<noteq> CHR ''+''"
      using alnum_plain [OF DigitToHex_alnum [OF nibble_bounds]] by blast+
    have x: "c_isxdigit (Rivet_DigitToHex ?a)" "c_isxdigit (Rivet_DigitToHex ?b)"
      by (rule xdigit_DigitToHex [OF nibble_bounds])+
    have "x2c (Rivet_DigitToHex ?a) (Rivet_DigitToHex ?b) = c"
      by (simp add: x2c_def x2c_digit_DigitToHex nibble_bounds nibbles)
    then show ?thesis
      using 3 p x xdigit_no_u [OF x(1)] assms by (simp add: escape_string_byte_def req_plustospace_def)
  qed
qed

lemma unescape_u_encoded: "\<exists>bp. unescape_u (req_plustospace (url_encode s)) = Ret (s, False, bp)"
proof (induction s)
  case Nil
  show ?case by (rule exI [of _ False]) (simp add: url_encode_def req_plustospace_def)
next
  case (Cons c s)
  then obtain bp where "unescape_u (req_plustospace (url_encode s)) = Ret (s, False, bp)" by blast
  from unescape_u_encoded_byte [OF this, of c] show ?case by (simp add: url_encode_def)
qed

lemma url_encode_chars:
  "d \<in> set (url_encode s) \<Longrightarrow> c_isalnum d \<or> d = CHR ''%'' \<or> d = CHR ''+''"
  using escape_string_byte_alphabet by (auto simp: url_encode_def)

lemma url_encode_plain:
  "d \<in> set (url_encode s) \<Longrightarrow> d \<noteq> CHR ''='' \<and> d \<noteq> CHR ''&'' \<and> d \<noteq> CHR '';'' \<and> d \<noteq> NUL"
  using url_encode_chars [of d s] by (auto simp: c_isalnum_def less_eq_char_def)

lemma decode_word_encoded: "NUL \<notin> set s \<Longrightarrow> decode_word (url_encode s) = Ret s"
proof -
  assume s: "NUL \<notin> set s"
  have "NUL \<notin> set (req_plustospace (url_encode s))"
    using url_encode_plain [of NUL s] by (auto simp: req_plustospace_def)
  then have "cstr (req_plustospace (url_encode s)) = req_plustospace (url_encode s)" by (rule cstr_id)
  then show ?thesis
    using unescape_u_encoded [of s] s
    by (auto simp: decode_word_def ap_unescape_url_u_refines cstr_id)
qed

lemma takeWhile_stop: "(\<And>d. d \<in> set w \<Longrightarrow> P d) \<Longrightarrow> \<not> P c \<Longrightarrow> takeWhile P (w @ c # r) = w"
  by (induction w) auto

lemma dropWhile_stop: "(\<And>d. d \<in> set w \<Longrightarrow> P d) \<Longrightarrow> \<not> P c \<Longrightarrow> dropWhile P (w @ c # r) = c # r"
  by (induction w) auto

lemma url_pair_chars:
  "d \<in> set (url_pair kv) \<Longrightarrow> d \<noteq> CHR ''&'' \<and> d \<noteq> CHR '';'' \<and> d \<noteq> NUL"
  using url_encode_plain by (auto simp: url_pair_def)

lemma url_pair_ne: "url_pair kv \<noteq> []"
  by (simp add: url_pair_def)

lemma my_urlword_last: "my_urlword (url_pair kv) = (url_pair kv, [])"
proof -
  have "takeWhile (\<lambda>ch. \<not> (ch = CHR '';'' \<or> ch = CHR ''&'')) (url_pair kv) = url_pair kv"
    "dropWhile (\<lambda>ch. \<not> (ch = CHR '';'' \<or> ch = CHR ''&'')) (url_pair kv) = []"
    using url_pair_chars by (auto simp: takeWhile_eq_all_conv)
  then show ?thesis by (simp only: my_urlword_def Let_def) simp
qed

lemma my_urlword_next:
  assumes "rest \<noteq> []" "hd rest \<noteq> CHR ''&''" "hd rest \<noteq> CHR '';''"
  shows "my_urlword (url_pair kv @ ''&'' @ rest) = (url_pair kv, rest)"
proof -
  let ?P = "\<lambda>ch. \<not> (ch = CHR '';'' \<or> ch = CHR ''&'')"
  have "takeWhile ?P (url_pair kv @ CHR ''&'' # rest) = url_pair kv"
    by (rule takeWhile_stop) (use url_pair_chars in auto)
  moreover have "dropWhile ?P (url_pair kv @ CHR ''&'' # rest) = CHR ''&'' # rest"
    by (rule dropWhile_stop) (use url_pair_chars in auto)
  moreover have "dropWhile (\<lambda>ch. ch = CHR '';'' \<or> ch = CHR ''&'') (CHR ''&'' # rest) = rest"
    using assms by (cases rest) auto
  ultimately show ?thesis by (simp only: my_urlword_def Let_def) simp
qed

lemma getword_pair:
  assumes "apr_laws lib"
  shows "ap_getword lib (url_pair kv) CHR ''='' = (url_encode (fst kv), url_encode (snd kv))"
proof -
  have p: "url_pair kv = url_encode (fst kv) @ CHR ''='' # url_encode (snd kv)" by (simp add: url_pair_def)
  have "dropWhile (\<lambda>x. x = CHR ''='') (url_encode (snd kv)) = url_encode (snd kv)"
    using url_encode_plain [of "hd (url_encode (snd kv))" "snd kv"] by (cases "url_encode (snd kv)") auto
  then show ?thesis
    using assms url_encode_plain unfolding p apr_laws_def
    by (simp add: takeWhile_stop dropWhile_stop)
qed

lemma hd_url_pair: "hd (url_pair kv @ r) \<noteq> CHR ''&'' \<and> hd (url_pair kv @ r) \<noteq> CHR '';''"
proof -
  have "hd (url_pair kv) \<in> set (url_pair kv)" using url_pair_ne by (rule hd_in_set)
  then show ?thesis using url_pair_chars [of "hd (url_pair kv)" kv] url_pair_ne by (simp add: hd_append)
qed

lemma split_loop_query:
  assumes "apr_laws lib"
  shows "list_all (\<lambda>(k, v). NUL \<notin> set k \<and> NUL \<notin> set v) ps \<Longrightarrow>
    split_loop lib (query_string ps) table = Ret (table @ ps)"
proof (induction ps arbitrary: table rule: induct_list012)
  case 1
  then show ?case by (subst split_loop.simps) (simp add: query_string_def)
next
  case (2 kv)
  have z: "split_loop lib [] t = Ret t" for t by (subst split_loop.simps) simp
  from 2 show ?case
    using assms my_urlword_last [of kv] getword_pair [OF assms, of kv] url_pair_ne [of kv]
    by (subst split_loop.simps)
      (auto simp: query_string_def decode_word_encoded z apr_laws_def split: prod.splits)
next
  case (3 kv1 kv2 ps)
  let ?rest = "query_string (kv2 # ps)"
  have r: "?rest \<noteq> [] \<and> hd ?rest \<noteq> CHR ''&'' \<and> hd ?rest \<noteq> CHR '';''"
    using url_pair_ne [of kv2] hd_url_pair [of kv2] hd_url_pair [of kv2 "[]"]
    by (cases ps) (simp_all add: query_string_def)
  have q: "query_string (kv1 # kv2 # ps) = url_pair kv1 @ ''&'' @ ?rest" by (simp add: query_string_def)
  have "split_loop lib (query_string (kv1 # kv2 # ps)) table = split_loop lib ?rest (table @ [kv1])"
    using "3.prems" assms my_urlword_next [of ?rest kv1] r getword_pair [OF assms, of kv1] url_pair_ne [of kv1]
    unfolding q
    by (subst split_loop.simps) (auto simp: decode_word_encoded apr_laws_def split: prod.splits)
  then show ?case using "3.IH"(2) [of "table @ [kv1]"] "3.prems" by simp
qed

lemma query_string_no_NUL: "NUL \<notin> set (query_string ps)"
proof (induction ps rule: induct_list012)
  case (3 x y zs)
  then show ?case using url_pair_chars [of NUL x] by (auto simp: query_string_def)
qed (use url_pair_chars in \<open>auto simp: query_string_def\<close>)

section \<open>Reading the body\<close>

text \<open>The bytes the client delivers: the blocks up to the first read error or empty block.\<close>

definition delivered :: "bytes option list \<Rightarrow> bytes" where
  "delivered blocks = concat (map the (takeWhile (\<lambda>b. b \<noteq> None \<and> b \<noteq> Some []) blocks))"

lemma delivered_simps [simp]:
  "delivered [] = []"
  "delivered (b # bs) = (if b = None \<or> b = Some [] then [] else the b @ delivered bs)"
  by (simp_all add: delivered_def)

lemma read_blocks_spec:
  assumes "0 \<le> len" "pos \<le> nat len" "length rbuf = nat len + 1"
  shows "read_blocks blocks (int pos) rbuf len =
    (let data = take (nat len - pos) (delivered blocks)
     in Ret (take pos rbuf @ data @ drop (pos + length data) rbuf))"
  using assms(2,3)
proof (induction blocks arbitrary: pos rbuf)
  case Nil
  then show ?case by simp
next
  case (Cons b bs)
  show ?case
  proof (cases "b = None \<or> b = Some []")
    case True
    then show ?thesis by (auto split: option.split)
  next
    case False
    then obtain buff where b: "b = Some buff" "buff \<noteq> []" by auto
    define k where "k = min (length buff) (nat len - pos)"
    define rsize where "rsize = (if int pos + int (length buff) > len then len - int pos else int (length buff))"
    have k: "rsize = int k" "pos + k \<le> nat len"
      using assms(1) Cons.prems(1) by (auto simp: k_def rsize_def)
    let ?r = "take pos rbuf @ take k buff @ drop (pos + k) rbuf"
    have c: "memcpy_at rbuf pos (take k buff) = Ret ?r"
      using k(2) Cons.prems(2) by (auto simp: memcpy_at_def k_def)
    have len: "length ?r = nat len + 1" using Cons.prems(2) k(2) by (auto simp: k_def)
    have "read_blocks (b # bs) (int pos) rbuf len = read_blocks bs (int (pos + k)) ?r len"
      using b c k(1) by (simp add: Let_def flip: rsize_def)
    also have "\<dots> = (let data = take (nat len - (pos + k)) (delivered bs)
        in Ret (take (pos + k) ?r @ data @ drop (pos + k + length data) ?r))"
      using Cons.IH [OF k(2) len] .
    finally have r: "read_blocks (b # bs) (int pos) rbuf len
      = (let data = take (nat len - (pos + k)) (delivered bs)
        in Ret (take (pos + k) ?r @ data @ drop (pos + k + length data) ?r))" .
    have kb: "length (take k buff) = k" "k \<le> length buff" by (simp_all add: k_def)
    have t: "take (nat len - pos) (buff @ delivered bs)
        = take k buff @ take (nat len - (pos + k)) (delivered bs)"
      by (cases "length buff \<le> nat len - pos") (simp_all add: k_def)
    have p: "length (take pos rbuf) = pos" using Cons.prems by simp
    show ?thesis
      unfolding r using b t p kb by (simp add: Let_def take_append drop_append ac_simps)
  qed
qed

lemma util_read_spec:
  assumes "setup_client_block cl = HTTP_OK" "should_client_block cl" "0 \<le> remaining cl"
    "\<not> (remaining cl > post_max req \<and> post_max req > 0)"
  shows "util_read cl req =
    (let data = take (nat (remaining cl)) (delivered (client_blocks cl))
     in Ret (HTTP_OK, Some (data @ replicate (nat (remaining cl) + 1 - length data) NUL, remaining cl)))"
proof -
  have "nat (remaining cl + 1) = nat (remaining cl) + 1" using assms(3) by simp
  then show ?thesis
    using assms read_blocks_spec [of "remaining cl" 0 "replicate (nat (remaining cl) + 1) NUL" "client_blocks cl"]
    by (simp add: util_read_def Let_def del: replicate_Suc add_Suc_right Suc_eq_plus1 flip: replicate_Suc)
qed

section \<open>Properties\<close>

text \<open>C7: a query string or form body written with \<open>escape_string\<close> is parsed back into the same
  names and values, in order, behind the parameters already in the table, for any bytes but NUL.\<close>

theorem split_to_parms_query:
  assumes "apr_laws lib" "list_all (\<lambda>(k, v). NUL \<notin> set k \<and> NUL \<notin> set v) ps"
  shows "split_to_parms lib req (query_string ps) = Ret (req\<lparr>parms := parms req @ ps\<rparr>)"
  using assms
  by (simp add: split_to_parms_def cstr_id [OF query_string_no_NUL] split_loop_query)

definition demo_apr :: apr_lib where
  "demo_apr = \<lparr> apr_table_get = \<lambda>t k. map_of t k,
     apr_table_set = \<lambda>t k v. filter (\<lambda>e. fst e \<noteq> k) t @ [(k, v)],
     apr_table_add = \<lambda>t k v. t @ [(k, v)], apr_table_unset = \<lambda>t k. filter (\<lambda>e. fst e \<noteq> k) t,
     ap_getword = \<lambda>line c. (takeWhile (\<lambda>x. x \<noteq> c) line, dropWhile (\<lambda>x. x = c) (dropWhile (\<lambda>x. x \<noteq> c) line)),
     ap_getword_conf = \<lambda>line. (line, []), ap_find_path_info = \<lambda>u i. length u - length i,
     ap_make_dirstr_parent = \<lambda>s. s \<rparr>"

definition demo_request :: "http_method \<Rightarrow> bytes option \<Rightarrow> request_rec" where
  "demo_request m a = \<lparr> uri = ''/a'', path_info = None, filename = ''/srv/a'', args = a,
     method_number = m, headers_in = [], header_only = False, finfo_ctime = 1, finfo_mtime = 2,
     request_hostname = Some ''h'',
     r_handler = Some RIVET_TEMPLATE_CTYPE, finfo_exists = True, per_dir_config = None,
     r_server = \<lparr> server_hostname = Some ''h'', error_fname = Some ''/log'', server_admin = None,
       server_path = None, is_virtual = 0, log_level = 4, module_config = RIVET_NEW_CONF \<rparr> \<rparr>"

definition demo_req :: "request_rec \<Rightarrow> apache_request" where
  "demo_req r = \<lparr> status = 0, parms = [], upload = [], post_max = - 1, disable_uploads = False,
     has_upload_hook = False, temp_dir = None, raw_post = None, raw_length = 0, parsed = False,
     nargs = 0, req_r = r \<rparr>"

lemma demo_apr_laws: "apr_laws demo_apr"
  by (simp add: apr_laws_def demo_apr_def)

lemma split_to_parms_query_witness:
  "split_to_parms demo_apr (demo_req (demo_request M_GET None))
      (query_string [(''a b'', ''1&2=%u''), ([], [CHR 0xFF])])
    = Ret ((demo_req (demo_request M_GET None))\<lparr>parms := parms (demo_req (demo_request M_GET None))
        @ [(''a b'', ''1&2=%u''), ([], [CHR 0xFF])]\<rparr>)"
  by (rule split_to_parms_query [OF demo_apr_laws]) simp

text \<open>C15: the in-place routine, whose write index runs behind its read index in one array, computes
  the decoder on lists for every string: same bytes up to the first NUL, same status, and it steps
  over the terminator exactly when the decoder meets a truncated \<open>%u\<close> sequence.\<close>

theorem ap_unescape_url_u_correct:
  "ap_unescape_url_u url =
     bindO (unescape_u (cstr url)) (\<lambda>(t, be, bp). Ret (cstr t, unescape_status be bp))"
  by (rule ap_unescape_url_u_refines)

lemma truncated_unicode_escape: "ap_unescape_url_u ''%u41'' = Fault OutOfBounds"
  by (simp add: ap_unescape_url_u_correct)

text \<open>C31: reading a body never writes outside the buffer of the declared length, however the client
  cuts its data into blocks and however much it sends: the buffer holds the delivered bytes cut at
  the declared length, padded with NUL bytes, and always ends in one.\<close>

theorem util_read_bounded:
  assumes "setup_client_block cl = HTTP_OK" "should_client_block cl" "0 \<le> remaining cl"
    "\<not> (remaining cl > post_max req \<and> post_max req > 0)"
  shows "\<exists>rbuf. util_read cl req = Ret (HTTP_OK, Some (rbuf, remaining cl))
    \<and> length rbuf = nat (remaining cl) + 1 \<and> last rbuf = NUL
    \<and> (let data = take (nat (remaining cl)) (delivered (client_blocks cl))
       in take (length data) rbuf = data \<and> set (drop (length data) rbuf) = {NUL})"
proof -
  define data where "data = take (nat (remaining cl)) (delivered (client_blocks cl))"
  define k where "k = nat (remaining cl) + 1 - length data"
  have n: "length data \<le> nat (remaining cl)" by (simp add: data_def)
  then have k: "0 < k" "length data + k = nat (remaining cl) + 1" by (simp_all add: k_def)
  have "util_read cl req = Ret (HTTP_OK, Some (data @ replicate k NUL, remaining cl))"
    using util_read_spec [OF assms] by (simp only: Let_def flip: data_def k_def)
  moreover have "last (data @ replicate k NUL) = NUL" using k(1) by (simp add: last_append)
  moreover have "set (drop (length data) (data @ replicate k NUL)) = {NUL}" using k(1) by simp
  ultimately show ?thesis
    using k(2) by (simp only: Let_def flip: data_def) simp
qed

lemma util_read_bounded_witness:
  "\<exists>rbuf. util_read \<lparr>setup_client_block = 0, should_client_block = True, remaining = 4,
        client_blocks = [Some ''abc'', Some ''de'', None]\<rparr> (demo_req (demo_request M_POST None))
      = Ret (HTTP_OK, Some (rbuf, remaining \<lparr>setup_client_block = 0, should_client_block = True, remaining = 4,
        client_blocks = [Some ''abc'', Some ''de'', None]\<rparr>))
    \<and> length rbuf = nat (remaining \<lparr>setup_client_block = 0, should_client_block = True, remaining = 4,
        client_blocks = [Some ''abc'', Some ''de'', None]\<rparr>) + 1 \<and> last rbuf = NUL
    \<and> (let data = take (nat (remaining \<lparr>setup_client_block = 0, should_client_block = True, remaining = 4,
        client_blocks = [Some ''abc'', Some ''de'', None]\<rparr>)) (delivered (client_blocks
          \<lparr>setup_client_block = 0, should_client_block = True, remaining = 4,
            client_blocks = [Some ''abc'', Some ''de'', None]\<rparr>))
       in take (length data) rbuf = data \<and> set (drop (length data) rbuf) = {NUL})"
  by (rule util_read_bounded) (simp_all add: HTTP_OK_def demo_req_def)

text \<open>More than 255 digits in an expiry time overrun the buffer of \<open>expire_calc\<close>.\<close>

lemma expire_calc_overrun:
  assumes "list_all c_isdigit ds" "256 \<le> length ds"
  shows "expire_calc now (CHR ''+'' # ds) = Fault OutOfBounds"
proof -
  have d: "takeWhile c_isdigit ds = ds" using assms(1) by (simp add: takeWhile_eq_all_conv list_all_iff)
  have "NUL \<notin> set ds" using assms(1) by (auto simp: list_all_iff c_isdigit_def uchar_def)
  then have "cstr ds = ds" by (rule cstr_id)
  moreover have "256 \<le> length (takeWhile c_isdigit ds)" using assms(2) by (simp only: d)
  ultimately show ?thesis by (simp add: expire_calc_def Let_def)
qed

end
