(* ===== verification/Rivet_Multipart.thy ===== *)
theory Rivet_Multipart
  imports Rivet_Request
begin

text \<open>
  src/src/request/apache_multipart_buffer.c and the multipart parser of
  src/src/request/apache_request.c: the sliding buffer over the client's data, the line reader, the
  search for the boundary, the parts with their headers, and \<open>ApacheRequest___parse\<close> on top. The
  buffer is the array of \<open>bufsize + 1\<close> bytes with a window of \<open>bytes_in_buffer\<close> bytes at \<open>buf_begin\<close>;
  the answers of \<open>ap_get_client_block\<close> are a list. The loops get a number of turns as fuel.
\<close>

section \<open>The buffer\<close>

text \<open>An answer of \<open>ap_get_client_block\<close> is a block (or a read error) and the value httpd leaves in
  \<open>r->remaining\<close>. \<open>buf_begin\<close> is NULL after a line that filled the whole buffer.\<close>

record multipart_buffer =
  mp_buffer :: bytes
  buf_begin :: "nat option"
  bufsize :: int
  bytes_in_buffer :: int
  mp_boundary :: bytes
  boundary_next :: bytes
  mp_remaining :: int
  mp_answers :: "(bytes option \<times> int) list"

definition FILLUNIT :: nat where "FILLUNIT = 1024 * 8"

definition multipart_buffer_new :: "bytes \<Rightarrow> int \<Rightarrow> (bytes option \<times> int) list \<Rightarrow> multipart_buffer" where
  "multipart_buffer_new boundary length_left answers =
     (let minsize = length (cstr boundary) + 6;
          minsize = (if minsize < FILLUNIT then FILLUNIT else minsize)
      in \<lparr> mp_buffer = replicate (minsize + 1) NUL, buf_begin = Some 0, bufsize = int minsize,
           bytes_in_buffer = 0, mp_boundary = ''--'' @ cstr boundary,
           boundary_next = LF # ''--'' @ cstr boundary, mp_remaining = length_left,
           mp_answers = answers \<rparr>)"

text \<open>One call of \<open>ap_get_client_block\<close> for at most \<open>n\<close> bytes.\<close>

definition get_client_block :: "multipart_buffer \<Rightarrow> nat \<Rightarrow> multipart_buffer \<times> bytes option" where
  "get_client_block self n =
     (case mp_answers self of
        [] \<Rightarrow> (self, Some [])
      | (block, rem) # rest \<Rightarrow>
          (self\<lparr>mp_answers := rest, mp_remaining := rem\<rparr>, map_option (take n) block))"

definition fill_buffer :: "multipart_buffer \<Rightarrow> (multipart_buffer \<times> int) outcome" where
  "fill_buffer self =
     bindO
       (if bytes_in_buffer self > 0 \<and> buf_begin self \<noteq> Some 0 then
          (case buf_begin self of
             None \<Rightarrow> Fault NullDeref
           | Some b \<Rightarrow>
               let n = nat (bytes_in_buffer self) in
               if b + n > length (mp_buffer self) then Fault OutOfBounds
               else Ret (self\<lparr>mp_buffer := take n (drop b (mp_buffer self)) @ drop n (mp_buffer self)\<rparr>))
        else Ret self)
       (\<lambda>self.
          let self = self\<lparr>buf_begin := Some 0\<rparr>;
              bytes_to_read = bufsize self - bytes_in_buffer self;
              bytes_to_read =
                (if bytes_to_read \<ge> mp_remaining self
                 then c_int (mp_remaining self - int (length (mp_boundary self)))
                 else bytes_to_read)
          in if bytes_to_read > 0 then
               (case get_client_block self (nat bytes_to_read) of
                  (self, None) \<Rightarrow> Ret (self, - 1)
                | (self, Some data) \<Rightarrow>
                    bindO (memcpy_at (mp_buffer self) (nat (bytes_in_buffer self)) data)
                      (\<lambda>buf. Ret (self\<lparr>mp_buffer := buf,
                                       bytes_in_buffer := bytes_in_buffer self + int (length data)\<rparr>,
                                  int (length data))))
             else Ret (self, 0))"

text \<open>The bytes of the window and the position of the first line feed in it.\<close>

definition window :: "multipart_buffer \<Rightarrow> bytes" where
  "window self = (case buf_begin self of None \<Rightarrow> []
     | Some b \<Rightarrow> take (nat (bytes_in_buffer self)) (drop b (mp_buffer self)))"

definition memchr :: "char \<Rightarrow> bytes \<Rightarrow> nat option" where
  "memchr c w = (let i = length (takeWhile (\<lambda>x. x \<noteq> c) w) in if i < length w then Some i else None)"

definition next_line :: "multipart_buffer \<Rightarrow> (multipart_buffer \<times> bytes option) outcome" where
  "next_line self =
     (case memchr LF (window self) of
        Some i \<Rightarrow>
          (case buf_begin self of
             None \<Rightarrow> Fault NullDeref
           | Some b \<Rightarrow>
               let cut = (if i > 0 \<and> window self ! (i - 1) = CR then b + i - 1 else b + i);
                   buf = (mp_buffer self)[cut := NUL]
               in Ret (self\<lparr>mp_buffer := buf, buf_begin := Some (b + i + 1),
                            bytes_in_buffer := bytes_in_buffer self - int (i + 1)\<rparr>,
                       Some (cstr (drop b buf))))
      | None \<Rightarrow>
          if bytes_in_buffer self < bufsize self then Ret (self, None)
          else (case buf_begin self of
             None \<Rightarrow> Fault NullDeref
           | Some b \<Rightarrow>
               if b + nat (bufsize self) \<ge> length (mp_buffer self) then Fault OutOfBounds
               else let buf = (mp_buffer self)[b + nat (bufsize self) := NUL]
                 in Ret (self\<lparr>mp_buffer := buf, buf_begin := None, bytes_in_buffer := 0\<rparr>,
                         Some (cstr (drop b buf)))))"

definition get_line :: "multipart_buffer \<Rightarrow> (multipart_buffer \<times> bytes option) outcome" where
  "get_line self =
     bindO (next_line self)
       (\<lambda>(self, line).
          if line = None then bindO (fill_buffer self) (\<lambda>(self, _). next_line self)
          else Ret (self, line))"

fun find_boundary :: "nat \<Rightarrow> multipart_buffer \<Rightarrow> bytes \<Rightarrow> (multipart_buffer \<times> bool) outcome" where
  "find_boundary 0 self boundary = Fault OutOfFuel"
| "find_boundary (Suc fuel) self boundary =
     bindO (get_line self)
       (\<lambda>(self, line). case line of
          None \<Rightarrow> Ret (self, False)
        | Some l \<Rightarrow> if l = boundary then Ret (self, True) else find_boundary fuel self boundary)"

text \<open>A header line is cut at its first colon; the white space behind it is skipped.\<close>

definition header_pair :: "bytes \<Rightarrow> bytes \<times> bytes" where
  "header_pair line =
     (let key = takeWhile (\<lambda>c. c \<noteq> CHR '':'') line; rest = dropWhile (\<lambda>c. c \<noteq> CHR '':'') line
      in (key, if rest = [] then [] else dropWhile c_isspace (tl rest)))"

fun header_lines ::
  "apr_lib \<Rightarrow> nat \<Rightarrow> multipart_buffer \<Rightarrow> bytes apr_table \<Rightarrow> (multipart_buffer \<times> bytes apr_table) outcome" where
  "header_lines lib 0 self tab = Fault OutOfFuel"
| "header_lines lib (Suc fuel) self tab =
     bindO (get_line self)
       (\<lambda>(self, line). case line of
          None \<Rightarrow> Ret (self, tab)
        | Some l \<Rightarrow>
            if length l = 0 then Ret (self, tab)
            else header_lines lib fuel self
                   (apr_table_add lib tab (fst (header_pair l)) (snd (header_pair l))))"

definition multipart_buffer_headers ::
  "apr_lib \<Rightarrow> nat \<Rightarrow> multipart_buffer \<Rightarrow> (multipart_buffer \<times> bytes apr_table option) outcome" where
  "multipart_buffer_headers lib fuel self =
     bindO (find_boundary fuel self (mp_boundary self))
       (\<lambda>(self, found).
          if \<not> found then Ret (self, None)
          else bindO (header_lines lib fuel self []) (\<lambda>(self, tab). Ret (self, Some tab)))"

text \<open>\<open>my_memstr\<close>: \<open>len\<close> bytes are left at \<open>ptr\<close>. \<open>memcmp\<close> reads the whole needle's length from \<open>ptr\<close>,
  which must lie inside the allocated array.\<close>

fun my_memstr :: "bytes \<Rightarrow> nat \<Rightarrow> nat \<Rightarrow> bytes \<Rightarrow> bool \<Rightarrow> nat option outcome" where
  "my_memstr mem ptr 0 needle partial = Ret None"
| "my_memstr mem ptr (Suc len) needle partial =
     (if ptr \<ge> length mem then Fault OutOfBounds
      else if mem ! ptr \<noteq> byte0 needle then my_memstr mem (ptr + 1) len needle partial
      else if ptr + length needle > length mem then Fault OutOfBounds
      else if take (length needle) (drop ptr mem) = needle \<and> (partial \<or> Suc len \<ge> length needle)
      then Ret (Some ptr)
      else my_memstr mem (ptr + 1) len needle partial)"

text \<open>The result: the bytes read into the caller's buffer of \<open>bytes\<close> bytes.\<close>

definition multipart_buffer_read :: "multipart_buffer \<Rightarrow> int \<Rightarrow> (multipart_buffer \<times> bytes) outcome" where
  "multipart_buffer_read self bytes =
     bindO (if bytes > bytes_in_buffer self then bindO (fill_buffer self) (\<lambda>(self, _). Ret self)
            else Ret self)
       (\<lambda>self. case buf_begin self of
          None \<Rightarrow> Fault NullDeref
        | Some b \<Rightarrow>
            bindO (my_memstr (mp_buffer self) b (nat (bytes_in_buffer self)) (boundary_next self) True)
              (\<lambda>bound.
                 let mx = (case bound of Some p \<Rightarrow> int p - int b | None \<Rightarrow> bytes_in_buffer self);
                     len = min mx (bytes - 1);
                     data = take (nat len) (drop b (mp_buffer self));
                     data = (if bound \<noteq> None \<and> data \<noteq> [] \<and> last data = CR then butlast data else data)
                 in Ret (self\<lparr>bytes_in_buffer := bytes_in_buffer self - int (length data),
                              buf_begin := Some (b + length data)\<rparr>, data)))"

text \<open>The body of a small part is the concatenation of C strings.\<close>

fun read_body :: "nat \<Rightarrow> multipart_buffer \<Rightarrow> bytes \<Rightarrow> (multipart_buffer \<times> bytes) outcome" where
  "read_body 0 self out = Fault OutOfFuel"
| "read_body (Suc fuel) self out =
     bindO (multipart_buffer_read self (int FILLUNIT))
       (\<lambda>(self, data). if data = [] then Ret (self, out) else read_body fuel self (out @ cstr data))"

definition multipart_buffer_read_body :: "nat \<Rightarrow> multipart_buffer \<Rightarrow> (multipart_buffer \<times> bytes) outcome" where
  "multipart_buffer_read_body fuel self = read_body fuel self []"

definition multipart_buffer_eof :: "multipart_buffer \<Rightarrow> (multipart_buffer \<times> bool) outcome" where
  "multipart_buffer_eof self =
     (if bytes_in_buffer self = 0
      then bindO (fill_buffer self) (\<lambda>(self, n). Ret (self, n < 1))
      else Ret (self, False))"

section \<open>The multipart parser\<close>

text \<open>What the parser calls outside: the temporary file of the n-th upload (\<open>None\<close> when it cannot be
  made) and the success of a write. The client side is the answers of the calls.\<close>

record upload_env =
  tmpfile :: "nat \<Rightarrow> bytes option"
  write_ok :: "nat \<Rightarrow> bytes \<Rightarrow> bool"

record mp_client =
  mc_setup :: int
  mc_should :: bool
  mc_remaining :: int
  mc_answers :: "(bytes option \<times> int) list"

text \<open>The search for the word before \<open>boundary=\<close> in the content type.\<close>

fun boundary_word :: "apr_lib \<Rightarrow> nat \<Rightarrow> bytes \<Rightarrow> bytes option outcome" where
  "boundary_word lib 0 ct = Fault OutOfFuel"
| "boundary_word lib (Suc fuel) ct =
     (let (boundary, ct) = ap_getword lib ct CHR ''=''; blen = length boundary in
      if blen = 0 \<or> blen < 8 then Ret None
      else if strcaseEQ (drop (blen - 8) boundary) ''boundary'' then Ret (Some ct)
      else boundary_word lib fuel ct)"

text \<open>The attributes of a content disposition: the last \<open>name\<close> and \<open>filename\<close>.\<close>

fun disposition_pairs ::
  "apr_lib \<Rightarrow> nat \<Rightarrow> bytes \<Rightarrow> bytes option \<Rightarrow> bytes option \<Rightarrow> (bytes option \<times> bytes option) outcome" where
  "disposition_pairs lib 0 cd param fname = Fault OutOfFuel"
| "disposition_pairs lib (Suc fuel) cd param fname =
     (if cd = [] then Ret (param, fname)
      else
        let (pair, cd) = ap_getword lib cd CHR '';'';
            cd = dropWhile c_isspace cd
        in if CHR ''='' \<in> set pair then
             let (key, pair) = ap_getword lib pair CHR ''='' in
             if strcaseEQ key ''name''
             then disposition_pairs lib fuel cd (Some (fst (ap_getword_conf lib pair))) fname
             else if strcaseEQ key ''filename''
             then disposition_pairs lib fuel cd param (Some (fst (ap_getword_conf lib pair)))
             else disposition_pairs lib fuel cd param fname
           else disposition_pairs lib fuel cd param fname)"

fun update_last :: "('a \<Rightarrow> 'a) \<Rightarrow> 'a list \<Rightarrow> 'a list" where
  "update_last f [] = []"
| "update_last f [x] = [f x]"
| "update_last f (x # y # ys) = x # update_last f (y # ys)"

text \<open>Copying the body of an upload to its temporary file; the status is \<open>None\<close> while all is well.\<close>

fun upload_body ::
  "upload_env \<Rightarrow> nat \<Rightarrow> multipart_buffer \<Rightarrow> apache_request \<Rightarrow> (multipart_buffer \<times> apache_request \<times> int option) outcome" where
  "upload_body env 0 mbuff req = Fault OutOfFuel"
| "upload_body env (Suc fuel) mbuff req =
     bindO (multipart_buffer_read mbuff (int FILLUNIT))
       (\<lambda>(mbuff, buff).
          if buff = [] then Ret (mbuff, req, None)
          else if \<not> write_ok env (length (upload req) - 1) buff
          then Ret (mbuff, req, Some HTTP_INTERNAL_SERVER_ERROR)
          else upload_body env fuel mbuff
            (req\<lparr>upload := update_last (\<lambda>u. u\<lparr>up_size := up_size u + int (length buff),
                                              up_data := up_data u @ buff\<rparr>) (upload req)\<rparr>))"

text \<open>One part with its headers: the status is \<open>None\<close> when the loop goes on. A part without a file
  name is a parameter, also when it has no name, which hands a NULL key to the table.\<close>

definition parse_part ::
  "apr_lib \<Rightarrow> upload_env \<Rightarrow> nat \<Rightarrow> bytes apr_table \<Rightarrow> multipart_buffer \<Rightarrow> apache_request \<Rightarrow>
   (multipart_buffer \<times> apache_request \<times> int option) outcome" where
  "parse_part lib env fuel header mbuff req =
     (case apr_table_get lib header ''Content-Disposition'' of
        None \<Rightarrow> Ret (mbuff, req, None)
      | Some cd \<Rightarrow>
          bindO (disposition_pairs lib fuel cd None None)
            (\<lambda>(param, fname). case fname of
               None \<Rightarrow>
                 bindO (multipart_buffer_read_body fuel mbuff)
                   (\<lambda>(mbuff, val). case param of
                      None \<Rightarrow> Fault NullDeref
                    | Some name \<Rightarrow> Ret (mbuff, req\<lparr>parms := apr_table_add lib (parms req) name val\<rparr>, None))
             | Some fname \<Rightarrow>
                 (case param of
                    None \<Rightarrow> Ret (mbuff, req, None)
                  | Some name \<Rightarrow>
                      if disable_uploads req then Ret (mbuff, req, Some HTTP_FORBIDDEN)
                      else
                        let req = req\<lparr>parms := apr_table_add lib (parms req) name fname,
                                     upload := upload req @ [ApacheUpload_new]\<rparr>;
                            tmp = tmpfile env (length (upload req) - 1)
                        in if \<not> has_upload_hook req \<and> tmp = None
                           then Ret (mbuff, req, Some HTTP_INTERNAL_SERVER_ERROR)
                           else
                             let req = req\<lparr>upload := update_last (\<lambda>u. u\<lparr>up_tempname := tmp, up_info := header,
                                           up_filename := Some fname, up_name := Some name\<rparr>) (upload req)\<rparr>
                             in bindO (fill_buffer mbuff)
                                  (\<lambda>(mbuff, _).
                                     if take (length (mp_boundary mbuff)) (mp_buffer mbuff) = mp_boundary mbuff
                                     then Ret (mbuff\<lparr>mp_remaining := mp_remaining mbuff - 2\<rparr>, req, None)
                                     else upload_body env fuel mbuff req))))"

fun parse_parts ::
  "apr_lib \<Rightarrow> upload_env \<Rightarrow> nat \<Rightarrow> nat \<Rightarrow> multipart_buffer \<Rightarrow> apache_request \<Rightarrow> (apache_request \<times> int) outcome" where
  "parse_parts lib env lfuel 0 mbuff req = Fault OutOfFuel"
| "parse_parts lib env lfuel (Suc fuel) mbuff req =
     bindO (multipart_buffer_eof mbuff)
       (\<lambda>(mbuff, eof).
          if eof then Ret (req, HTTP_OK)
          else bindO (multipart_buffer_headers lib lfuel mbuff)
            (\<lambda>(mbuff, header). case header of
               None \<Rightarrow> Ret (req, HTTP_OK)
             | Some header \<Rightarrow>
                 bindO (parse_part lib env lfuel header mbuff req)
                   (\<lambda>(mbuff, req, st). case st of
                      Some rc \<Rightarrow> Ret (req, rc)
                    | None \<Rightarrow> parse_parts lib env lfuel fuel mbuff req)))"

definition ApacheRequest_parse_multipart ::
  "apr_lib \<Rightarrow> upload_env \<Rightarrow> nat \<Rightarrow> mp_client \<Rightarrow> apache_request \<Rightarrow> bytes \<Rightarrow> (apache_request \<times> int) outcome" where
  "ApacheRequest_parse_multipart lib env fuel cl req ct =
     (if mc_setup cl \<noteq> HTTP_OK then Ret (req, mc_setup cl)
      else if \<not> mc_should cl then Ret (req, HTTP_OK)
      else if mc_remaining cl > post_max req \<and> post_max req > 0 then Ret (req, HTTP_REQUEST_ENTITY_TOO_LARGE)
      else bindO (boundary_word lib (length ct + 1) ct)
        (\<lambda>ct. case ct of
           None \<Rightarrow> Ret (req, DECLINED)
         | Some ct \<Rightarrow>
             let boundary = fst (ap_getword_conf lib ct);
                 mbuff = multipart_buffer_new boundary (mc_remaining cl) (mc_answers cl)
             in parse_parts lib env fuel fuel mbuff req))"

section \<open>Parsing a request\<close>

definition MULTIPART_ENCTYPE :: bytes where "MULTIPART_ENCTYPE = ''multipart/form-data''"

definition ApacheRequest_do_parse ::
  "apr_lib \<Rightarrow> upload_env \<Rightarrow> nat \<Rightarrow> client \<Rightarrow> mp_client \<Rightarrow> apache_request \<Rightarrow> (apache_request \<times> int) outcome" where
  "ApacheRequest_do_parse lib env fuel cl mcl req =
     (let r = req_r req; ct = apr_table_get lib (headers_in r) ''Content-type'' in
      bindO (case args r of
               None \<Rightarrow> Ret req
             | Some a \<Rightarrow> bindO (split_to_parms lib req a) (\<lambda>req. Ret (req\<lparr>nargs := length (parms req)\<rparr>)))
        (\<lambda>req.
           bindO (if method_number r = M_POST \<and> ct \<noteq> None
                     \<and> map lower (take 19 (cstr (the ct))) = MULTIPART_ENCTYPE
                  then ApacheRequest_parse_multipart lib env fuel mcl req (the ct)
                  else ApacheRequest_parse_urlencoded lib cl req)
             (\<lambda>(req, result). Ret (req\<lparr>parsed := True\<rparr>, result))))"

text \<open>The macro \<open>ApacheRequest_parse\<close>: the work is done once, the status is kept.\<close>

definition ApacheRequest_parse ::
  "apr_lib \<Rightarrow> upload_env \<Rightarrow> nat \<Rightarrow> client \<Rightarrow> mp_client \<Rightarrow> apache_request \<Rightarrow> apache_request outcome" where
  "ApacheRequest_parse lib env fuel cl mcl req =
     (if parsed req then Ret (req\<lparr>status := status req\<rparr>)
      else bindO (ApacheRequest_do_parse lib env fuel cl mcl req)
             (\<lambda>(req, result). Ret (req\<lparr>status := result\<rparr>)))"

section \<open>The invariant of the buffer\<close>

text \<open>The window lies inside the array; the counts of httpd and the boundary are far from the limits
  of \<open>int\<close>.\<close>

definition mb_ok :: "multipart_buffer \<Rightarrow> bool" where
  "mb_ok self \<longleftrightarrow>
     0 < bufsize self \<and> length (mp_buffer self) = nat (bufsize self) + 1
     \<and> 0 \<le> bytes_in_buffer self \<and> bytes_in_buffer self \<le> bufsize self
     \<and> (case buf_begin self of None \<Rightarrow> bytes_in_buffer self = 0
        | Some b \<Rightarrow> int b + bytes_in_buffer self \<le> bufsize self)
     \<and> - (2 ^ 30) \<le> mp_remaining self \<and> list_all (\<lambda>a. - (2 ^ 30) \<le> snd a) (mp_answers self)
     \<and> length (mp_boundary self) < 2 ^ 30"

definition mb_same :: "multipart_buffer \<Rightarrow> multipart_buffer \<Rightarrow> bool" where
  "mb_same s t \<longleftrightarrow> bufsize t = bufsize s \<and> mp_boundary t = mp_boundary s \<and> boundary_next t = boundary_next s"

text \<open>The work that is left: the answers still to come and the bytes in the buffer.\<close>

definition mb_work :: "multipart_buffer \<Rightarrow> nat" where
  "mb_work self = length (mp_answers self) * (nat (bufsize self) + 1) + nat (bytes_in_buffer self)"

lemma c_int_le: "- (2 ^ 31) \<le> n \<Longrightarrow> c_int n \<le> n"
proof -
  assume "- (2 ^ 31) \<le> n"
  then have "(n + 2 ^ 31) mod 2 ^ 32 \<le> n + 2 ^ 31" by (intro zmod_le_nonneg_dividend) simp
  then show ?thesis by (simp add: c_int_def)
qed

lemma fill_work:
  assumes "length answers' < length answers" "bytes' \<le> B"
  shows "length answers' * (B + 1) + bytes' < length answers * (B + 1) + (bytes :: nat)"
proof -
  have "(length answers' + 1) * (B + 1) \<le> length answers * (B + 1)"
    using assms(1) by (intro mult_le_mono1) simp
  with assms(2) show ?thesis by simp
qed

lemma fill_buffer_ok:
  assumes "mb_ok self"
  shows "\<exists>self' n. fill_buffer self = Ret (self', n) \<and> mb_ok self' \<and> mb_same self self'
    \<and> buf_begin self' = Some 0 \<and> bytes_in_buffer self \<le> bytes_in_buffer self'
    \<and> (n < 1 \<longrightarrow> bytes_in_buffer self' = bytes_in_buffer self)
    \<and> (length (mp_answers self') < length (mp_answers self)
       \<or> mp_answers self' = mp_answers self \<and> bytes_in_buffer self' = bytes_in_buffer self)"
proof -
  define s1 where "s1 = (if bytes_in_buffer self > 0 \<and> buf_begin self \<noteq> Some 0
    then self\<lparr>mp_buffer := take (nat (bytes_in_buffer self)) (drop (the (buf_begin self)) (mp_buffer self))
        @ drop (nat (bytes_in_buffer self)) (mp_buffer self)\<rparr> else self)"
  define s2 where "s2 = s1\<lparr>buf_begin := Some 0\<rparr>"
  have move: "(if bytes_in_buffer self > 0 \<and> buf_begin self \<noteq> Some 0 then
        (case buf_begin self of None \<Rightarrow> Fault NullDeref
         | Some b \<Rightarrow> let n = nat (bytes_in_buffer self) in
             if b + n > length (mp_buffer self) then Fault OutOfBounds
             else Ret (self\<lparr>mp_buffer := take n (drop b (mp_buffer self)) @ drop n (mp_buffer self)\<rparr>))
      else Ret self) = Ret s1"
    using assms by (auto simp: mb_ok_def s1_def Let_def split: option.splits)
  have len: "length (mp_buffer s2) = nat (bufsize self) + 1"
    using assms by (auto simp: mb_ok_def s1_def s2_def split: option.splits)
  have same: "bufsize s2 = bufsize self" "bytes_in_buffer s2 = bytes_in_buffer self"
    "mp_remaining s2 = mp_remaining self" "mp_answers s2 = mp_answers self"
    "mp_boundary s2 = mp_boundary self" "boundary_next s2 = boundary_next self" "buf_begin s2 = Some 0"
    by (simp_all add: s1_def s2_def)
  have ok2: "mb_ok s2" and same2: "mb_same self s2"
    using assms len same by (auto simp: mb_ok_def mb_same_def)
  define k where "k = (if bufsize self - bytes_in_buffer self \<ge> mp_remaining self
    then c_int (mp_remaining self - int (length (mp_boundary self))) else bufsize self - bytes_in_buffer self)"
  have k: "k \<le> bufsize self - bytes_in_buffer self"
    using assms c_int_le [of "mp_remaining self - int (length (mp_boundary self))"]
    by (auto simp: k_def mb_ok_def)
  have fb: "fill_buffer self = (if k > 0 then
       (case get_client_block s2 (nat k) of
          (self, None) \<Rightarrow> Ret (self, - 1)
        | (self, Some data) \<Rightarrow>
            bindO (memcpy_at (mp_buffer self) (nat (bytes_in_buffer self)) data)
              (\<lambda>buf. Ret (self\<lparr>mp_buffer := buf,
                               bytes_in_buffer := bytes_in_buffer self + int (length data)\<rparr>,
                          int (length data))))
     else Ret (s2, 0))"
    unfolding fill_buffer_def unfolding move unfolding bindO_simps Let_def k_def
    by (simp only: same flip: s2_def)
  show ?thesis
  proof (cases "k > 0")
    case False
    then show ?thesis using fb ok2 same2 same by simp
  next
    case True
    show ?thesis
    proof (cases "mp_answers self")
      case Nil
      have "nat (bytes_in_buffer self) \<le> nat (bufsize self)"
        using assms by (intro nat_mono) (simp add: mb_ok_def)
      then have "memcpy_at (mp_buffer s2) (nat (bytes_in_buffer s2)) [] = Ret (mp_buffer s2)"
        using len same by (simp add: memcpy_at_def)
      then show ?thesis
        using fb True Nil ok2 same2 same by (simp add: get_client_block_def mb_ok_def mb_same_def)
    next
      case (Cons a rest)
      obtain block rem where a: "a = (block, rem)" by (cases a)
      let ?s3 = "s2\<lparr>mp_answers := rest, mp_remaining := rem\<rparr>"
      have ok3: "mb_ok ?s3" using ok2 same Cons a by (simp add: mb_ok_def)
      show ?thesis
      proof (cases block)
        case None
        then show ?thesis
          using fb True Cons a ok3 same2 same by (simp add: get_client_block_def mb_same_def)
      next
        case (Some bs)
        let ?data = "take (nat k) bs"
        have fits: "nat (bytes_in_buffer self) + length ?data \<le> nat (bufsize self) + 1"
          using k True assms by (auto simp: mb_ok_def)
        then obtain buf where buf: "memcpy_at (mp_buffer s2) (nat (bytes_in_buffer s2)) ?data = Ret buf"
          using len same by (simp add: memcpy_at_def)
        have "length buf = nat (bufsize self) + 1" using memcpy_at_length [OF buf] len by simp
        moreover have "int (length ?data) \<le> k" using True by simp
        then have "bytes_in_buffer self + int (length ?data) \<le> bufsize self" using k by linarith
        ultimately show ?thesis
          using fb True Cons a Some ok3 same2 same buf
          by (simp add: get_client_block_def mb_same_def mb_ok_def)
      qed
    qed
  qed
qed

lemma memchr_Some: "memchr c w = Some i \<Longrightarrow> i < length w"
  by (simp add: memchr_def Let_def split: if_splits)

lemma next_line_ok:
  assumes "mb_ok self"
  shows "\<exists>self' line. next_line self = Ret (self', line) \<and> mb_ok self' \<and> mb_same self self'
    \<and> mp_answers self' = mp_answers self
    \<and> (line = None \<longrightarrow> self' = self) \<and> (line \<noteq> None \<longrightarrow> bytes_in_buffer self' < bytes_in_buffer self)"
proof (cases "memchr LF (window self)")
  case (Some i)
  then obtain b where b: "buf_begin self = Some b" "i < nat (bytes_in_buffer self)"
    using memchr_Some [OF Some] by (auto simp: window_def split: option.splits)
  then have "int b + 1 + int i + (bytes_in_buffer self - int (i + 1)) \<le> bufsize self"
    "0 \<le> bytes_in_buffer self - int (i + 1)"
    using assms by (simp_all add: mb_ok_def)
  then show ?thesis
    using assms Some b by (simp add: next_line_def mb_ok_def mb_same_def Let_def)
next
  case None
  show ?thesis
  proof (cases "bytes_in_buffer self < bufsize self")
    case True
    then show ?thesis using assms None by (simp add: next_line_def mb_same_def)
  next
    case False
    then obtain b where b: "buf_begin self = Some b" "b = 0" "bytes_in_buffer self = bufsize self"
      using assms by (auto simp: mb_ok_def split: option.splits)
    then show ?thesis
      using assms None False by (simp add: next_line_def mb_ok_def mb_same_def Let_def)
  qed
qed

lemma get_line_ok:
  assumes "mb_ok self"
  shows "\<exists>self' line. get_line self = Ret (self', line) \<and> mb_ok self' \<and> mb_same self self'
    \<and> (if line = None then mb_work self' \<le> mb_work self else mb_work self' < mb_work self)"
proof -
  obtain s1 l1 where n1: "next_line self = Ret (s1, l1)" "mb_ok s1" "mb_same self s1"
      "mp_answers s1 = mp_answers self" "l1 = None \<longrightarrow> s1 = self"
      "l1 \<noteq> None \<longrightarrow> bytes_in_buffer s1 < bytes_in_buffer self"
    using next_line_ok [OF assms] by blast
  show ?thesis
  proof (cases "l1 = None")
    case False
    then have "mb_work s1 < mb_work self"
      using n1 by (simp add: mb_work_def mb_same_def mb_ok_def)
    then show ?thesis using n1 False by (auto simp: get_line_def)
  next
    case True
    obtain s2 k where f: "fill_buffer s1 = Ret (s2, k)" "mb_ok s2" "mb_same s1 s2"
        "length (mp_answers s2) < length (mp_answers s1)
         \<or> mp_answers s2 = mp_answers s1 \<and> bytes_in_buffer s2 = bytes_in_buffer s1"
      using fill_buffer_ok [OF n1(2)] by blast
    obtain s3 l3 where n3: "next_line s2 = Ret (s3, l3)" "mb_ok s3" "mb_same s2 s3"
        "mp_answers s3 = mp_answers s2" "l3 = None \<longrightarrow> s3 = s2"
        "l3 \<noteq> None \<longrightarrow> bytes_in_buffer s3 < bytes_in_buffer s2"
      using next_line_ok [OF f(2)] by blast
    have w2: "mb_work s2 \<le> mb_work s1"
    proof -
      have "nat (bytes_in_buffer s2) \<le> nat (bufsize s2)" using f(2) by (intro nat_mono) (simp add: mb_ok_def)
      then show ?thesis
        using f(3,4) fill_work [of "mp_answers s2" "mp_answers s1" "nat (bytes_in_buffer s2)" "nat (bufsize s1)"]
        by (auto simp: mb_work_def mb_same_def less_imp_le)
    qed
    have "if l3 = None then mb_work s3 \<le> mb_work s2 else mb_work s3 < mb_work s2"
      using n3 by (auto simp: mb_work_def mb_same_def mb_ok_def)
    then show ?thesis
      using n1 True f n3 w2 by (auto simp: get_line_def mb_same_def)
  qed
qed

lemma find_boundary_ok:
  "mb_ok self \<Longrightarrow> mb_work self < fuel \<Longrightarrow>
   \<exists>self' found. find_boundary fuel self boundary = Ret (self', found) \<and> mb_ok self' \<and> mb_same self self'
     \<and> mb_work self' \<le> mb_work self"
proof (induction fuel arbitrary: self)
  case (Suc fuel)
  obtain s1 l where g: "get_line self = Ret (s1, l)" "mb_ok s1" "mb_same self s1"
      "if l = None then mb_work s1 \<le> mb_work self else mb_work s1 < mb_work self"
    using get_line_ok [OF Suc.prems(1)] by blast
  show ?case
  proof (cases "l = None \<or> l = Some boundary")
    case True
    then show ?thesis using g by (auto split: if_splits)
  next
    case False
    then obtain x where "l = Some x" "x \<noteq> boundary" by auto
    with Suc.IH [OF g(2)] g Suc.prems(2) show ?thesis by (fastforce simp: mb_same_def)
  qed
qed simp

lemma header_lines_ok:
  "mb_ok self \<Longrightarrow> mb_work self < fuel \<Longrightarrow>
   \<exists>self' tab'. header_lines lib fuel self tab = Ret (self', tab') \<and> mb_ok self' \<and> mb_same self self'
     \<and> mb_work self' \<le> mb_work self"
proof (induction fuel arbitrary: self tab)
  case (Suc fuel)
  obtain s1 l where g: "get_line self = Ret (s1, l)" "mb_ok s1" "mb_same self s1"
      "if l = None then mb_work s1 \<le> mb_work self else mb_work s1 < mb_work self"
    using get_line_ok [OF Suc.prems(1)] by blast
  show ?case
  proof (cases "l = None \<or> l = Some []")
    case True
    then show ?thesis using g by (auto split: if_splits)
  next
    case False
    then obtain x where "l = Some x" "x \<noteq> []" by auto
    with Suc.IH [OF g(2)] g Suc.prems(2) show ?thesis by (fastforce simp: mb_same_def)
  qed
qed simp

lemma multipart_buffer_new_ok:
  assumes "- (2 ^ 30) \<le> len" "list_all (\<lambda>a. - (2 ^ 30) \<le> snd a) answers" "length boundary + 2 < 2 ^ 30"
  shows "mb_ok (multipart_buffer_new boundary len answers)"
  using assms length_cstr_le [of boundary]
  by (simp add: multipart_buffer_new_def mb_ok_def FILLUNIT_def Let_def)

section \<open>Searching the boundary\<close>

text \<open>A line feed near the end of the array, which may start a boundary that is not yet in the buffer,
  makes \<open>memcmp\<close> read behind the allocation instead of being reported as a partial match.\<close>

lemma my_memstr_overread:
  "LF \<notin> set w \<Longrightarrow> my_memstr (pre @ w @ [LF, NUL]) (length pre) (length w + 1) (LF # CHR ''-'' # b # r) partial
     = Fault OutOfBounds"
proof (induction w arbitrary: pre)
  case Nil
  have "(pre @ [LF, NUL]) ! length pre = LF" by simp
  then show ?case by simp
next
  case (Cons c w)
  have c: "(pre @ (c # w) @ [LF, NUL]) ! length pre = c" by simp
  have "my_memstr (pre @ (c # w) @ [LF, NUL]) (length pre) (length (c # w) + 1) (LF # CHR ''-'' # b # r) partial
      = my_memstr ((pre @ [c]) @ w @ [LF, NUL]) (length (pre @ [c])) (length w + 1) (LF # CHR ''-'' # b # r) partial"
    using Cons.prems c by auto
  also have "\<dots> = Fault OutOfBounds"
    using Cons.prems by (intro Cons.IH) simp
  finally show ?case .
qed

text \<open>A part without a file name and without a name hands NULL to \<open>apr_table_add\<close>.\<close>

lemma nameless_part_null_key:
  assumes "apr_table_get lib header ''Content-Disposition'' = Some cd"
    and "disposition_pairs lib fuel cd None None = Ret (None, None)"
    and "multipart_buffer_read_body fuel mbuff = Ret (mbuff', val)"
  shows "parse_part lib env fuel header mbuff req = Fault NullDeref"
  using assms by (simp add: parse_part_def)

section \<open>Properties\<close>

text \<open>C14: reading the headers of a part, from any buffer state and for any answers of the client,
  terminates within as many turns as there are bytes to come, stays inside the buffer, and leaves
  it in a good state with no more work than before.\<close>

theorem multipart_headers_total:
  assumes "mb_ok self" "mb_work self < fuel"
  shows "\<exists>self' tab. multipart_buffer_headers lib fuel self = Ret (self', tab) \<and> mb_ok self'
    \<and> mb_work self' \<le> mb_work self"
proof -
  obtain s1 found where f: "find_boundary fuel self (mp_boundary self) = Ret (s1, found)" "mb_ok s1"
      "mb_work s1 \<le> mb_work self"
    using find_boundary_ok [OF assms] by blast
  then obtain s2 tab where "header_lines lib fuel s1 [] = Ret (s2, tab)" "mb_ok s2" "mb_work s2 \<le> mb_work s1"
    using header_lines_ok [OF f(2), of fuel lib "[]"] assms(2) by auto
  then show ?thesis using f by (simp add: multipart_buffer_headers_def)
qed

lemma multipart_headers_total_witness:
  "\<exists>self' tab. multipart_buffer_headers demo_apr 99999
      (multipart_buffer_new ''xyz'' 60 [(Some (''--xyz'' @ [CR, LF] @ ''A: b'' @ [CR, LF, CR, LF]), 20)]) = Ret (self', tab)
    \<and> mb_ok self'
    \<and> mb_work self' \<le> mb_work (multipart_buffer_new ''xyz'' 60
        [(Some (''--xyz'' @ [CR, LF] @ ''A: b'' @ [CR, LF, CR, LF]), 20)])"
proof (rule multipart_headers_total)
  show "mb_ok (multipart_buffer_new ''xyz'' 60
      [(Some (''--xyz'' @ [CR, LF] @ ''A: b'' @ [CR, LF, CR, LF]), 20)])"
    by (rule multipart_buffer_new_ok) simp_all
  show "mb_work (multipart_buffer_new ''xyz'' 60
      [(Some (''--xyz'' @ [CR, LF] @ ''A: b'' @ [CR, LF, CR, LF]), 20)]) < 99999"
    by (simp add: mb_work_def multipart_buffer_new_def FILLUNIT_def Let_def)
qed


definition demo_client :: "bytes \<Rightarrow> client" where
  "demo_client body = \<lparr> setup_client_block = 0, should_client_block = True,
     remaining = int (length body), client_blocks = [Some body] \<rparr>"


end
