(* ===== verification/Rivet_TclWeb.thy ===== *)
theory Rivet_TclWeb
  imports Rivet_Multipart
begin

text \<open>
  src/src/mod_rivet_ng/TclWebapache.c: the web request object of an interpreter. The form variables
  are read from the array behind the parameter table, a source selects the query string part, the
  body part or both; the response headers follow a small state machine (type set once, headers
  printed once); the environment is loaded into the request in three classes, each guarded by a
  flag. The routines of httpd, APR, Tcl and the system are the fields of \<open>web_lib\<close>.
\<close>

section \<open>Data\<close>

definition ENV_COMMON_VARS_M :: "32 word" where "ENV_COMMON_VARS_M = 1"
definition ENV_CGI_VARS_M :: "32 word" where "ENV_CGI_VARS_M = 2"
definition ENV_VARS_M :: "32 word" where "ENV_VARS_M = 4"

definition ENV_LOADED :: "32 word \<Rightarrow> 32 word" where
  "ENV_LOADED env = env OR (ENV_COMMON_VARS_M OR ENV_CGI_VARS_M OR ENV_VARS_M)"

definition ENV_IS_LOADED :: "32 word \<Rightarrow> bool" where
  "ENV_IS_LOADED env \<longleftrightarrow> env = (ENV_COMMON_VARS_M OR ENV_CGI_VARS_M OR ENV_VARS_M)"

text \<open>The web request object with the part of httpd's request that the module changes: the content
  type, the output headers, the environment table (a value may be NULL), the status, the abort
  flag, the text written so far and the number of header transmissions.\<close>

record tclweb =
  apachereq :: apache_request
  headers_printed :: bool
  headers_set :: bool
  content_sent :: int
  environment_set :: "32 word"
  charset :: "bytes option"
  req_upload :: "upload_rec option"
  content_type :: bytes
  headers_out :: "bytes apr_table"
  subprocess_env :: "bytes option apr_table"
  r_status :: int
  aborted :: bool
  written :: bytes
  sent :: nat

record web_lib =
  web_apr :: apr_lib
  StringToUtf :: "bytes \<Rightarrow> bytes"
  Tcl_ConcatObj :: "bytes \<Rightarrow> bytes \<Rightarrow> bytes"
  env_get :: "bytes option apr_table \<Rightarrow> bytes \<Rightarrow> bytes option"
  env_put :: "bytes option apr_table \<Rightarrow> bytes \<Rightarrow> bytes option \<Rightarrow> bytes option apr_table"
  ap_add_common_vars :: "bytes option apr_table \<Rightarrow> bytes option apr_table"
  ap_add_cgi_vars :: "bytes option apr_table \<Rightarrow> bytes option apr_table"
  ap_ht_time :: "int \<Rightarrow> bool \<Rightarrow> bytes"
  request_time :: int
  ap_unescape_url :: "bytes \<Rightarrow> bytes"
  ap_escape_shell_cmd :: "bytes \<Rightarrow> bytes"
  user_name :: bytes
  ap_escape_html :: "bytes \<Rightarrow> bytes"
  set_stdout_encoding :: "bytes \<Rightarrow> bool"
  collapse_spaces :: "bytes \<Rightarrow> bytes"

definition DEFAULT_HEADER_TYPE :: bytes where "DEFAULT_HEADER_TYPE = ''text/html''"
definition ER1 :: bytes where "ER1 = ''<hr><p><code><pre>'' @ [LF]"
definition ER2 :: bytes where "ER2 = ''</pre></code><hr>'' @ [LF]"

section \<open>Starting a request\<close>

fun strstr :: "bytes \<Rightarrow> bytes \<Rightarrow> bytes option" where
  "strstr [] w = (if w = [] then Some [] else None)"
| "strstr (c # s) w = (if take (length w) (c # s) = w then Some (c # s) else strstr s w)"

text \<open>A content type longer than the plain type of the handler may carry a charset; it becomes the
  response charset and the encoding of the output channel. The result is \<open>TCL_OK\<close> or not.\<close>

definition TclWeb_InitRequest :: "web_lib \<Rightarrow> rivet_req_ctype \<Rightarrow> request_rec \<Rightarrow> tclweb \<Rightarrow> tclweb \<times> bool" where
  "TclWeb_InitRequest lib ctype r req =
     (let req = req\<lparr>apachereq := ApacheRequest_init (apachereq req) r, headers_printed := False,
            headers_set := False, environment_set := 0, charset := None\<rparr>;
          len = length (cstr (content_type req))
      in if ctype = RIVET_TEMPLATE \<and> len > length RIVET_TEMPLATE_CTYPE
            \<or> ctype = RIVET_TCLFILE \<and> len > length RIVET_TCLFILE_CTYPE
         then (case strstr (cstr (content_type req)) ''charset'' of
                 None \<Rightarrow> (req, True)
               | Some cs \<Rightarrow>
                   let cs = collapse_spaces lib cs;
                       req = req\<lparr>charset := Some cs\<rparr>;
                       val = dropWhile (\<lambda>c. c \<noteq> CHR ''='') cs
                   in (req, val = [] \<or> set_stdout_encoding lib (tl val)))
         else (req, True))"

section \<open>Response headers\<close>

definition TclWeb_SetHeaderType :: "bytes \<Rightarrow> tclweb \<Rightarrow> tclweb \<times> bool" where
  "TclWeb_SetHeaderType header req =
     (if headers_set req then (req, False)
      else (req\<lparr>content_type := header, headers_set := True\<rparr>, True))"

definition TclWeb_PrintHeaders :: "tclweb \<Rightarrow> tclweb \<times> bool" where
  "TclWeb_PrintHeaders req =
     (if headers_printed req then (req, False)
      else
        let req = (case charset req of
               Some cs \<Rightarrow> if \<not> headers_set req then fst (TclWeb_SetHeaderType (''text/html;'' @ cs) req) else req
             | None \<Rightarrow> req);
            req = (if \<not> headers_set req then fst (TclWeb_SetHeaderType DEFAULT_HEADER_TYPE req) else req)
        in (req\<lparr>sent := sent req + 1, headers_printed := True\<rparr>, True))"

definition ap_rputs :: "bytes \<Rightarrow> tclweb \<Rightarrow> tclweb" where
  "ap_rputs s req = req\<lparr>written := written req @ s\<rparr>"

definition TclWeb_PrintError :: "web_lib \<Rightarrow> bytes option \<Rightarrow> int \<Rightarrow> tclweb \<Rightarrow> tclweb" where
  "TclWeb_PrintError lib errstr htmlflag req =
     (let req = fst (TclWeb_SetHeaderType DEFAULT_HEADER_TYPE req);
          req = fst (TclWeb_PrintHeaders req);
          req = (if htmlflag \<noteq> 1 then ap_rputs ER1 req else req);
          req = (case errstr of
                   None \<Rightarrow> req
                 | Some e \<Rightarrow> ap_rputs (if htmlflag \<noteq> 1 then ap_escape_html lib e else e) req)
      in if htmlflag \<noteq> 1 then ap_rputs ER2 req else req)"

definition TclWeb_StopSending :: "tclweb \<Rightarrow> tclweb" where
  "TclWeb_StopSending req = req\<lparr>aborted := True\<rparr>"

definition TclWeb_HeaderSet :: "web_lib \<Rightarrow> bytes \<Rightarrow> bytes \<Rightarrow> tclweb \<Rightarrow> tclweb" where
  "TclWeb_HeaderSet lib header val req =
     req\<lparr>headers_out := apr_table_set (web_apr lib) (headers_out req) header val\<rparr>"

definition TclWeb_OutputHeaderGet :: "web_lib \<Rightarrow> bytes \<Rightarrow> tclweb \<Rightarrow> bytes option" where
  "TclWeb_OutputHeaderGet lib header req = apr_table_get (web_apr lib) (headers_out req) header"

definition TclWeb_HeaderAdd :: "web_lib \<Rightarrow> bytes \<Rightarrow> bytes \<Rightarrow> tclweb \<Rightarrow> tclweb" where
  "TclWeb_HeaderAdd lib header val req =
     req\<lparr>headers_out := apr_table_add (web_apr lib) (headers_out req) header val\<rparr>"

definition TclWeb_SetStatus :: "int \<Rightarrow> tclweb \<Rightarrow> tclweb" where
  "TclWeb_SetStatus st req = req\<lparr>r_status := st\<rparr>"

section \<open>Form variables\<close>

text \<open>\<open>PARMSARRAY_COORDINATES\<close>: the slice of the parameter array a source stands for.\<close>

definition coordinates :: "int \<Rightarrow> nat \<Rightarrow> nat \<Rightarrow> nat \<times> nat" where
  "coordinates source nelts query_nelts =
     (if source = VAR_SRC_QUERYSTRING then (0, query_nelts)
      else if source = VAR_SRC_POST then (query_nelts, nelts)
      else (0, nelts))"

definition strncmp_eq :: "bytes \<Rightarrow> bytes \<Rightarrow> nat \<Rightarrow> bool" where
  "strncmp_eq a b n \<longleftrightarrow> take n (cstr a) = take n (cstr b)"

text \<open>\<open>TclWeb_GetVar\<close> bounds the comparison by the length of the converted key, the other routines by
  the length of the key as it was sent.\<close>

definition key_matches :: "web_lib \<Rightarrow> bytes \<Rightarrow> bytes \<Rightarrow> bool" where
  "key_matches lib varname key =
     strncmp_eq varname (StringToUtf lib key) (max (length (cstr key)) (length (cstr varname)))"

definition key_matches_utf :: "web_lib \<Rightarrow> bytes \<Rightarrow> bytes \<Rightarrow> bool" where
  "key_matches_utf lib varname key =
     strncmp_eq varname (StringToUtf lib key) (max (length (cstr (StringToUtf lib key))) (length (cstr varname)))"

text \<open>The loops over the array from \<open>i\<close> to \<open>j\<close>; an index behind the entries would leave the array.\<close>

function get_var_loop ::
  "web_lib \<Rightarrow> bytes \<Rightarrow> bytes apr_table \<Rightarrow> nat \<Rightarrow> nat \<Rightarrow> bool \<Rightarrow> bytes \<Rightarrow> bytes outcome" where
  "get_var_loop lib varname parr i j flag result =
     (if i < j then
        if i \<ge> length parr then Fault OutOfBounds
        else if key_matches_utf lib varname (fst (parr ! i)) then
          get_var_loop lib varname parr (i + 1) j True
            (if \<not> flag then StringToUtf lib (snd (parr ! i))
             else Tcl_ConcatObj lib result (StringToUtf lib (snd (parr ! i))))
        else get_var_loop lib varname parr (i + 1) j flag result
      else Ret result)"
  by pat_completeness auto
termination by (relation "measure (\<lambda>(_, _, _, i, j, _). j - i)") auto

function collect_loop ::
  "(bytes \<times> bytes \<Rightarrow> bytes list) \<Rightarrow> bytes apr_table \<Rightarrow> nat \<Rightarrow> nat \<Rightarrow> bytes list outcome" where
  "collect_loop f parr i j =
     (if i < j then
        if i \<ge> length parr then Fault OutOfBounds
        else bindO (collect_loop f parr (i + 1) j) (\<lambda>l. Ret (f (parr ! i) @ l))
      else Ret [])"
  by pat_completeness auto
termination by (relation "measure (\<lambda>(_, _, i, j). j - i)") auto

function var_exists_loop :: "web_lib \<Rightarrow> bytes \<Rightarrow> bytes apr_table \<Rightarrow> nat \<Rightarrow> nat \<Rightarrow> bool outcome" where
  "var_exists_loop lib varname parr i j =
     (if i < j then
        if i \<ge> length parr then Fault OutOfBounds
        else if key_matches lib varname (fst (parr ! i)) then Ret True
        else var_exists_loop lib varname parr (i + 1) j
      else Ret False)"
  by pat_completeness auto
termination by (relation "measure (\<lambda>(_, _, _, i, j). j - i)") auto

declare get_var_loop.simps [simp del] collect_loop.simps [simp del] var_exists_loop.simps [simp del]

definition var_slice :: "int \<Rightarrow> tclweb \<Rightarrow> nat \<times> nat" where
  "var_slice source req = coordinates source (length (parms (apachereq req))) (nargs (apachereq req))"

text \<open>An empty value is reported as a variable that was not found.\<close>

definition TclWeb_GetVar :: "web_lib \<Rightarrow> bytes \<Rightarrow> int \<Rightarrow> tclweb \<Rightarrow> bytes outcome" where
  "TclWeb_GetVar lib varname source req =
     bindO (get_var_loop lib varname (parms (apachereq req)) (fst (var_slice source req))
              (snd (var_slice source req)) False [])
       (\<lambda>result. if length result = 0
                 then Fail (ErrMsg (''Variable '' @ [SQ] @ cstr varname @ [SQ] @ '' not found''))
                 else Ret result)"

definition TclWeb_GetVarAsList :: "web_lib \<Rightarrow> bytes \<Rightarrow> int \<Rightarrow> tclweb \<Rightarrow> bytes list outcome" where
  "TclWeb_GetVarAsList lib varname source req =
     collect_loop (\<lambda>(k, v). if key_matches lib varname k then [StringToUtf lib v] else [])
       (parms (apachereq req)) (fst (var_slice source req)) (snd (var_slice source req))"

definition TclWeb_GetAllVars :: "web_lib \<Rightarrow> int \<Rightarrow> tclweb \<Rightarrow> bytes list outcome" where
  "TclWeb_GetAllVars lib source req =
     collect_loop (\<lambda>(k, v). [StringToUtf lib k, StringToUtf lib v])
       (parms (apachereq req)) (fst (var_slice source req)) (snd (var_slice source req))"

definition TclWeb_GetVarNames :: "web_lib \<Rightarrow> int \<Rightarrow> tclweb \<Rightarrow> bytes list outcome" where
  "TclWeb_GetVarNames lib source req =
     collect_loop (\<lambda>(k, v). [StringToUtf lib k])
       (parms (apachereq req)) (fst (var_slice source req)) (snd (var_slice source req))"

definition TclWeb_VarExists :: "web_lib \<Rightarrow> bytes \<Rightarrow> int \<Rightarrow> tclweb \<Rightarrow> bool outcome" where
  "TclWeb_VarExists lib varname source req =
     var_exists_loop lib varname (parms (apachereq req)) (fst (var_slice source req)) (snd (var_slice source req))"

definition TclWeb_VarNumber :: "int \<Rightarrow> tclweb \<Rightarrow> int" where
  "TclWeb_VarNumber source req =
     (if source = VAR_SRC_QUERYSTRING then int (nargs (apachereq req))
      else if source = VAR_SRC_POST
      then int (length (parms (apachereq req))) - int (nargs (apachereq req))
      else int (length (parms (apachereq req))))"

section \<open>The environment\<close>

text \<open>The include variables: the table of names and the enumeration that selects a value.\<close>

datatype include_vars_idx = date_local | date_gmt | last_modified | document_uri | document_path_info
  | document_name | query_string_unescaped | user_name_var | rivet_cache_free | rivet_cache_size

definition include_env_vars :: "(bytes \<times> include_vars_idx) list" where
  "include_env_vars =
     [(''DATE_LOCAL'', date_local), (''DATE_GMT'', date_gmt), (''LAST_MODIFIED'', last_modified),
      (''DOCUMENT_URI'', document_uri), (''DOCUMENT_PATH_INFO'', document_path_info),
      (''DOCUMENT_NAME'', document_name), (''QUERY_STRING_UNESCAPED'', query_string_unescaped),
      (''USER_NAME'', user_name_var), (''RIVET_CACHE_FREE'', rivet_cache_free),
      (''RIVET_CACHE_SIZE'', rivet_cache_size)]"

definition after_last_slash :: "bytes \<Rightarrow> bytes option" where
  "after_last_slash s =
     (if CHR ''/'' \<in> set s then Some (rev (takeWhile (\<lambda>c. c \<noteq> CHR ''/'') (rev s))) else None)"

definition TclWeb_SelectEnvIncludeVar ::
    "web_lib \<Rightarrow> rivet_thread_interp \<Rightarrow> request_rec \<Rightarrow> include_vars_idx \<Rightarrow> bytes option" where
  "TclWeb_SelectEnvIncludeVar lib ri r i =
     (case i of
        date_local \<Rightarrow> Some (ap_ht_time lib (request_time lib) False)
      | date_gmt \<Rightarrow> Some (ap_ht_time lib (request_time lib) True)
      | last_modified \<Rightarrow> Some (ap_ht_time lib (finfo_mtime r) True)
      | document_uri \<Rightarrow> Some (uri r)
      | document_path_info \<Rightarrow> path_info r
      | document_name \<Rightarrow>
          (case after_last_slash (filename r) of Some t \<Rightarrow> Some t | None \<Rightarrow> Some (uri r))
      | query_string_unescaped \<Rightarrow>
          map_option (\<lambda>a. ap_escape_shell_cmd lib (ap_unescape_url lib a)) (args r)
      | user_name_var \<Rightarrow> Some (user_name lib)
      | rivet_cache_free \<Rightarrow> Some (printf_d (cache_free ri))
      | rivet_cache_size \<Rightarrow> Some (printf_d (cache_size ri)))"

definition TclWeb_InitEnvVars :: "web_lib \<Rightarrow> rivet_thread_interp \<Rightarrow> tclweb \<Rightarrow> tclweb" where
  "TclWeb_InitEnvVars lib ri req =
     (if ENV_IS_LOADED (environment_set req) then req
      else
        let r = req_r (apachereq req);
            flags = environment_set req;
            env = subprocess_env req;
            env = (if flags AND ENV_CGI_VARS_M = 0 then ap_add_cgi_vars lib env else env);
            env = (if flags AND ENV_COMMON_VARS_M = 0 then ap_add_common_vars lib env else env);
            env = (if flags AND ENV_VARS_M = 0
                   then foldl (\<lambda>t (name, i). env_put lib t name (TclWeb_SelectEnvIncludeVar lib ri r i))
                          env include_env_vars
                   else env)
        in req\<lparr>subprocess_env := env, environment_set := ENV_LOADED flags\<rparr>)"

text \<open>The comparison is bounded by the shorter of the two strings.\<close>

definition TclWeb_GetEnvIncludeVar ::
    "web_lib \<Rightarrow> rivet_thread_interp \<Rightarrow> request_rec \<Rightarrow> bytes \<Rightarrow> bytes option" where
  "TclWeb_GetEnvIncludeVar lib ri r key =
     (case find (\<lambda>(name, _). strncmp_eq key name (min (length (cstr key)) (length name))) include_env_vars of
        None \<Rightarrow> None
      | Some (_, i) \<Rightarrow> TclWeb_SelectEnvIncludeVar lib ri r i)"

text \<open>The variables are assigned to an array of the interpreter: the result is the list of
  assignments, entries without a value are skipped.\<close>

definition TclWeb_GetEnvVars ::
    "web_lib \<Rightarrow> rivet_thread_interp \<Rightarrow> tclweb \<Rightarrow> tclweb \<times> (bytes \<times> bytes) list" where
  "TclWeb_GetEnvVars lib ri req =
     (let req = TclWeb_InitEnvVars lib ri req
      in (req, [(StringToUtf lib k, StringToUtf lib v). (k, Some v) \<leftarrow> subprocess_env req]))"

definition TclWeb_GetHeaderVars :: "web_lib \<Rightarrow> tclweb \<Rightarrow> (bytes \<times> bytes) list" where
  "TclWeb_GetHeaderVars lib req =
     map (\<lambda>(k, v). (StringToUtf lib k, StringToUtf lib v)) (headers_in (req_r (apachereq req)))"

text \<open>\<open>TclWeb_GetEnvVar\<close> loads the next class only when the variable was not found before.\<close>

definition load_common_vars :: "web_lib \<Rightarrow> tclweb \<Rightarrow> tclweb" where
  "load_common_vars lib req =
     (if environment_set req AND ENV_COMMON_VARS_M = 0
      then req\<lparr>subprocess_env := ap_add_common_vars lib (subprocess_env req),
               environment_set := environment_set req OR ENV_COMMON_VARS_M\<rparr>
      else req)"

definition load_cgi_vars :: "web_lib \<Rightarrow> tclweb \<Rightarrow> tclweb" where
  "load_cgi_vars lib req =
     (if environment_set req AND ENV_CGI_VARS_M = 0
      then req\<lparr>subprocess_env := ap_add_cgi_vars lib (subprocess_env req),
               environment_set := environment_set req OR ENV_CGI_VARS_M\<rparr>
      else req)"

definition TclWeb_GetEnvVar ::
    "web_lib \<Rightarrow> rivet_thread_interp \<Rightarrow> bytes \<Rightarrow> tclweb \<Rightarrow> tclweb \<times> bytes option" where
  "TclWeb_GetEnvVar lib ri key req =
     (case apr_table_get (web_apr lib) (headers_in (req_r (apachereq req))) key of
        Some v \<Rightarrow> (req, Some v)
      | None \<Rightarrow>
          let req = load_common_vars lib req
          in (case env_get lib (subprocess_env req) key of
                Some v \<Rightarrow> (req, Some v)
              | None \<Rightarrow>
                  let req = load_cgi_vars lib req
                  in (case env_get lib (subprocess_env req) key of
                        Some v \<Rightarrow> (req, Some v)
                      | None \<Rightarrow> (req, TclWeb_GetEnvIncludeVar lib ri (req_r (apachereq req)) key))))"

section \<open>Uploads\<close>

definition TclWeb_PrepareUpload :: "bytes \<Rightarrow> tclweb \<Rightarrow> (tclweb \<times> bool) outcome" where
  "TclWeb_PrepareUpload varname req =
     bindO (ApacheUpload_find (upload (apachereq req)) varname)
       (\<lambda>u. Ret (req\<lparr>req_upload := u\<rparr>, u \<noteq> None))"

text \<open>The accessors work on the upload found by \<open>TclWeb_PrepareUpload\<close>.\<close>

definition with_upload :: "tclweb \<Rightarrow> (upload_rec \<Rightarrow> 'a outcome) \<Rightarrow> 'a outcome" where
  "with_upload req f = (case req_upload req of None \<Rightarrow> Fault NullDeref | Some u \<Rightarrow> f u)"

definition TclWeb_UploadSize :: "tclweb \<Rightarrow> tobj outcome" where
  "TclWeb_UploadSize req = with_upload req (\<lambda>u. Ret (TInt (c_int (up_size u))))"

definition TclWeb_UploadType :: "web_lib \<Rightarrow> tclweb \<Rightarrow> tobj outcome" where
  "TclWeb_UploadType lib req = with_upload req
     (\<lambda>u. Ret (TStr (case apr_table_get (web_apr lib) (up_info u) ''Content-Type'' of
                       Some t \<Rightarrow> t | None \<Rightarrow> [])))"

definition TclWeb_UploadFilename :: "web_lib \<Rightarrow> tclweb \<Rightarrow> tobj outcome" where
  "TclWeb_UploadFilename lib req = with_upload req
     (\<lambda>u. case up_filename u of None \<Rightarrow> Fault NullDeref | Some f \<Rightarrow> Ret (TStr (StringToUtf lib f)))"

definition TclWeb_UploadTempname :: "web_lib \<Rightarrow> tclweb \<Rightarrow> tobj outcome" where
  "TclWeb_UploadTempname lib req = with_upload req
     (\<lambda>u. case up_tempname u of None \<Rightarrow> Fault NullDeref | Some f \<Rightarrow> Ret (TStr (StringToUtf lib f)))"

text \<open>\<open>apr_file_copy\<close> is a parameter: an error message or success.\<close>

definition TclWeb_UploadSave :: "(bytes \<Rightarrow> bytes \<Rightarrow> bytes option) \<Rightarrow> bytes \<Rightarrow> tclweb \<Rightarrow> unit outcome" where
  "TclWeb_UploadSave file_copy fname req = with_upload req
     (\<lambda>u. case up_tempname u of
            None \<Rightarrow> Fault NullDeref
          | Some tmp \<Rightarrow>
              (case file_copy tmp fname of
                 None \<Rightarrow> Ret ()
               | Some msg \<Rightarrow>
                   Fail (ErrMsg (''Error copying upload '' @ [SQ] @ tmp @ [SQ] @ '' to '' @ [SQ] @ fname
                                 @ [SQ] @ '' ('' @ msg @ '')''))))"

text \<open>The temporary file is opened, set to binary, read and closed; each call can fail.\<close>

record file_io =
  open_file :: "bytes \<Rightarrow> bool"
  set_binary :: bool
  read_file :: "bytes \<Rightarrow> nat \<Rightarrow> bytes"
  close_file :: bool
  errno_id :: bytes
  errno_msg :: bytes

definition TclWeb_UploadData :: "file_io \<Rightarrow> rivet_server_conf \<Rightarrow> tclweb \<Rightarrow> tobj outcome" where
  "TclWeb_UploadData io rsc req =
     (if upload_files_to_var rsc \<noteq> 0 then
        with_upload req
          (\<lambda>u. case up_tempname u of
             None \<Rightarrow> Fault NullDeref
           | Some tmp \<Rightarrow>
               if \<not> open_file io tmp \<or> \<not> set_binary io then
                 Fail (ErrMsg (''Error setting channel option '' @ [SQ] @ errno_id io @ [SQ] @ '': '' @ errno_msg io))
               else if \<not> close_file io then Fail LibError
               else Ret (TByteArray (read_file io tmp (nat (c_int (up_size u))))))
      else Fail (ErrMsg ''RivetServerConf UploadFilesToVar is not set''))"

text \<open>The names of all uploads; the macro \<open>ApacheRequest_upload\<close> gives none when the parsing of the
  request failed before.\<close>

fun upload_names_loop :: "web_lib \<Rightarrow> upload_rec list \<Rightarrow> bytes list outcome" where
  "upload_names_loop lib [] = Ret []"
| "upload_names_loop lib (u # us) =
     (case up_name u of
        None \<Rightarrow> Fault NullDeref
      | Some n \<Rightarrow> bindO (upload_names_loop lib us) (\<lambda>l. Ret (StringToUtf lib n # l)))"

definition TclWeb_UploadNames ::
    "web_lib \<Rightarrow> (apache_request \<Rightarrow> apache_request outcome) \<Rightarrow> tclweb \<Rightarrow> (tclweb \<times> tobj) outcome" where
  "TclWeb_UploadNames lib parse req =
     bindO (if parsed (apachereq req) then Ret (req, upload (apachereq req))
            else bindO (parse (apachereq req))
                   (\<lambda>a. Ret (req\<lparr>apachereq := a\<rparr>, if status a = HTTP_OK then upload a else [])))
       (\<lambda>(req, ups). bindO (upload_names_loop lib ups) (\<lambda>l. Ret (req, TList l)))"

section \<open>Files below the document root\<close>

text \<open>The subrequest httpd makes for a virtual name: its status, whether the file exists, its name.\<close>

definition TclWeb_GetVirtualFile :: "(bytes \<Rightarrow> (int \<times> bool \<times> bytes) option) \<Rightarrow> bytes \<Rightarrow> bytes option outcome" where
  "TclWeb_GetVirtualFile lookup_uri virtualname =
     (case lookup_uri virtualname of
        None \<Rightarrow> Fault NullDeref
      | Some (st, exists, fname) \<Rightarrow> Ret (if st = 200 \<and> exists then Some fname else None))"

definition TclWeb_GetRawPost :: "tclweb \<Rightarrow> bytes option \<times> int" where
  "TclWeb_GetRawPost req = (raw_post (apachereq req), raw_length (apachereq req))"

section \<open>Slices of the parameter table\<close>

text \<open>The parser keeps the number of query parameters within the table.\<close>

definition web_ok :: "tclweb \<Rightarrow> bool" where
  "web_ok req \<longleftrightarrow> nargs (apachereq req) \<le> length (parms (apachereq req))"

definition source_params :: "int \<Rightarrow> tclweb \<Rightarrow> bytes apr_table" where
  "source_params source req =
     (if source = VAR_SRC_QUERYSTRING then ApacheRequest_query_params (apachereq req)
      else if source = VAR_SRC_POST then ApacheRequest_post_params (apachereq req)
      else parms (apachereq req))"

lemma drop_step: "i < j \<Longrightarrow> j \<le> length p \<Longrightarrow> take (j - i) (drop i p) = p ! i # take (j - Suc i) (drop (Suc i) p)"
  by (metis Cons_nth_drop_Suc Suc_diff_Suc less_le_trans take_Suc_Cons)

lemma collect_loop_slice:
  "j \<le> length p \<Longrightarrow> collect_loop f p i j = Ret (concat (map f (take (j - i) (drop i p))))"
proof (induction f p i j rule: collect_loop.induct)
  case (1 f p i j)
  then show ?case
    by (subst collect_loop.simps) (auto simp: drop_step)
qed

lemma var_exists_slice:
  "j \<le> length p \<Longrightarrow>
   var_exists_loop lib v p i j = Ret (list_ex (\<lambda>(k, _). key_matches lib v k) (take (j - i) (drop i p)))"
proof (induction lib v p i j rule: var_exists_loop.induct)
  case (1 lib v p i j)
  then show ?case
    by (subst var_exists_loop.simps) (auto simp: drop_step)
qed

text \<open>Several values of one variable are joined by \<open>Tcl_ConcatObj\<close>, from the left.\<close>

fun concat_values :: "web_lib \<Rightarrow> bytes list \<Rightarrow> bytes" where
  "concat_values lib [] = []"
| "concat_values lib (v # vs) = foldl (Tcl_ConcatObj lib) v vs"

lemma get_var_slice:
  assumes "j \<le> length p"
  shows "get_var_loop lib v p i j flag result = Ret (
     let vals = map (\<lambda>(k, v). StringToUtf lib v)
                  (filter (\<lambda>(k, _). key_matches_utf lib v k) (take (j - i) (drop i p)))
     in if flag then foldl (Tcl_ConcatObj lib) result vals
        else if vals = [] then result else concat_values lib vals)"
  using assms
proof (induction lib v p i j flag result rule: get_var_loop.induct)
  case (1 lib v p i j flag result)
  show ?case
  proof (cases "i < j")
    case True
    then have d: "take (j - i) (drop i p) = p ! i # take (j - Suc i) (drop (Suc i) p)"
      using 1(3) by (rule drop_step)
    obtain k val where kv: "p ! i = (k, val)" by fastforce
    show ?thesis
      using True 1 kv by (subst get_var_loop.simps) (simp add: d Let_def)
  next
    case False
    then show ?thesis by (subst get_var_loop.simps) simp
  qed
qed

lemma slice_source:
  assumes "web_ok req"
  shows "snd (var_slice source req) \<le> length (parms (apachereq req))"
    "take (snd (var_slice source req) - fst (var_slice source req))
       (drop (fst (var_slice source req)) (parms (apachereq req))) = source_params source req"
  using assms
  by (auto simp: web_ok_def var_slice_def coordinates_def source_params_def
      ApacheRequest_query_params_def ApacheRequest_post_params_def)

lemma all_params: "source_params VAR_SRC_ALL req
    = source_params VAR_SRC_QUERYSTRING req @ source_params VAR_SRC_POST req"
  by (simp add: source_params_def VAR_SRC_ALL_def VAR_SRC_POST_def VAR_SRC_QUERYSTRING_def
      ApacheRequest_query_params_def ApacheRequest_post_params_def)

text \<open>When the system encoding is UTF-8 the conversion is the identity and both comparisons are
  equality of C strings.\<close>

lemma strncmp_max: "strncmp_eq a b (max (length (cstr b)) (length (cstr a))) \<longleftrightarrow> cstr a = cstr b"
  by (simp add: strncmp_eq_def)

lemma key_matches_utf8:
  assumes "\<And>s. StringToUtf lib s = s"
  shows "key_matches lib v k \<longleftrightarrow> cstr v = cstr k" "key_matches_utf lib v k \<longleftrightarrow> cstr v = cstr k"
  by (simp_all add: key_matches_def key_matches_utf_def assms strncmp_max)

section \<open>Response headers as a state machine\<close>

datatype header_op = SetType bytes | Print | PrintErr "bytes option" int

fun header_step :: "web_lib \<Rightarrow> header_op \<Rightarrow> tclweb \<Rightarrow> tclweb" where
  "header_step lib (SetType t) req = fst (TclWeb_SetHeaderType t req)"
| "header_step lib Print req = fst (TclWeb_PrintHeaders req)"
| "header_step lib (PrintErr e h) req = TclWeb_PrintError lib e h req"

text \<open>What one step keeps: a type once set is final, and the headers are sent by the step that marks
  them printed.\<close>

definition header_rel :: "tclweb \<Rightarrow> tclweb \<Rightarrow> bool" where
  "header_rel req req' \<longleftrightarrow>
     (headers_set req \<longrightarrow> headers_set req' \<and> content_type req' = content_type req)
     \<and> (headers_printed req \<longrightarrow> headers_printed req')
     \<and> sent req' = sent req + (if headers_printed req' \<and> \<not> headers_printed req then 1 else 0)
     \<and> (headers_printed req' \<longrightarrow> headers_printed req \<or> headers_set req')"

lemma header_rel_refl: "header_rel req req"
  by (simp add: header_rel_def)

lemma header_rel_trans: "header_rel a b \<Longrightarrow> header_rel b c \<Longrightarrow> header_rel a c"
  by (cases "headers_printed a"; cases "headers_printed b"; cases "headers_printed c") (simp_all add: header_rel_def)

lemma header_rel_set: "header_rel req (fst (TclWeb_SetHeaderType t req))"
  by (simp add: header_rel_def TclWeb_SetHeaderType_def)

lemma header_rel_print: "header_rel req (fst (TclWeb_PrintHeaders req))"
  by (cases "headers_printed req"; cases "headers_set req"; cases "charset req")
     (simp_all add: header_rel_def TclWeb_PrintHeaders_def TclWeb_SetHeaderType_def Let_def)

lemma header_rel_rputs: "header_rel req req' \<Longrightarrow> header_rel req (ap_rputs s req')"
  by (simp add: header_rel_def ap_rputs_def)

lemma header_rel_error: "header_rel req (TclWeb_PrintError lib e h req)"
proof -
  have "header_rel req (fst (TclWeb_PrintHeaders (fst (TclWeb_SetHeaderType DEFAULT_HEADER_TYPE req))))"
    by (rule header_rel_trans [OF header_rel_set header_rel_print])
  then show ?thesis
    by (cases e; cases "h = 1") (simp_all add: TclWeb_PrintError_def Let_def header_rel_rputs)
qed

lemma header_step_rel: "header_rel req (header_step lib op req)"
  by (cases op) (simp_all add: header_rel_set header_rel_print header_rel_error)

lemma header_run_rel: "header_rel req (fold (header_step lib) ops req)"
proof (induction ops arbitrary: req)
  case (Cons op ops)
  from header_rel_trans [OF header_step_rel Cons.IH] show ?case by simp
qed (simp add: header_rel_refl)

lemma InitRequest_headers:
  "headers_printed (fst (TclWeb_InitRequest lib ct r req)) = False"
  "headers_set (fst (TclWeb_InitRequest lib ct r req)) = False"
  "sent (fst (TclWeb_InitRequest lib ct r req)) = sent req"
  by (simp_all add: TclWeb_InitRequest_def Let_def split: option.split)

section \<open>The classes of environment variables\<close>

lemma flag_or: "(x OR y) AND m \<noteq> 0" if "x AND m \<noteq> 0 \<or> y AND m \<noteq> 0" for x y m :: "32 word"
proof -
  have "a OR b = 0 \<longleftrightarrow> a = 0 \<and> b = 0" for a b :: "32 word"
    by (auto simp: bit_eq_iff bit_or_iff)
  then show ?thesis using that by (simp add: bit.conj_disj_distrib2)
qed

lemma env_masks:
  "ENV_COMMON_VARS_M \<noteq> 0" "ENV_CGI_VARS_M \<noteq> 0" "ENV_VARS_M \<noteq> 0"
  "ENV_COMMON_VARS_M AND ENV_COMMON_VARS_M \<noteq> 0" "ENV_CGI_VARS_M AND ENV_CGI_VARS_M \<noteq> 0"
  "ENV_VARS_M AND ENV_VARS_M \<noteq> 0"
  by (simp_all add: ENV_COMMON_VARS_M_def ENV_CGI_VARS_M_def ENV_VARS_M_def)

lemma env_flags:
  "(x OR ENV_COMMON_VARS_M) AND ENV_COMMON_VARS_M \<noteq> 0"
  "(x OR ENV_CGI_VARS_M) AND ENV_CGI_VARS_M \<noteq> 0"
  "ENV_LOADED x AND ENV_COMMON_VARS_M \<noteq> 0" "ENV_LOADED x AND ENV_CGI_VARS_M \<noteq> 0"
  "ENV_LOADED x AND ENV_VARS_M \<noteq> 0"
  "x AND ENV_COMMON_VARS_M \<noteq> 0 \<Longrightarrow> (x OR ENV_CGI_VARS_M) AND ENV_COMMON_VARS_M \<noteq> 0"
  by (simp_all add: ENV_LOADED_def flag_or env_masks)

lemma ENV_LOADED_again: "ENV_LOADED (ENV_LOADED x) = ENV_LOADED x"
  by (simp add: ENV_LOADED_def or.assoc)

lemma InitEnvVars_again: "TclWeb_InitEnvVars lib ri (TclWeb_InitEnvVars lib ri req) = TclWeb_InitEnvVars lib ri req"
  by (simp add: TclWeb_InitEnvVars_def Let_def env_flags ENV_LOADED_again)

lemma load_vars_simps:
  "apachereq (load_common_vars lib req) = apachereq req" "apachereq (load_cgi_vars lib req) = apachereq req"
  "load_common_vars lib (load_common_vars lib req) = load_common_vars lib req"
  "load_common_vars lib (load_cgi_vars lib (load_common_vars lib req)) = load_cgi_vars lib (load_common_vars lib req)"
  "load_cgi_vars lib (load_cgi_vars lib req) = load_cgi_vars lib req"
  "environment_set req AND ENV_COMMON_VARS_M \<noteq> 0 \<Longrightarrow> load_common_vars lib req = req"
  "environment_set req AND ENV_CGI_VARS_M \<noteq> 0 \<Longrightarrow> load_cgi_vars lib req = req"
  by (simp_all add: load_common_vars_def load_cgi_vars_def env_flags flag_or env_masks)

lemma GetEnvVar_loaded:
  "environment_set req AND ENV_COMMON_VARS_M \<noteq> 0 \<Longrightarrow> environment_set req AND ENV_CGI_VARS_M \<noteq> 0 \<Longrightarrow>
   fst (TclWeb_GetEnvVar lib ri key req) = req"
  by (simp add: TclWeb_GetEnvVar_def Let_def load_vars_simps split: option.split)

lemma InitEnvVars_flags:
  "environment_set (TclWeb_InitEnvVars lib ri req) AND ENV_COMMON_VARS_M \<noteq> 0"
  "environment_set (TclWeb_InitEnvVars lib ri req) AND ENV_CGI_VARS_M \<noteq> 0"
  by (simp_all add: TclWeb_InitEnvVars_def Let_def env_flags)
     (simp_all add: ENV_IS_LOADED_def ENV_COMMON_VARS_M_def ENV_CGI_VARS_M_def ENV_VARS_M_def)

lemma GetEnvVar_again:
  "TclWeb_GetEnvVar lib ri key (fst (TclWeb_GetEnvVar lib ri key req)) = TclWeb_GetEnvVar lib ri key req"
proof -
  let ?a = "load_common_vars lib req"
  let ?b = "load_cgi_vars lib ?a"
  show ?thesis
  proof (cases "apr_table_get (web_apr lib) (headers_in (req_r (apachereq req))) key")
    case n: None
    show ?thesis
    proof (cases "env_get lib (subprocess_env ?a) key")
      case None
      then show ?thesis
        using n by (cases "env_get lib (subprocess_env ?b) key")
          (simp_all add: TclWeb_GetEnvVar_def Let_def load_vars_simps)
    qed (use n in \<open>simp add: TclWeb_GetEnvVar_def Let_def load_vars_simps\<close>)
  qed (simp add: TclWeb_GetEnvVar_def)
qed

section \<open>Properties\<close>

lemma variable_lists:
  assumes "web_ok req"
  shows "TclWeb_GetAllVars lib source req
      = Ret (concat (map (\<lambda>(k, v). [StringToUtf lib k, StringToUtf lib v]) (source_params source req)))
    \<and> TclWeb_GetVarNames lib source req = Ret (map (\<lambda>(k, v). StringToUtf lib k) (source_params source req))
    \<and> TclWeb_GetVarAsList lib name source req
      = Ret (map (\<lambda>(k, v). StringToUtf lib v) (filter (\<lambda>(k, v). key_matches lib name k) (source_params source req)))
    \<and> TclWeb_VarNumber source req = int (length (source_params source req))
    \<and> source_params VAR_SRC_ALL req
      = source_params VAR_SRC_QUERYSTRING req @ source_params VAR_SRC_POST req"
proof -
  note s = slice_source [OF assms, of source]
  have n: "concat (map (\<lambda>(k, v). [StringToUtf lib k]) xs) = map (\<lambda>(k, v). StringToUtf lib k) xs" for xs
    by (induction xs) auto
  have l: "concat (map (\<lambda>(k, v). if key_matches lib name k then [StringToUtf lib v] else []) xs)
      = map (\<lambda>(k, v). StringToUtf lib v) (filter (\<lambda>(k, v). key_matches lib name k) xs)" for xs
    by (induction xs) auto
  have "TclWeb_VarNumber source req = int (length (source_params source req))"
    using assms
    by (auto simp: TclWeb_VarNumber_def source_params_def web_ok_def VAR_SRC_POST_def
        VAR_SRC_QUERYSTRING_def ApacheRequest_query_params_def ApacheRequest_post_params_def)
  then show ?thesis
    by (simp add: TclWeb_GetAllVars_def TclWeb_GetVarNames_def TclWeb_GetVarAsList_def
        collect_loop_slice [OF s(1)] s(2) n l all_params)
qed

text \<open>Every reader of the form variables sees exactly the slice of its source: the query string
  variables are those the query string put into the table, the post variables the others, and
  asking for all gives the query variables followed by the post variables. No read leaves the
  array, and the counts add up.\<close>

lemma form_variable_sources:
  assumes "web_ok req"
  shows "TclWeb_GetAllVars lib source req
      = Ret (concat (map (\<lambda>(k, v). [StringToUtf lib k, StringToUtf lib v]) (source_params source req)))
    \<and> TclWeb_GetVarNames lib source req = Ret (map (\<lambda>(k, v). StringToUtf lib k) (source_params source req))
    \<and> TclWeb_GetVarAsList lib name source req
      = Ret (map (\<lambda>(k, v). StringToUtf lib v) (filter (\<lambda>(k, v). key_matches lib name k) (source_params source req)))
    \<and> TclWeb_VarNumber source req = int (length (source_params source req))
    \<and> source_params VAR_SRC_ALL req
      = source_params VAR_SRC_QUERYSTRING req @ source_params VAR_SRC_POST req"
  by (rule variable_lists [OF assms])

definition demo_tclweb :: "bytes apr_table \<Rightarrow> nat \<Rightarrow> tclweb" where
  "demo_tclweb ps n = \<lparr> apachereq = (demo_req (demo_request M_GET None))\<lparr>parms := ps, nargs := n\<rparr>,
     headers_printed = False, headers_set = False, content_sent = 0, environment_set = 0, charset = None,
     req_upload = None, content_type = [], headers_out = [], subprocess_env = [], r_status = 200,
     aborted = False, written = [], sent = 0 \<rparr>"

definition demo_web :: web_lib where
  "demo_web = \<lparr> web_apr = demo_apr, StringToUtf = \<lambda>s. s, Tcl_ConcatObj = \<lambda>a b. a @ '' '' @ b,
     env_get = \<lambda>t k. Option.bind (map_of t k) id, env_put = \<lambda>t k v. (k, v) # t,
     ap_add_common_vars = \<lambda>t. (''SERVER_NAME'', Some ''h'') # t, ap_add_cgi_vars = \<lambda>t. (''REQUEST_METHOD'', Some ''GET'') # t,
     ap_ht_time = \<lambda>t g. ''now'', request_time = 0, ap_unescape_url = \<lambda>s. s, ap_escape_shell_cmd = \<lambda>s. s,
     user_name = ''www'', ap_escape_html = \<lambda>s. s, set_stdout_encoding = \<lambda>e. True,
     collapse_spaces = \<lambda>s. s \<rparr>"

lemma form_variable_sources_witness:
  "TclWeb_GetAllVars demo_web VAR_SRC_POST (demo_tclweb [(''a'', ''1''), (''b'', ''2'')] 1)
      = Ret (concat (map (\<lambda>(k, v). [StringToUtf demo_web k, StringToUtf demo_web v])
          (source_params VAR_SRC_POST (demo_tclweb [(''a'', ''1''), (''b'', ''2'')] 1))))
    \<and> TclWeb_GetVarNames demo_web VAR_SRC_POST (demo_tclweb [(''a'', ''1''), (''b'', ''2'')] 1)
      = Ret (map (\<lambda>(k, v). StringToUtf demo_web k)
          (source_params VAR_SRC_POST (demo_tclweb [(''a'', ''1''), (''b'', ''2'')] 1)))
    \<and> TclWeb_GetVarAsList demo_web ''b'' VAR_SRC_POST (demo_tclweb [(''a'', ''1''), (''b'', ''2'')] 1)
      = Ret (map (\<lambda>(k, v). StringToUtf demo_web v) (filter (\<lambda>(k, v). key_matches demo_web ''b'' k)
          (source_params VAR_SRC_POST (demo_tclweb [(''a'', ''1''), (''b'', ''2'')] 1))))
    \<and> TclWeb_VarNumber VAR_SRC_POST (demo_tclweb [(''a'', ''1''), (''b'', ''2'')] 1)
      = int (length (source_params VAR_SRC_POST (demo_tclweb [(''a'', ''1''), (''b'', ''2'')] 1)))
    \<and> source_params VAR_SRC_ALL (demo_tclweb [(''a'', ''1''), (''b'', ''2'')] 1)
      = source_params VAR_SRC_QUERYSTRING (demo_tclweb [(''a'', ''1''), (''b'', ''2'')] 1)
        @ source_params VAR_SRC_POST (demo_tclweb [(''a'', ''1''), (''b'', ''2'')] 1)"
  by (rule form_variable_sources) (simp add: web_ok_def demo_tclweb_def)

lemma variable_answers:
  assumes "web_ok req" "\<And>s. StringToUtf lib s = s"
  shows "\<exists>vals. TclWeb_GetVarAsList lib name source req = Ret vals
    \<and> vals = map snd (filter (\<lambda>(k, v). cstr name = cstr k) (source_params source req))
    \<and> TclWeb_VarExists lib name source req = Ret (vals \<noteq> [])
    \<and> TclWeb_GetVar lib name source req =
        (if concat_values lib vals = []
         then Fail (ErrMsg (''Variable '' @ [SQ] @ cstr name @ [SQ] @ '' not found''))
         else Ret (concat_values lib vals))"
proof -
  note s = slice_source [OF assms(1), of source]
  note m = key_matches_utf8 [OF assms(2)]
  let ?ps = "source_params source req"
  let ?vals = "map snd (filter (\<lambda>(k, v). cstr name = cstr k) ?ps)"
  have c: "concat (map (\<lambda>(k, v). if cstr name = cstr k then [StringToUtf lib v] else []) xs)
      = map snd (filter (\<lambda>(k, v). cstr name = cstr k) xs)" for xs
    by (induction xs) (auto simp: assms(2))
  have l: "TclWeb_GetVarAsList lib name source req = Ret ?vals"
    by (simp add: TclWeb_GetVarAsList_def collect_loop_slice [OF s(1)] s(2) m c)
  have x: "list_ex (\<lambda>(k, _). cstr name = cstr k) xs
      \<longleftrightarrow> filter (\<lambda>(k, v). cstr name = cstr k) xs \<noteq> []" for xs :: "(bytes \<times> bytes) list"
    by (induction xs) auto
  have e: "TclWeb_VarExists lib name source req = Ret (?vals \<noteq> [])"
    by (simp add: TclWeb_VarExists_def var_exists_slice [OF s(1)] s(2) m x)
  have u: "map (\<lambda>(k, v). StringToUtf lib v) xs = map snd xs" for xs
    by (induction xs) (auto simp: assms(2))
  have g: "TclWeb_GetVar lib name source req =
        (if concat_values lib ?vals = []
         then Fail (ErrMsg (''Variable '' @ [SQ] @ cstr name @ [SQ] @ '' not found''))
         else Ret (concat_values lib ?vals))"
    by (simp add: TclWeb_GetVar_def get_var_slice [OF s(1)] s(2) m u Let_def)
  show ?thesis using l e g by blast
qed

text \<open>With a UTF-8 system encoding the questions about one variable agree for every source: the
  list has the values of the parameters of that name in order; the variable exists exactly when the
  list is not empty; and reading it gives these values concatenated, unless the result is empty,
  which is reported as a variable that was not found.\<close>

lemma form_variable_answers:
  assumes "web_ok req" "\<And>s. StringToUtf lib s = s"
  shows "\<exists>vals. TclWeb_GetVarAsList lib name source req = Ret vals
    \<and> vals = map snd (filter (\<lambda>(k, v). cstr name = cstr k) (source_params source req))
    \<and> TclWeb_VarExists lib name source req = Ret (vals \<noteq> [])
    \<and> TclWeb_GetVar lib name source req =
        (if concat_values lib vals = []
         then Fail (ErrMsg (''Variable '' @ [SQ] @ cstr name @ [SQ] @ '' not found''))
         else Ret (concat_values lib vals))"
  by (rule variable_answers [OF assms])

lemma form_variable_answers_witness:
  "\<exists>vals. TclWeb_GetVarAsList demo_web ''b'' VAR_SRC_ALL (demo_tclweb [(''b'', ''1''), (''b'', ''2'')] 1) = Ret vals
    \<and> vals = map snd (filter (\<lambda>(k, v). cstr ''b'' = cstr k)
        (source_params VAR_SRC_ALL (demo_tclweb [(''b'', ''1''), (''b'', ''2'')] 1)))
    \<and> TclWeb_VarExists demo_web ''b'' VAR_SRC_ALL (demo_tclweb [(''b'', ''1''), (''b'', ''2'')] 1) = Ret (vals \<noteq> [])
    \<and> TclWeb_GetVar demo_web ''b'' VAR_SRC_ALL (demo_tclweb [(''b'', ''1''), (''b'', ''2'')] 1) =
        (if concat_values demo_web vals = []
         then Fail (ErrMsg (''Variable '' @ [SQ] @ cstr ''b'' @ [SQ] @ '' not found''))
         else Ret (concat_values demo_web vals))"
  by (rule form_variable_answers) (simp_all add: web_ok_def demo_tclweb_def demo_web_def)

text \<open>C8: the response headers of a request: from the moment the request starts, whatever sequence
  of setting the type, printing the headers and printing errors follows, the headers are sent at
  most once, they are sent exactly when they are marked as printed, never without a content type,
  and the type of headers that are set or printed does not change any more.\<close>

theorem headers_sent_once:
  assumes "start = fst (TclWeb_InitRequest lib ct r req)"
  shows "sent (fold (header_step lib) ops start) =
      sent start + (if headers_printed (fold (header_step lib) ops start) then 1 else 0)
    \<and> (headers_printed (fold (header_step lib) ops start)
         \<longrightarrow> headers_set (fold (header_step lib) ops start))
    \<and> (headers_set (fold (header_step lib) ops start)
         \<longrightarrow> content_type (fold (header_step lib) (ops @ ops') start)
           = content_type (fold (header_step lib) ops start))
    \<and> headers_printed (fold (header_step lib) (ops @ [Print]) start)"
proof -
  have i: "\<not> headers_printed start" "\<not> headers_set start"
    by (simp_all add: assms InitRequest_headers)
  have p: "headers_printed (fst (TclWeb_PrintHeaders q))" for q
    by (simp add: TclWeb_PrintHeaders_def Let_def)
  from header_run_rel [of start lib ops] header_run_rel [of "fold (header_step lib) ops start" lib ops']
  show ?thesis using i p by (auto simp: header_rel_def)
qed

definition demo_start :: tclweb where
  "demo_start = fst (TclWeb_InitRequest demo_web RIVET_TEMPLATE (demo_request M_GET None) (demo_tclweb [] 0))"

lemma headers_sent_once_witness:
  "headers_printed (fold (header_step demo_web) [SetType ''text/plain'', PrintErr None 0] demo_start)
    \<and> sent (fold (header_step demo_web) [SetType ''text/plain'', PrintErr None 0] demo_start) = sent demo_start + 1
    \<and> headers_set (fold (header_step demo_web) [SetType ''text/plain'', PrintErr None 0] demo_start)
    \<and> content_type (fold (header_step demo_web) ([SetType ''text/plain'', PrintErr None 0] @ [SetType ''text/xml'']) demo_start)
        = content_type (fold (header_step demo_web) [SetType ''text/plain'', PrintErr None 0] demo_start)"
proof -
  have "headers_printed (TclWeb_PrintError lib e h q)" for lib e h q
    by (cases e) (simp_all add: TclWeb_PrintError_def ap_rputs_def TclWeb_PrintHeaders_def Let_def)
  then show ?thesis
    using headers_sent_once [OF demo_start_def, of "[SetType ''text/plain'', PrintErr None 0]" "[SetType ''text/xml'']"]
    by simp
qed


section \<open>Behaviours worth knowing\<close>

text \<open>The name of an include variable is compared up to the shorter of the two strings: the empty
  name and every prefix or extension of a name select a variable.\<close>

lemma include_var_prefix:
  "TclWeb_GetEnvIncludeVar lib ri r [] = TclWeb_GetEnvIncludeVar lib ri r ''DATE_LOCAL''"
  "TclWeb_GetEnvIncludeVar lib ri r ''D'' = TclWeb_GetEnvIncludeVar lib ri r ''DATE_LOCAL''"
  "TclWeb_GetEnvIncludeVar lib ri r ''USER_NAME_X'' = TclWeb_GetEnvIncludeVar lib ri r ''USER_NAME''"
  by (simp_all add: TclWeb_GetEnvIncludeVar_def include_env_vars_def strncmp_eq_def)

text \<open>Where the conversion lengthens a key (here Latin-1 to UTF-8) the comparison bounded by the
  length of the key as sent ignores the end of the converted key.\<close>

definition e_acute_utf8 :: "bytes \<Rightarrow> bytes" where
  "e_acute_utf8 s = concat (map (\<lambda>c. if c = CHR 0xE9 then [CHR 0xC3, CHR 0xA9] else [c]) s)"

lemma key_matches_short:
  "key_matches (demo_web\<lparr>StringToUtf := e_acute_utf8\<rparr>) [CHR 0xC3, CHR 0xA9] [CHR 0xE9, CHR 0xE9]"
  "\<not> key_matches_utf (demo_web\<lparr>StringToUtf := e_acute_utf8\<rparr>) [CHR 0xC3, CHR 0xA9] [CHR 0xE9, CHR 0xE9]"
  by (simp_all add: key_matches_def key_matches_utf_def strncmp_eq_def e_acute_utf8_def)

end
