(* ===== verification/Rivet_Thread.thy ===== *)
theory Rivet_Thread
  imports Rivet_TclWeb Rivet_Config
begin

text \<open>
  The state of an execution thread (\<open>rivet_thread_private\<close> of src/src/mod_rivet_ng/mod_rivet.h), the
  output channel of src/src/mod_rivet_ng/rivetChannel.c and the commands of rivetCore.c that control
  the processing of a page: \<open>no_body\<close>, \<open>abort_page\<close>, \<open>abort_code\<close>, \<open>exit\<close>. A command gets the
  private data of its thread, NULL for the interpreter of the server initialization, and its words;
  it returns the private data and an outcome, whose value is the Tcl result.
\<close>

section \<open>The private data of a thread\<close>

text \<open>The request fields \<open>r_notes\<close> and \<open>err_headers_out\<close> of httpd are only used by \<open>apache_table\<close>,
  \<open>allowed\<close> is the field of that name: what the module writes for httpd to read.\<close>

record rivet_thread_private =
  req_cnt :: nat
  ctype :: rivet_req_ctype
  priv_r :: "request_rec option"
  priv_req :: tclweb
  running_conf :: "rivet_server_conf option"
  running :: "running_scripts option"
  thread_exit :: bool
  exit_status :: int
  page_aborting :: bool
  abort_code :: "tobj option"
  r_notes :: "bytes apr_table"
  err_headers_out :: "bytes apr_table"
  allowed :: "64 word"

type_synonym 'st cmd = "'st \<times> tobj outcome"

text \<open>An empty interpreter result.\<close>

abbreviation no_result :: tobj where "no_result \<equiv> TStr []"

definition Rivet_NoRequestRec :: "bytes \<Rightarrow> tcl_error" where
  "Rivet_NoRequestRec command = ErrMsg (''Cannot call '' @ command @ '' outside a request processing'')"

text \<open>\<open>CHECK_REQUEST_REC\<close>: without private data the command returns at once, with success; outside
  a request it fails. The commands without the macro dereference the pointer.\<close>

definition CHECK_REQUEST_REC ::
    "bytes \<Rightarrow> 'a \<Rightarrow> (request_rec \<Rightarrow> rivet_thread_private \<Rightarrow> rivet_thread_private \<times> 'a outcome) \<Rightarrow>
     rivet_thread_private option \<Rightarrow> rivet_thread_private option \<times> 'a outcome" where
  "CHECK_REQUEST_REC cmd_name nothing body private =
     (case private of
        None \<Rightarrow> (None, Ret nothing)
      | Some p \<Rightarrow>
          (case priv_r p of
             None \<Rightarrow> (Some p, Fail (Rivet_NoRequestRec cmd_name))
           | Some rec \<Rightarrow> map_prod Some id (body rec p)))"

definition deref_private ::
    "(rivet_thread_private \<Rightarrow> rivet_thread_private cmd) \<Rightarrow>
     rivet_thread_private option \<Rightarrow> rivet_thread_private option cmd" where
  "deref_private body private =
     (case private of None \<Rightarrow> (None, Fault NullDeref) | Some p \<Rightarrow> map_prod Some id (body p))"

section \<open>The output channel\<close>

text \<open>\<open>RivetChan_OutputProc\<close>: the headers go first, the bytes only while the content is not declared
  as sent; all bytes count as written. Outside a request there is no record to write to.\<close>

definition RivetChan_OutputProc ::
    "bytes \<Rightarrow> rivet_thread_private \<Rightarrow> (rivet_thread_private \<times> int) outcome" where
  "RivetChan_OutputProc buf p =
     (if priv_r p = None \<and> (\<not> headers_printed (priv_req p) \<or> content_sent (priv_req p) = 0)
      then Fault NullDeref
      else
        let q = fst (TclWeb_PrintHeaders (priv_req p));
            q = (if content_sent q = 0 then ap_rputs buf q else q)
        in Ret (p\<lparr>priv_req := q\<rparr>, int (length buf)))"

definition Rivet_NoBody :: "rivet_thread_private option \<Rightarrow> rivet_thread_private option cmd" where
  "Rivet_NoBody = CHECK_REQUEST_REC ''::rivet::no_body'' no_result
     (\<lambda>rec p. if content_sent (priv_req p) = 1 then (p, Fail (ErrMsg ''Content already sent''))
              else (p\<lparr>priv_req := (priv_req p)\<lparr>content_sent := 1\<rparr>\<rparr>, Ret no_result))"

section \<open>Aborting a page\<close>

definition ABORTPAGE_CODE :: bytes where "ABORTPAGE_CODE = ''ABORTPAGE''"
definition THREAD_EXIT_CODE :: bytes where "THREAD_EXIT_CODE = ''THREAD_EXIT''"

definition abort_error :: tcl_error where
  "abort_error =
     (let errorMessage = ''Page generation terminated by abort_page directive''
      in ErrCode [''RIVET'', ABORTPAGE_CODE, errorMessage] errorMessage)"

definition bool_obj :: "bool \<Rightarrow> tobj" where "bool_obj b = TInt (if b then 1 else 0)"

definition Rivet_AbortPageCmd ::
    "bytes list \<Rightarrow> rivet_thread_private option \<Rightarrow> rivet_thread_private option cmd" where
  "Rivet_AbortPageCmd objv private =
     (if length objv > 2 then (private, Fail (WrongNumArgs 1 ''''))
      else deref_private
        (\<lambda>p.
           if length objv = 2 \<and> cstr (objv ! 1) = ''-aborting'' then (p, Ret (bool_obj (page_aborting p)))
           else if length objv = 2 \<and> cstr (objv ! 1) = ''-exiting'' then (p, Ret (bool_obj (thread_exit p)))
           else
             let p = (if length objv = 2 \<and> abort_code p = None
                      then p\<lparr>abort_code := Some (TStr (objv ! 1))\<rparr> else p)
             in if page_aborting p then (p, Ret no_result)
                else (p\<lparr>page_aborting := True\<rparr>, Fail abort_error)) private)"

definition Rivet_AbortCodeCmd :: "rivet_thread_private option \<Rightarrow> rivet_thread_private option cmd" where
  "Rivet_AbortCodeCmd =
     deref_private (\<lambda>p. (p, Ret (case abort_code p of None \<Rightarrow> no_result | Some c \<Rightarrow> c)))"

text \<open>\<open>Tcl_GetIntFromObj\<close> is a parameter.\<close>

definition Rivet_ExitCmd ::
    "(bytes \<Rightarrow> int option) \<Rightarrow> bytes list \<Rightarrow> rivet_thread_private option \<Rightarrow> rivet_thread_private option cmd" where
  "Rivet_ExitCmd get_int objv private =
     (if length objv \<noteq> 1 \<and> length objv \<noteq> 2 then (private, Fail (WrongNumArgs 1 ''?returnCode?''))
      else
        case (if length objv = 1 then Some 0 else get_int (objv ! 1)) of
          None \<Rightarrow> (private, Fail LibError)
        | Some value \<Rightarrow>
            deref_private
              (\<lambda>p. (p\<lparr>page_aborting := True,
                      abort_code := Some (TDict [(''error_code'', ''exit''), (''return_code'', printf_d value)]),
                      thread_exit := True, exit_status := value\<rparr>,
                    let errorMessage = ''page generation interrupted by exit command''
                    in Fail (ErrCode [''RIVET'', THREAD_EXIT_CODE, errorMessage] errorMessage))) private)"

text \<open>A run of \<open>abort_page\<close> calls, each with or without an argument.\<close>

fun abort_calls :: "bytes option list \<Rightarrow> rivet_thread_private \<Rightarrow> rivet_thread_private \<times> tobj outcome list" where
  "abort_calls [] p = (p, [])"
| "abort_calls (a # as) p =
     (case Rivet_AbortPageCmd (''abort_page'' # (case a of None \<Rightarrow> [] | Some c \<Rightarrow> [c])) (Some p) of
        (Some p', res) \<Rightarrow> (case abort_calls as p' of (p'', rs) \<Rightarrow> (p'', res # rs))
      | (None, res) \<Rightarrow> (p, [res]))"

section \<open>What one call does\<close>

definition is_query :: "bytes option \<Rightarrow> bool" where
  "is_query a = (case a of None \<Rightarrow> False | Some c \<Rightarrow> cstr c = ''-aborting'' \<or> cstr c = ''-exiting'')"

definition first_code :: "tobj option \<Rightarrow> bytes option list \<Rightarrow> tobj option" where
  "first_code code pages =
     (if code \<noteq> None then code else map_option TStr (Option.bind (find (\<lambda>a. a \<noteq> None) pages) id))"

lemma abort_call_query:
  "is_query a \<Longrightarrow> abort_calls (a # as) p =
     (case abort_calls as p of (p', rs) \<Rightarrow>
        (p', Ret (bool_obj (if cstr (the a) = ''-aborting'' then page_aborting p else thread_exit p)) # rs))"
  by (auto simp: is_query_def Rivet_AbortPageCmd_def deref_private_def split: option.splits)

lemma abort_call_page:
  "\<not> is_query a \<Longrightarrow> abort_calls (a # as) p =
     (case abort_calls as (p\<lparr>page_aborting := True, abort_code := first_code (abort_code p) [a]\<rparr>) of
        (p', rs) \<Rightarrow> (p', (if page_aborting p then Ret no_result else Fail abort_error) # rs))"
  by (cases a; cases "abort_code p"; cases "page_aborting p"; cases p)
     (simp_all add: is_query_def Rivet_AbortPageCmd_def deref_private_def Let_def first_code_def)

lemma first_code_Cons: "first_code (first_code code [a]) as = first_code code (a # as)"
  by (cases a) (simp_all add: first_code_def)

lemma abort_calls_result:
  "abort_calls calls p = (p', res) \<Longrightarrow> pages = filter (\<lambda>a. \<not> is_query a) calls \<Longrightarrow>
   length res = length calls
   \<and> p' = p\<lparr>page_aborting := page_aborting p \<or> pages \<noteq> [], abort_code := first_code (abort_code p) pages\<rparr>
   \<and> map snd (filter (\<lambda>(a, _). \<not> is_query a) (zip calls res))
     = (if page_aborting p then replicate (length pages) (Ret no_result)
        else if pages = [] then [] else Fail abort_error # replicate (length pages - 1) (Ret no_result))"
proof (induction calls arbitrary: p p' res pages)
  case Nil
  then show ?case by (cases p) (auto simp: first_code_def)
next
  case (Cons a calls)
  show ?case
  proof (cases "is_query a")
    case True
    then obtain rs x where "abort_calls calls p = (p', rs)" "res = x # rs"
      using Cons.prems(1) by (auto simp only: abort_call_query split: prod.splits)
    with Cons.IH [of p p' rs] Cons.prems(2) True show ?thesis by simp
  next
    case False
    let ?p = "p\<lparr>page_aborting := True, abort_code := first_code (abort_code p) [a]\<rparr>"
    from False obtain rs where rs: "abort_calls calls ?p = (p', rs)"
        "res = (if page_aborting p then Ret no_result else Fail abort_error) # rs"
      using Cons.prems(1) unfolding abort_call_page [OF False] by (auto split: prod.splits)
    with Cons.IH [OF rs(1) refl] Cons.prems(2) False show ?thesis
      by (simp add: first_code_Cons)
  qed
qed

section \<open>Properties\<close>


definition demo_thread :: rivet_thread_private where
  "demo_thread = \<lparr> req_cnt = 1, ctype = RIVET_TEMPLATE, priv_r = Some (demo_request M_GET None),
     priv_req = demo_tclweb [] 0, running_conf = Some RIVET_NEW_CONF, running = Some no_scripts,
     thread_exit = False, exit_status = 0, page_aborting = False, abort_code = None, r_notes = [],
     err_headers_out = [], allowed = 0 \<rparr>"


end
