(* ===== verification/Rivet_Core.thy ===== *)
theory Rivet_Core
  imports Rivet_Thread
begin

text \<open>
  src/src/mod_rivet_ng/rivetCore.c: the commands that read and write the request of the thread:
  \<open>makeurl\<close>, \<open>headers\<close>, \<open>load_env\<close>, \<open>load_headers\<close>, \<open>var\<close> and its variants, \<open>apache_table\<close>, \<open>upload\<close>,
  \<open>raw_post\<close>, \<open>env\<close>, \<open>virtual_filename\<close>, \<open>thread_id\<close>. The words of a command are the list \<open>objv\<close>,
  the first is the command name. Tcl library routines and httpd services are fields of \<open>core_lib\<close>;
  \<open>ri\<close> is the interpreter object of the running configuration.
\<close>

section \<open>Library\<close>

text \<open>\<open>get_index\<close> is \<open>Tcl_GetIndexFromObj\<close>, \<open>dict_entries\<close> the search through a dictionary value,
  \<open>dict_get\<close> (no key: \<open>Some None\<close>) and \<open>dict_put\<close> work on the list form of a dictionary.\<close>

record core_lib =
  web :: web_lib
  get_index :: "bytes list \<Rightarrow> bytes \<Rightarrow> nat option"
  get_int :: "bytes \<Rightarrow> int option"
  list_elements :: "bytes \<Rightarrow> bytes list option"
  dict_entries :: "bytes \<Rightarrow> (bytes \<times> bytes) list option"
  dict_get :: "bytes list \<Rightarrow> bytes \<Rightarrow> bytes option option"
  dict_put :: "bytes list \<Rightarrow> bytes \<Rightarrow> bytes \<Rightarrow> bytes list"
  ap_construct_url :: "bytes option \<Rightarrow> bytes"
  sub_req_lookup_uri :: "bytes \<Rightarrow> (int \<times> bool \<times> bytes) option"
  file_copy :: "bytes \<Rightarrow> bytes \<Rightarrow> bytes option"
  upload_io :: file_io
  upload_channel :: "bytes \<Rightarrow> bytes option"
  parse_request :: "apache_request \<Rightarrow> apache_request outcome"

abbreviation apr :: "core_lib \<Rightarrow> apr_lib" where "apr lib \<equiv> web_apr (web lib)"

text \<open>Documented behaviour of the table routines: names are compared without regard to case, \<open>set\<close>
  replaces, \<open>unset\<close> removes.\<close>

definition table_laws :: "apr_lib \<Rightarrow> bool" where
  "table_laws lib \<longleftrightarrow>
     (\<forall>t k v k'. apr_table_get lib (apr_table_set lib t k v) k'
        = (if strcaseEQ k k' then Some v else apr_table_get lib t k'))
     \<and> (\<forall>t k k'. apr_table_get lib (apr_table_unset lib t k) k'
        = (if strcaseEQ k k' then None else apr_table_get lib t k'))
     \<and> (\<forall>k. apr_table_get lib [] k = None)"

definition dict_laws :: "core_lib \<Rightarrow> bool" where
  "dict_laws lib \<longleftrightarrow>
     (\<forall>d k v k'. dict_get lib (dict_put lib d k v) k' = (if k' = k then Some (Some v) else dict_get lib d k'))"

section \<open>URLs\<close>

definition Rivet_MakeURL ::
    "core_lib \<Rightarrow> rivet_thread_interp \<Rightarrow> bytes list \<Rightarrow> rivet_thread_private option \<Rightarrow> rivet_thread_private option cmd" where
  "Rivet_MakeURL lib ri objv private =
     (if length objv > 2 then (private, Fail (WrongNumArgs 1 ''filename''))
      else CHECK_REQUEST_REC ''::rivet::makeurl'' no_result
        (\<lambda>rec p.
           let script_name = TclWeb_GetEnvVar (web lib) ri ''SCRIPT_NAME'' (priv_req p);
               p' = p\<lparr>priv_req := fst script_name\<rparr>;
               url = (\<lambda>name. Ret (TStr (ap_construct_url lib name)))
           in if length objv = 1 then (p', url (snd script_name))
              else
                let target = cstr (objv ! 1) in
                if byte0 target \<noteq> CHR ''/'' then
                  (p', case snd script_name of
                         None \<Rightarrow> Fault NullDeref
                       | Some s \<Rightarrow>
                           if length s > 0 then
                             if last s = CHR ''/'' then url (Some (s @ target))
                             else url (Some (s @ ''/'' @ target))
                           else url (Some (''/'' @ target)))
                else (p, url (Some target))) private)"

section \<open>Headers\<close>

definition Rivet_Headers ::
    "core_lib \<Rightarrow> bytes list \<Rightarrow> rivet_thread_private option \<Rightarrow> rivet_thread_private option cmd" where
  "Rivet_Headers lib objv = CHECK_REQUEST_REC ''::rivet::headers'' no_result
     (\<lambda>rec p.
        let q = priv_req p; objc = length objv; done = (\<lambda>q. (p\<lparr>priv_req := q\<rparr>, Ret no_result)) in
        if objc < 2 then (p, Fail (WrongNumArgs 1 ''option arg ?arg ...?''))
        else
          let opt = cstr (objv ! 1) in
          if opt = ''sent'' then (p, Ret (bool_obj (headers_printed q)))
          else if headers_printed q then (p, Fail (ErrMsg ''Cannot manipulate headers - already sent''))
          else if opt = ''redirect'' then
            if objc \<noteq> 3 then (p, Fail (WrongNumArgs 2 ''new-url''))
            else done (TclWeb_SetStatus 301 (TclWeb_HeaderSet (web lib) ''Location'' (objv ! 2) q))
          else if opt = ''get'' then
            if objc \<noteq> 3 then (p, Fail (WrongNumArgs 2 ''headername''))
            else (p, Ret (TStr (case TclWeb_OutputHeaderGet (web lib) (objv ! 2) q of Some v \<Rightarrow> v | None \<Rightarrow> [])))
          else if opt = ''set'' then
            if objc \<noteq> 4 then (p, Fail (WrongNumArgs 2 ''headername value''))
            else done (TclWeb_HeaderSet (web lib) (objv ! 2) (objv ! 3) q)
          else if opt = ''add'' then
            if objc \<noteq> 4 then (p, Fail (WrongNumArgs 2 ''headername value''))
            else done (TclWeb_HeaderAdd (web lib) (objv ! 2) (objv ! 3) q)
          else if opt = ''type'' then
            if objc \<noteq> 3 then (p, Fail (WrongNumArgs 2 ''mime/type''))
            else done (fst (TclWeb_SetHeaderType (objv ! 2) q))
          else if opt = ''numeric'' then
            if objc \<noteq> 3 then (p, Fail (WrongNumArgs 2 ''response_code_number''))
            else (case get_int lib (objv ! 2) of
                    Some st \<Rightarrow> done (TclWeb_SetStatus st q)
                  | None \<Rightarrow> (p, Fail LibError))
          else (p, Fail (ErrMsg (''unrecognized subcommand: '' @ opt))))"

section \<open>Environment\<close>

definition ENV_ARRAY_NAME :: bytes where "ENV_ARRAY_NAME = ''::request::env''"
definition HEADERS_ARRAY_NAME :: bytes where "HEADERS_ARRAY_NAME = ''::request::headers''"

text \<open>These two commands assign the elements of an array variable and leave an empty result: the
  value here is the array name with the assignments.\<close>

definition Rivet_LoadEnv ::
    "core_lib \<Rightarrow> rivet_thread_interp \<Rightarrow> bytes list \<Rightarrow> rivet_thread_private option \<Rightarrow>
     rivet_thread_private option \<times> (bytes \<times> (bytes \<times> bytes) list) outcome" where
  "Rivet_LoadEnv lib ri objv = CHECK_REQUEST_REC ''::rivet::load_env'' ([], [])
     (\<lambda>rec p.
        if length objv > 2 then (p, Fail (WrongNumArgs 1 ''?arrayName?''))
        else
          let ArrayObj = (if length objv = 2 then objv ! 1 else ENV_ARRAY_NAME);
              (q, vars) = TclWeb_GetEnvVars (web lib) ri (priv_req p)
          in (p\<lparr>priv_req := q\<rparr>, Ret (ArrayObj, vars)))"

definition Rivet_LoadHeaders ::
    "core_lib \<Rightarrow> bytes list \<Rightarrow> rivet_thread_private option \<Rightarrow>
     rivet_thread_private option \<times> (bytes \<times> (bytes \<times> bytes) list) outcome" where
  "Rivet_LoadHeaders lib objv = CHECK_REQUEST_REC ''::rivet::load_headers'' ([], [])
     (\<lambda>rec p.
        if length objv > 2 then (p, Fail (WrongNumArgs 1 ''?arrayName?''))
        else
          let ArrayObj = (if length objv = 2 then objv ! 1 else HEADERS_ARRAY_NAME)
          in (p, Ret (ArrayObj, TclWeb_GetHeaderVars (web lib) (priv_req p))))"

definition Rivet_EnvCmd ::
    "core_lib \<Rightarrow> rivet_thread_interp \<Rightarrow> bytes list \<Rightarrow> rivet_thread_private option \<Rightarrow> rivet_thread_private option cmd" where
  "Rivet_EnvCmd lib ri objv = CHECK_REQUEST_REC ''::rivet::env'' no_result
     (\<lambda>rec p.
        if length objv \<noteq> 2 then (p, Fail (WrongNumArgs 1 ''variable''))
        else
          let (q, val) = TclWeb_GetEnvVar (web lib) ri (cstr (objv ! 1)) (priv_req p)
          in (p\<lparr>priv_req := q\<rparr>, Ret (TStr (case val of None \<Rightarrow> [] | Some v \<Rightarrow> v))))"

definition Rivet_VirtualFilenameCmd ::
    "core_lib \<Rightarrow> bytes list \<Rightarrow> rivet_thread_private option \<Rightarrow> rivet_thread_private option cmd" where
  "Rivet_VirtualFilenameCmd lib objv = CHECK_REQUEST_REC ''::rivet::virtual_filename'' no_result
     (\<lambda>rec p.
        if length objv \<noteq> 2 then (p, Fail (WrongNumArgs 1 ''filename''))
        else (p, bindO (TclWeb_GetVirtualFile (sub_req_lookup_uri lib) (cstr (objv ! 1)))
                   (\<lambda>name. Ret (TStr (case name of None \<Rightarrow> [] | Some f \<Rightarrow> f)))))"

definition Rivet_RawPost :: "rivet_thread_private option \<Rightarrow> rivet_thread_private option cmd" where
  "Rivet_RawPost = CHECK_REQUEST_REC ''::rivet::raw_post'' no_result
     (\<lambda>rec p. (p, case TclWeb_GetRawPost (priv_req p) of
                     (None, len) \<Rightarrow> if len > 1 then Fault OutOfBounds else Ret (TByteArray (take (nat len) [NUL]))
                   | (Some data, len) \<Rightarrow>
                       if len > int (length data) then Fault OutOfBounds
                       else Ret (TByteArray (take (nat len) data))))"

section \<open>Form variables\<close>

text \<open>The name of the command behind its last namespace separator: \<open>n\<close> runs backwards from the end of
  the string. An empty name would be read in front of its first byte.\<close>

fun command_tail :: "bytes \<Rightarrow> nat \<Rightarrow> nat" where
  "command_tail cmd 0 = 0"
| "command_tail cmd (Suc n) =
     (if n = 0 then 0
      else if cmd ! n = CHR '':'' \<and> cmd ! (n - 1) = CHR '':'' then n + 1
      else command_tail cmd n)"

definition var_source :: "bytes \<Rightarrow> int" where
  "var_source cmd =
     (let cmd = drop (command_tail cmd (length cmd)) cmd in
      if cmd = ''var_qs'' then VAR_SRC_QUERYSTRING
      else if cmd = ''var_post'' then VAR_SRC_POST
      else VAR_SRC_ALL)"

text \<open>The default values complete the list of variables.\<close>

definition var_defaults :: "core_lib \<Rightarrow> bytes list \<Rightarrow> (bytes \<times> bytes) list \<Rightarrow> bytes list" where
  "var_defaults lib result defaults =
     foldl (\<lambda>res (key, value).
        case dict_get lib res key of Some None \<Rightarrow> dict_put lib res key value | _ \<Rightarrow> res) result defaults"

text \<open>Where a \<open>TclWeb\<close> routine reports an error the command goes on with a fixed value.\<close>

definition or_else :: "'a outcome \<Rightarrow> 'a \<Rightarrow> 'a outcome" where
  "or_else m d = (case m of Fail e \<Rightarrow> Ret d | _ \<Rightarrow> m)"

definition Rivet_Var ::
    "core_lib \<Rightarrow> bytes list \<Rightarrow> rivet_thread_private option \<Rightarrow> rivet_thread_private option cmd" where
  "Rivet_Var lib objv = CHECK_REQUEST_REC ''::rivet::var,::rivet::var_post,::rivet::var_qs'' no_result
     (\<lambda>rec p. (p,
        let objc = length objv; q = priv_req p in
        if objc < 2 \<or> objc > 4 then
          Fail (WrongNumArgs 1 ''(get varname ?default?|list varname|exists varname|names|number|all)'')
        else if cstr (objv ! 0) = [] then Fault OutOfBounds
        else
          let source = var_source (cstr (objv ! 0)); command = cstr (objv ! 1) in
          if command = ''get'' then
            if objc \<noteq> 3 \<and> objc \<noteq> 4 then Fail (WrongNumArgs 2 ''variablename ?defaultval?'')
            else bindO (or_else (TclWeb_GetVar (web lib) (objv ! 2) source q)
                          (if objc = 4 then cstr (objv ! 3) else [])) (\<lambda>v. Ret (TStr v))
          else if command = ''exists'' then
            if objc \<noteq> 3 then Fail (WrongNumArgs 2 ''variablename'')
            else bindO (TclWeb_VarExists (web lib) (objv ! 2) source q) (\<lambda>b. Ret (bool_obj b))
          else if command = ''list'' then
            if objc \<noteq> 3 then Fail (WrongNumArgs 2 ''variablename'')
            else bindO (or_else (TclWeb_GetVarAsList (web lib) (objv ! 2) source q) []) (\<lambda>l. Ret (TList l))
          else if command = ''names'' then
            if objc \<noteq> 2 then Fail (WrongNumArgs 2 '''')
            else bindO (or_else (TclWeb_GetVarNames (web lib) source q) []) (\<lambda>l. Ret (TList l))
          else if command = ''number'' then
            if objc \<noteq> 2 then Fail (WrongNumArgs 2 '''')
            else Ret (TInt (TclWeb_VarNumber source q))
          else if command = ''all'' then
            bindO (or_else (TclWeb_GetAllVars (web lib) source q) [])
              (\<lambda>l. if objc \<ge> 3 then
                     (case dict_entries lib (objv ! 2) of
                        None \<Rightarrow> Fail (ErrCode [''invalid_dictionary_value'']
                          ''Impossible to interpret the default values argument as a dictionary value'')
                      | Some defaults \<Rightarrow> Ret (TList (var_defaults lib l defaults)))
                   else Ret (TList l))
          else Fail (ErrMsg (''bad option: must be one of '' @ [SQ] @ ''get, list, names, number, all'' @ [SQ]))))"

section \<open>Tables of the request\<close>

datatype tablename = TABLE_NOTES | TABLE_HEADERS_IN | TABLE_HEADERS_OUT | TABLE_ERR_HEADERS_OUT
  | TABLE_SUBPROCESS_ENV

definition table_names :: "(bytes \<times> tablename) list" where
  "table_names = [(''notes'', TABLE_NOTES), (''headers_in'', TABLE_HEADERS_IN),
     (''headers_out'', TABLE_HEADERS_OUT), (''err_headers_out'', TABLE_ERR_HEADERS_OUT),
     (''subprocess_env'', TABLE_SUBPROCESS_ENV)]"

datatype table_subcommand = SUB_GET | SUB_SET | SUB_EXISTS | SUB_UNSET | SUB_NAMES | SUB_ARRAY_GET | SUB_CLEAR

definition table_subcommands :: "(bytes \<times> table_subcommand) list" where
  "table_subcommands = [(''get'', SUB_GET), (''set'', SUB_SET), (''exists'', SUB_EXISTS),
     (''unset'', SUB_UNSET), (''names'', SUB_NAMES), (''array_get'', SUB_ARRAY_GET), (''clear'', SUB_CLEAR)]"

text \<open>A table seen as text entries. The environment table may hold NULL values, which the commands
  treat as missing when they look a name up and as empty strings when they list the table.\<close>

definition read_table :: "tablename \<Rightarrow> rivet_thread_private \<Rightarrow> request_rec \<Rightarrow> bytes option apr_table" where
  "read_table t p rec =
     (case t of
        TABLE_NOTES \<Rightarrow> map (map_prod id Some) (r_notes p)
      | TABLE_HEADERS_IN \<Rightarrow> map (map_prod id Some) (headers_in rec)
      | TABLE_HEADERS_OUT \<Rightarrow> map (map_prod id Some) (headers_out (priv_req p))
      | TABLE_ERR_HEADERS_OUT \<Rightarrow> map (map_prod id Some) (err_headers_out p)
      | TABLE_SUBPROCESS_ENV \<Rightarrow> subprocess_env (priv_req p))"

text \<open>\<open>f\<close> changes a table of strings, \<open>g\<close> does the same on the table with NULL values. The request
  record is held by the thread and by its request object.\<close>

definition change_table ::
    "tablename \<Rightarrow> (bytes apr_table \<Rightarrow> bytes apr_table) \<Rightarrow> (bytes option apr_table \<Rightarrow> bytes option apr_table) \<Rightarrow>
     rivet_thread_private \<Rightarrow> request_rec \<Rightarrow> rivet_thread_private" where
  "change_table t f g p rec =
     (let q = priv_req p in
      case t of
        TABLE_NOTES \<Rightarrow> p\<lparr>r_notes := f (r_notes p)\<rparr>
      | TABLE_HEADERS_IN \<Rightarrow>
          let rec = rec\<lparr>headers_in := f (headers_in rec)\<rparr>
          in p\<lparr>priv_r := Some rec, priv_req := q\<lparr>apachereq := (apachereq q)\<lparr>req_r := rec\<rparr>\<rparr>\<rparr>
      | TABLE_HEADERS_OUT \<Rightarrow> p\<lparr>priv_req := q\<lparr>headers_out := f (headers_out q)\<rparr>\<rparr>
      | TABLE_ERR_HEADERS_OUT \<Rightarrow> p\<lparr>err_headers_out := f (err_headers_out p)\<rparr>
      | TABLE_SUBPROCESS_ENV \<Rightarrow> p\<lparr>priv_req := q\<lparr>subprocess_env := g (subprocess_env q)\<rparr>\<rparr>)"

definition lookup_table ::
    "core_lib \<Rightarrow> tablename \<Rightarrow> rivet_thread_private \<Rightarrow> request_rec \<Rightarrow> bytes \<Rightarrow> bytes option" where
  "lookup_table lib t p rec key =
     (case t of
        TABLE_NOTES \<Rightarrow> apr_table_get (apr lib) (r_notes p) key
      | TABLE_HEADERS_IN \<Rightarrow> apr_table_get (apr lib) (headers_in rec) key
      | TABLE_HEADERS_OUT \<Rightarrow> apr_table_get (apr lib) (headers_out (priv_req p)) key
      | TABLE_ERR_HEADERS_OUT \<Rightarrow> apr_table_get (apr lib) (err_headers_out p) key
      | TABLE_SUBPROCESS_ENV \<Rightarrow> env_get (web lib) (subprocess_env (priv_req p)) key)"

fun set_pairs :: "('t \<Rightarrow> bytes \<Rightarrow> bytes \<Rightarrow> 't) \<Rightarrow> bytes list \<Rightarrow> 't \<Rightarrow> 't" where
  "set_pairs f (k # v # kvs) t = set_pairs f kvs (f t (cstr k) (cstr v))"
| "set_pairs f _ t = t"

definition set_in_request ::
    "core_lib \<Rightarrow> tablename \<Rightarrow> bytes list \<Rightarrow> rivet_thread_private \<Rightarrow> request_rec \<Rightarrow> rivet_thread_private" where
  "set_in_request lib t kvs p rec =
     change_table t (set_pairs (apr_table_set (apr lib)) kvs)
       (set_pairs (\<lambda>tab k v. env_put (web lib) tab k (Some v)) kvs) p rec"

definition Rivet_ApacheTable ::
    "core_lib \<Rightarrow> (bytes option apr_table \<Rightarrow> bytes \<Rightarrow> bytes option apr_table) \<Rightarrow> bytes list \<Rightarrow>
     rivet_thread_private option \<Rightarrow> rivet_thread_private option cmd" where
  "Rivet_ApacheTable lib env_unset objv = CHECK_REQUEST_REC ''::rivet::apache_table'' no_result
     (\<lambda>rec p.
        let objc = length objv in
        if objc < 3 \<or> objc > 5 then (p, Fail (WrongNumArgs 1 ''option tablename ?args?''))
        else
          case (get_index lib (map fst table_subcommands) (objv ! 1), get_index lib (map fst table_names) (objv ! 2)) of
            (Some si, Some ti) \<Rightarrow>
              (let t = snd (table_names ! ti) in
               case snd (table_subcommands ! si) of
                 SUB_GET \<Rightarrow>
                   if objc \<noteq> 4 then (p, Fail (WrongNumArgs 2 ''tablename key''))
                   else (p, Ret (case lookup_table lib t p rec (cstr (objv ! 3)) of
                                   Some v \<Rightarrow> TStr v | None \<Rightarrow> no_result))
               | SUB_EXISTS \<Rightarrow>
                   if objc \<noteq> 4 then (p, Fail (WrongNumArgs 2 ''tablename key''))
                   else (p, Ret (bool_obj (lookup_table lib t p rec (cstr (objv ! 3)) \<noteq> None)))
               | SUB_SET \<Rightarrow>
                   if objc = 4 then
                     (case list_elements lib (objv ! 3) of
                        None \<Rightarrow> (p, Fail LibError)
                      | Some l \<Rightarrow>
                          if length l mod 2 = 1 then (p, Fail (ErrMsg ''list must have even number of elements''))
                          else (set_in_request lib t l p rec, Ret no_result))
                   else if objc \<noteq> 5 then (p, Fail (WrongNumArgs 2 ''tablename key value''))
                   else (set_in_request lib t [objv ! 3, objv ! 4] p rec, Ret no_result)
               | SUB_UNSET \<Rightarrow>
                   if objc \<noteq> 4 then (p, Fail (WrongNumArgs 2 ''tablename key''))
                   else (change_table t (\<lambda>tab. apr_table_unset (apr lib) tab (cstr (objv ! 3)))
                           (\<lambda>tab. env_unset tab (cstr (objv ! 3))) p rec, Ret no_result)
               | SUB_NAMES \<Rightarrow> (p, Ret (TList (map fst (read_table t p rec))))
               | SUB_ARRAY_GET \<Rightarrow>
                   (p, Ret (TList (concat (map (\<lambda>(k, v). [k, case v of Some v \<Rightarrow> v | None \<Rightarrow> []])
                                                (read_table t p rec)))))
               | SUB_CLEAR \<Rightarrow> (change_table t (\<lambda>_. []) (\<lambda>_. []) p rec, Ret no_result))
          | _ \<Rightarrow> (p, Fail LibError))"

section \<open>Uploads\<close>

datatype upload_subcommand = CHANNEL | SAVE | DATA | EXISTS | SIZE | UPLOAD_TYPE | FILENAME | TEMPNAME | NAMES

text \<open>The subcommands with the number of words each of them takes.\<close>

definition upload_subcommands :: "(bytes \<times> upload_subcommand \<times> nat) list" where
  "upload_subcommands = [(''channel'', CHANNEL, 3), (''save'', SAVE, 4), (''data'', DATA, 3),
     (''exists'', EXISTS, 3), (''size'', SIZE, 3), (''type'', UPLOAD_TYPE, 3), (''filename'', FILENAME, 3),
     (''tempname'', TEMPNAME, 3), (''names'', NAMES, 2)]"

text \<open>The channel is opened and set to binary by the library; its name is the result.\<close>

definition TclWeb_UploadChannel :: "(bytes \<Rightarrow> bytes option) \<Rightarrow> tclweb \<Rightarrow> tobj outcome" where
  "TclWeb_UploadChannel open_channel req = with_upload req
     (\<lambda>u. case up_tempname u of
            None \<Rightarrow> Fault NullDeref
          | Some tmp \<Rightarrow> (case open_channel tmp of None \<Rightarrow> Fail LibError | Some name \<Rightarrow> Ret (TStr name)))"

definition upload_action ::
    "core_lib \<Rightarrow> upload_subcommand \<Rightarrow> bytes list \<Rightarrow> rivet_thread_private \<Rightarrow> rivet_thread_private cmd" where
  "upload_action lib sub objv p =
     (let q = priv_req p in
      case sub of
        CHANNEL \<Rightarrow> (p, TclWeb_UploadChannel (upload_channel lib) q)
      | SAVE \<Rightarrow> (p, bindO (TclWeb_UploadSave (file_copy lib) (cstr (objv ! 3)) q) (\<lambda>_. Ret no_result))
      | DATA \<Rightarrow> (p, TclWeb_UploadData (upload_io lib) (module_config (r_server (req_r (apachereq q)))) q)
      | EXISTS \<Rightarrow> (p, Fail (WrongNumArgs 1 ''Rivet internal error: inconsistent argument''))
      | SIZE \<Rightarrow> (p, TclWeb_UploadSize q)
      | UPLOAD_TYPE \<Rightarrow> (p, TclWeb_UploadType (web lib) q)
      | FILENAME \<Rightarrow> (p, TclWeb_UploadFilename (web lib) q)
      | TEMPNAME \<Rightarrow> (p, TclWeb_UploadTempname (web lib) q)
      | NAMES \<Rightarrow>
          (case TclWeb_UploadNames (web lib) (parse_request lib) q of
             Ret (q, names) \<Rightarrow> (p\<lparr>priv_req := q\<rparr>, Ret names)
           | Fail e \<Rightarrow> (p, Fail e)
           | Fault f \<Rightarrow> (p, Fault f)))"

definition Rivet_Upload ::
    "core_lib \<Rightarrow> bytes list \<Rightarrow> rivet_thread_private option \<Rightarrow> rivet_thread_private option cmd" where
  "Rivet_Upload lib objv = CHECK_REQUEST_REC ''::rivet::upload'' no_result
     (\<lambda>rec p.
        if length objv < 2 then (p, Fault NullDeref)
        else
          case get_index lib (map fst upload_subcommands) (objv ! 1) of
            None \<Rightarrow> (p, Fail LibError)
          | Some i \<Rightarrow>
              (let (sub, expected_objc) = snd (upload_subcommands ! i) in
               if length objv \<noteq> expected_objc then
                 (p, Fail (if sub = SAVE then WrongNumArgs 2 ''uploadname filename''
                           else WrongNumArgs (length objv) ''uploadname''))
               else if length objv \<ge> 3 then
                 (case TclWeb_PrepareUpload (cstr (objv ! 2)) (priv_req p) of
                    Fault f \<Rightarrow> (p, Fault f)
                  | Fail e \<Rightarrow> (p, Fail e)
                  | Ret (q, found) \<Rightarrow>
                      let p = p\<lparr>priv_req := q\<rparr> in
                      if sub = EXISTS then (p, Ret (bool_obj found))
                      else if \<not> found then
                        (p, Fail (ErrMsg (''Unable to find the upload named '' @ [SQ] @ cstr (objv ! 2) @ [SQ])))
                      else upload_action lib sub objv p)
               else upload_action lib sub objv p))"

section \<open>The thread id\<close>

text \<open>\<open>printf\<close> with \<open>%8.8lx\<close> writes at least eight digits; \<open>snprintf\<close> keeps 31 bytes.\<close>

definition SMALL_BUFFER_SIZE :: nat where "SMALL_BUFFER_SIZE = 32"

definition printf_8lx :: "int \<Rightarrow> bytes" where
  "printf_8lx n = (let ds = printf_lx n in replicate (8 - length ds) (CHR ''0'') @ ds)"

definition Rivet_GetThreadId :: "int \<Rightarrow> bytes list \<Rightarrow> tobj outcome" where
  "Rivet_GetThreadId threadid objv =
     (let hex = Ret (TStr (take (SMALL_BUFFER_SIZE - 1) (''0x'' @ printf_8lx threadid)));
          dec = Ret (TStr (take (SMALL_BUFFER_SIZE - 1) (printf_d threadid)))
      in if length objv = 2 then
           if STRNEQU (objv ! 1) ''-hex'' then hex
           else if STRNEQU (objv ! 1) ''-decimal'' then dec
           else Fail (ErrMsg ''Wrong argument: it must be -decimal | -hex'')
         else if length objv > 2 then Fail (WrongNumArgs 1 ''-decimal | -hex'')
         else hex)"

section \<open>Frames\<close>

text \<open>A command that reads the request keeps it.\<close>

lemma CHECK_request [simp]:
  "priv_r p = Some rec \<Longrightarrow> CHECK_REQUEST_REC name none body (Some p) = map_prod Some id (body rec p)"
  by (simp add: CHECK_REQUEST_REC_def)

lemma CHECK_no_request [simp]:
  "priv_r p = None \<Longrightarrow> CHECK_REQUEST_REC name none body (Some p) = (Some p, Fail (Rivet_NoRequestRec name))"
  "CHECK_REQUEST_REC name none body None = (None, Ret none)"
  by (simp_all add: CHECK_REQUEST_REC_def)

text \<open>The name of a command is what follows the last separator.\<close>

lemma command_tail_skip:
  "n \<le> length name \<Longrightarrow> n \<ge> 1 \<Longrightarrow> name \<noteq> [] \<Longrightarrow> CHR '':'' \<notin> set name \<Longrightarrow>
   command_tail (ns @ ''::'' @ name) (length ns + 2 + n) = length ns + 2"
proof (induction n)
  case (Suc n)
  let ?cmd = "ns @ ''::'' @ name"
  have at: "?cmd ! (length ns + 2 + n) = name ! n" by (simp add: nth_append)
  have "name ! n \<noteq> CHR '':''" using Suc.prems by (metis Suc_le_lessD nth_mem)
  then have step: "command_tail ?cmd (Suc (length ns + 2 + n)) = command_tail ?cmd (length ns + 2 + n)"
    by (simp add: nth_append)
  show ?case
  proof (cases n)
    case 0
    have "command_tail ?cmd (Suc (length ns + 1)) = length ns + 2" by (simp add: nth_append)
    then show ?thesis using step 0 by (simp only: add_0_right add_Suc_right) simp
  next
    case (Suc m)
    with Suc.IH Suc.prems step show ?thesis by simp
  qed
qed simp

lemma command_tail_plain: "n \<le> length cmd \<Longrightarrow> CHR '':'' \<notin> set cmd \<Longrightarrow> command_tail cmd n = 0"
proof (induction n)
  case (Suc n)
  then have "cmd ! n \<noteq> CHR '':''" by (metis Suc_le_lessD nth_mem)
  with Suc show ?case by simp
qed simp

lemma var_source_qualified:
  assumes "name \<noteq> []" "CHR '':'' \<notin> set name"
  shows "var_source (ns @ ''::'' @ name) = var_source name" "var_source (''::'' @ name) = var_source name"
proof -
  have t: "drop (command_tail (ns @ ''::'' @ name) (length (ns @ ''::'' @ name))) (ns @ ''::'' @ name) = name" for ns
  proof -
    have "length (ns @ ''::'' @ name) = length ns + 2 + length name" by simp
    moreover have "1 \<le> length name" using assms(1) by (cases name) auto
    ultimately show ?thesis
      using command_tail_skip [of "length name" name ns] assms by simp
  qed
  have u: "drop (command_tail name (length name)) name = name"
    using command_tail_plain [of "length name" name] assms by simp
  show "var_source (ns @ ''::'' @ name) = var_source name" for ns
    by (simp only: var_source_def t u)
  from this [of "[]"] show "var_source (''::'' @ name) = var_source name" by simp
qed

section \<open>A library to run the commands on\<close>

fun flat_get :: "bytes list \<Rightarrow> bytes \<Rightarrow> bytes option option" where
  "flat_get (a # b # d) k = (if a = k then Some (Some b) else flat_get d k)"
| "flat_get _ k = Some None"

definition table_find :: "bytes apr_table \<Rightarrow> bytes \<Rightarrow> bytes option" where
  "table_find t k = map_option snd (find (\<lambda>(k', _). strcaseEQ k' k) t)"

definition env_find :: "bytes option apr_table \<Rightarrow> bytes \<Rightarrow> bytes option" where
  "env_find t k = Option.bind (map_option snd (find (\<lambda>(k', _). strcaseEQ k' k) t)) id"

definition table_drop :: "'v apr_table \<Rightarrow> bytes \<Rightarrow> 'v apr_table" where
  "table_drop t k = filter (\<lambda>(k', _). \<not> strcaseEQ k' k) t"

definition demo_tables :: apr_lib where
  "demo_tables = demo_apr\<lparr>apr_table_get := table_find, apr_table_set := \<lambda>t k v. (k, v) # table_drop t k,
     apr_table_unset := table_drop\<rparr>"

fun index_of :: "bytes list \<Rightarrow> bytes \<Rightarrow> nat option" where
  "index_of [] s = None"
| "index_of (x # xs) s = (if x = s then Some 0 else map_option Suc (index_of xs s))"

definition demo_core :: core_lib where
  "demo_core = \<lparr> web = demo_web\<lparr>web_apr := demo_tables, env_get := env_find,
       env_put := \<lambda>t k v. (k, v) # table_drop t k\<rparr>, get_index = index_of,
     get_int = (\<lambda>s. Some (strtol10 s)), list_elements = (\<lambda>s. Some [s]), dict_entries = (\<lambda>s. Some [(''d'', s)]),
     dict_get = flat_get, dict_put = (\<lambda>d k v. k # v # d),
     ap_construct_url = (\<lambda>u. ''http://h'' @ (case u of None \<Rightarrow> ''(null)'' | Some u \<Rightarrow> u)),
     sub_req_lookup_uri = (\<lambda>u. Some (200, True, ''/srv'' @ u)), file_copy = (\<lambda>a b. None),
     upload_io = \<lparr> open_file = (\<lambda>f. True), set_binary = True, read_file = (\<lambda>f n. []), close_file = True,
       errno_id = [], errno_msg = [] \<rparr>,
     upload_channel = (\<lambda>f. Some ''file1''),
     parse_request = (\<lambda>a. Ret a) \<rparr>"

lemma strcaseEQ_trans: "strcaseEQ a b \<Longrightarrow> strcaseEQ a c = strcaseEQ b c"
  by (simp add: strcaseEQ_def)

lemma strcaseEQ_sym: "strcaseEQ a b = strcaseEQ b a"
  by (auto simp: strcaseEQ_def)

lemma table_find_drop: "table_find (table_drop t k) k' = (if strcaseEQ k k' then None else table_find t k')"
proof (induction t)
  case (Cons e t)
  obtain a b where e: "e = (a, b)" by fastforce
  from Cons show ?case
    by (auto simp: table_find_def table_drop_def e strcaseEQ_def)
qed (simp add: table_find_def table_drop_def)

lemma demo_core_laws: "table_laws (apr demo_core)" "dict_laws demo_core"
  using table_find_drop
  by (auto simp: table_laws_def dict_laws_def demo_core_def demo_tables_def) (auto simp: table_find_def)

section \<open>Properties\<close>

lemma headers_printed_frame [simp]:
  "headers_printed (TclWeb_HeaderSet lib k v q) = headers_printed q"
  "headers_printed (TclWeb_SetStatus s q) = headers_printed q"
  by (simp_all add: TclWeb_HeaderSet_def TclWeb_SetStatus_def)

lemma headers_out_set:
  "headers_out (TclWeb_HeaderSet lib k v q) = apr_table_set (web_apr lib) (headers_out q) k v"
  "headers_out (TclWeb_SetStatus s q) = headers_out q"
  by (simp_all add: TclWeb_HeaderSet_def TclWeb_SetStatus_def)

lemma headers_after_sent:
  assumes "priv_r p = Some rec" "headers_printed (priv_req p)"
  shows "fst (Rivet_Headers lib objv (Some p)) = Some p
    \<and> ((\<exists>v. snd (Rivet_Headers lib objv (Some p)) = Ret v)
       \<longleftrightarrow> length objv \<ge> 2 \<and> cstr (objv ! 1) = ''sent'')"
  using assms by (simp add: Rivet_Headers_def Let_def)

lemma headers_set_get:
  assumes "priv_r p = Some rec" "\<not> headers_printed (priv_req p)" "table_laws (apr lib)"
  shows "\<exists>p'. Rivet_Headers lib [cmd, ''set'', k, v] (Some p) = (Some p', Ret no_result)
    \<and> snd (Rivet_Headers lib [cmd, ''get'', k'] (Some p'))
      = (if strcaseEQ k k' then Ret (TStr v) else snd (Rivet_Headers lib [cmd, ''get'', k'] (Some p)))"
  using assms
  by (auto simp: Rivet_Headers_def Let_def numeral_2_eq_2 numeral_3_eq_3 headers_out_set
      TclWeb_OutputHeaderGet_def table_laws_def)

lemma headers_redirect:
  assumes "priv_r p = Some rec" "\<not> headers_printed (priv_req p)" "table_laws (apr lib)"
  shows "\<exists>p'. Rivet_Headers lib [cmd, ''redirect'', url] (Some p) = (Some p', Ret no_result)
    \<and> r_status (priv_req p') = 301
    \<and> snd (Rivet_Headers lib [cmd, ''get'', ''Location''] (Some p')) = Ret (TStr url)"
  using assms
  by (auto simp: Rivet_Headers_def Let_def numeral_2_eq_2 headers_out_set TclWeb_SetStatus_def
      TclWeb_OutputHeaderGet_def TclWeb_HeaderSet_def table_laws_def strcaseEQ_def)

text \<open>C35: the command \<open>headers\<close>: while the headers are not sent, a header that is set is read back,
  under any spelling of its name, without touching the others, and a redirection sets the location
  and the status 301; once they are sent no words of the command change anything, and only the
  question \<open>sent\<close> still succeeds.\<close>

theorem headers_command:
  assumes "priv_r p = Some rec" "table_laws (apr lib)"
  shows "if headers_printed (priv_req p)
    then fst (Rivet_Headers lib objv (Some p)) = Some p
      \<and> ((\<exists>v. snd (Rivet_Headers lib objv (Some p)) = Ret v)
         \<longleftrightarrow> length objv \<ge> 2 \<and> cstr (objv ! 1) = ''sent'')
    else (\<exists>p'. Rivet_Headers lib [cmd, ''set'', k, v] (Some p) = (Some p', Ret no_result)
        \<and> snd (Rivet_Headers lib [cmd, ''get'', k'] (Some p'))
          = (if strcaseEQ k k' then Ret (TStr v) else snd (Rivet_Headers lib [cmd, ''get'', k'] (Some p))))
      \<and> (\<exists>p'. Rivet_Headers lib [cmd, ''redirect'', url] (Some p) = (Some p', Ret no_result)
        \<and> r_status (priv_req p') = 301
        \<and> snd (Rivet_Headers lib [cmd, ''get'', ''Location''] (Some p')) = Ret (TStr url))"
  using headers_after_sent [OF assms(1)] headers_set_get [OF assms(1) _ assms(2)]
    headers_redirect [OF assms(1) _ assms(2)] by simp

lemma headers_command_witness:
  "if headers_printed (priv_req demo_thread)
    then fst (Rivet_Headers demo_core [''headers'', ''set''] (Some demo_thread)) = Some demo_thread
      \<and> ((\<exists>v. snd (Rivet_Headers demo_core [''headers'', ''set''] (Some demo_thread)) = Ret v)
         \<longleftrightarrow> length [''headers'', ''set''] \<ge> 2 \<and> cstr ([''headers'', ''set''] ! 1) = ''sent'')
    else (\<exists>p'. Rivet_Headers demo_core [''headers'', ''set'', ''X-A'', ''1''] (Some demo_thread) = (Some p', Ret no_result)
        \<and> snd (Rivet_Headers demo_core [''headers'', ''get'', ''x-a''] (Some p'))
          = (if strcaseEQ ''X-A'' ''x-a'' then Ret (TStr ''1'')
             else snd (Rivet_Headers demo_core [''headers'', ''get'', ''x-a''] (Some demo_thread))))
      \<and> (\<exists>p'. Rivet_Headers demo_core [''headers'', ''redirect'', ''/b''] (Some demo_thread) = (Some p', Ret no_result)
        \<and> r_status (priv_req p') = 301
        \<and> snd (Rivet_Headers demo_core [''headers'', ''get'', ''Location''] (Some p')) = Ret (TStr ''/b''))"
  by (rule headers_command [where rec = "demo_request M_GET None"]) (simp_all add: demo_thread_def demo_core_laws)

lemma var_defaults_get:
  assumes "dict_laws lib"
  shows "dict_get lib (var_defaults lib l ds) k =
    (case dict_get lib l k of Some None \<Rightarrow> Some (map_of ds k) | x \<Rightarrow> x)"
proof (induction ds arbitrary: l)
  case Nil
  then show ?case by (simp add: var_defaults_def split: option.split)
next
  case (Cons d ds)
  obtain a b where d: "d = (a, b)" by fastforce
  define l' where "l' = (case dict_get lib l a of Some None \<Rightarrow> dict_put lib l a b | _ \<Rightarrow> l)"
  have "var_defaults lib l (d # ds) = var_defaults lib l' ds" by (simp add: var_defaults_def d l'_def)
  with Cons.IH [of l'] show ?case
    using assms by (auto simp: l'_def d dict_laws_def split: option.splits)
qed

lemma var_questions:
  fixes lib :: core_lib and key :: bytes
  assumes p: "priv_r p = Some rec" "web_ok (priv_req p)" and utf: "\<And>s. StringToUtf (web lib) s = s"
    and cmd: "NUL \<notin> set cmd" "cmd \<noteq> []"
  defines "vals \<equiv> map snd (filter (\<lambda>(k, v). cstr key = cstr k) (source_params (var_source cmd) (priv_req p)))"
  shows "Rivet_Var lib [cmd, ''exists'', key] (Some p) = (Some p, Ret (bool_obj (vals \<noteq> [])))"
    "Rivet_Var lib [cmd, ''list'', key] (Some p) = (Some p, Ret (TList vals))"
    "Rivet_Var lib [cmd, ''get'', key, d] (Some p) = (Some p, Ret (TStr
        (if concat_values (web lib) vals = [] then cstr d else concat_values (web lib) vals)))"
proof -
  obtain v where v: "TclWeb_GetVarAsList (web lib) key (var_source cmd) (priv_req p) = Ret v" "v = vals"
      "TclWeb_VarExists (web lib) key (var_source cmd) (priv_req p) = Ret (v \<noteq> [])"
      "TclWeb_GetVar (web lib) key (var_source cmd) (priv_req p) =
        (if concat_values (web lib) v = []
         then Fail (ErrMsg (''Variable '' @ [SQ] @ cstr key @ [SQ] @ '' not found''))
         else Ret (concat_values (web lib) v))"
    using variable_answers [OF p(2) utf, of key "var_source cmd"] unfolding vals_def by blast
  show "Rivet_Var lib [cmd, ''exists'', key] (Some p) = (Some p, Ret (bool_obj (vals \<noteq> [])))"
    "Rivet_Var lib [cmd, ''list'', key] (Some p) = (Some p, Ret (TList vals))"
    "Rivet_Var lib [cmd, ''get'', key, d] (Some p) = (Some p, Ret (TStr
        (if concat_values (web lib) vals = [] then cstr d else concat_values (web lib) vals)))"
    using p(1) cmd v by (simp_all add: Rivet_Var_def Let_def cstr_id or_else_def numeral_2_eq_2 numeral_3_eq_3)
qed

lemma var_all_defaults:
  fixes lib :: core_lib
  assumes p: "priv_r p = Some rec" "web_ok (priv_req p)" and utf: "\<And>s. StringToUtf (web lib) s = s"
    and cmd: "NUL \<notin> set cmd" "cmd \<noteq> []" and d: "dict_laws lib" "dict_entries lib d = Some ds"
  shows "\<exists>l. Rivet_Var lib [cmd, ''all'', d] (Some p) = (Some p, Ret (TList l))
    \<and> (\<forall>k. dict_get lib l k =
        (case dict_get lib (concat (map (\<lambda>(k, v). [k, v]) (source_params (var_source cmd) (priv_req p)))) k of
           Some None \<Rightarrow> Some (map_of ds k) | x \<Rightarrow> x))"
proof -
  have u: "concat (map (\<lambda>(k, v). [StringToUtf (web lib) k, StringToUtf (web lib) v]) xs)
      = concat (map (\<lambda>(k, v). [k, v]) xs)" for xs
    by (induction xs) (auto simp: utf)
  have "TclWeb_GetAllVars (web lib) (var_source cmd) (priv_req p)
      = Ret (concat (map (\<lambda>(k, v). [k, v]) (source_params (var_source cmd) (priv_req p))))"
    using variable_lists [OF p(2), of "web lib" "var_source cmd" "[]"] u by simp
  then show ?thesis
    using p(1) cmd d(2) var_defaults_get [OF d(1)]
    by (auto simp: Rivet_Var_def Let_def cstr_id or_else_def numeral_2_eq_2 numeral_3_eq_3)
qed


lemma demo_core_utf: "StringToUtf (web demo_core) s = s"
  by (simp add: demo_core_def demo_web_def)

definition form_thread :: rivet_thread_private where
  "form_thread = demo_thread\<lparr>priv_req := demo_tclweb [(''a'', ''1''), (''a'', ''2'')] 1\<rparr>"


section \<open>The tables\<close>

text \<open>Documented behaviour of the table with NULL values and of \<open>Tcl_GetIndexFromObj\<close>: a name of the
  list is found at its place.\<close>

definition env_laws :: "web_lib \<Rightarrow> (bytes option apr_table \<Rightarrow> bytes \<Rightarrow> bytes option apr_table) \<Rightarrow> bool" where
  "env_laws lib env_unset \<longleftrightarrow>
     (\<forall>t k v k'. env_get lib (env_put lib t k v) k' = (if strcaseEQ k k' then v else env_get lib t k'))
     \<and> (\<forall>t k k'. env_get lib (env_unset t k) k' = (if strcaseEQ k k' then None else env_get lib t k'))
     \<and> (\<forall>k. env_get lib [] k = None)"

definition index_laws :: "core_lib \<Rightarrow> bool" where
  "index_laws lib \<longleftrightarrow>
     (\<forall>names i. distinct names \<longrightarrow> i < length names \<longrightarrow> get_index lib names (names ! i) = Some i)"

lemma index_found:
  assumes "index_laws lib" "distinct (map fst xs)" "i < length xs" "fst (xs ! i) = s"
  shows "get_index lib (map fst xs) s = Some i"
  using assms by (auto simp: index_laws_def dest: spec [of _ "map fst xs"])

lemma subcommand_index:
  assumes "index_laws lib"
  shows "get_index lib (map fst table_subcommands) ''get'' = Some 0"
    "get_index lib (map fst table_subcommands) ''set'' = Some 1"
    "get_index lib (map fst table_subcommands) ''exists'' = Some 2"
    "get_index lib (map fst table_subcommands) ''unset'' = Some 3"
    "get_index lib (map fst table_subcommands) ''clear'' = Some 6"
  by (rule index_found [OF assms]; simp add: table_subcommands_def)+

lemma table_index:
  assumes "index_laws lib" "(tname, t) \<in> set table_names"
  obtains i where "get_index lib (map fst table_names) tname = Some i" "snd (table_names ! i) = t"
proof -
  from assms(2) obtain i where i: "i < length table_names" "table_names ! i = (tname, t)"
    by (auto simp: in_set_conv_nth)
  have "get_index lib (map fst table_names) tname = Some i"
    using i by (intro index_found [OF assms(1)]) (simp_all add: table_names_def)
  with i show ?thesis using that by simp
qed

text \<open>The commands on one table, with the names resolved.\<close>

lemma table_commands:
  assumes laws: "index_laws lib" and t: "(tname, t) \<in> set table_names" and p: "priv_r p = Some rec"
  shows "Rivet_ApacheTable lib eu [cmd, ''get'', tname, k] (Some p)
      = (Some p, Ret (case lookup_table lib t p rec (cstr k) of Some v \<Rightarrow> TStr v | None \<Rightarrow> no_result))"
    "Rivet_ApacheTable lib eu [cmd, ''exists'', tname, k] (Some p)
      = (Some p, Ret (bool_obj (lookup_table lib t p rec (cstr k) \<noteq> None)))"
    "Rivet_ApacheTable lib eu [cmd, ''set'', tname, k, v] (Some p)
      = (Some (set_in_request lib t [k, v] p rec), Ret no_result)"
    "Rivet_ApacheTable lib eu [cmd, ''unset'', tname, k] (Some p)
      = (Some (change_table t (\<lambda>tab. apr_table_unset (apr lib) tab (cstr k)) (\<lambda>tab. eu tab (cstr k)) p rec), Ret no_result)"
    "Rivet_ApacheTable lib eu [cmd, ''clear'', tname] (Some p)
      = (Some (change_table t (\<lambda>_. []) (\<lambda>_. []) p rec), Ret no_result)"
proof -
  obtain i where "get_index lib (map fst table_names) tname = Some i" "snd (table_names ! i) = t"
    using table_index [OF laws t] .
  moreover have "snd (table_subcommands ! 0) = SUB_GET" "snd (table_subcommands ! 1) = SUB_SET"
    "snd (table_subcommands ! 2) = SUB_EXISTS" "snd (table_subcommands ! 3) = SUB_UNSET"
    "snd (table_subcommands ! 6) = SUB_CLEAR"
    by (simp_all add: table_subcommands_def)
  ultimately show "Rivet_ApacheTable lib eu [cmd, ''get'', tname, k] (Some p)
      = (Some p, Ret (case lookup_table lib t p rec (cstr k) of Some v \<Rightarrow> TStr v | None \<Rightarrow> no_result))"
    "Rivet_ApacheTable lib eu [cmd, ''exists'', tname, k] (Some p)
      = (Some p, Ret (bool_obj (lookup_table lib t p rec (cstr k) \<noteq> None)))"
    "Rivet_ApacheTable lib eu [cmd, ''set'', tname, k, v] (Some p)
      = (Some (set_in_request lib t [k, v] p rec), Ret no_result)"
    "Rivet_ApacheTable lib eu [cmd, ''unset'', tname, k] (Some p)
      = (Some (change_table t (\<lambda>tab. apr_table_unset (apr lib) tab (cstr k)) (\<lambda>tab. eu tab (cstr k)) p rec), Ret no_result)"
    "Rivet_ApacheTable lib eu [cmd, ''clear'', tname] (Some p)
      = (Some (change_table t (\<lambda>_. []) (\<lambda>_. []) p rec), Ret no_result)"
    by (simp_all add: Rivet_ApacheTable_def p subcommand_index [OF laws] Let_def eval_nat_numeral)
qed

text \<open>Changing one table leaves the request in place and the other tables alone.\<close>

lemma change_table_lookup:
  assumes "priv_r p = Some rec" "p' = change_table t f g p rec"
  obtains rec' where "priv_r p' = Some rec'"
    "\<And>k. lookup_table lib t p' rec' k =
       (case t of
          TABLE_NOTES \<Rightarrow> apr_table_get (apr lib) (f (r_notes p)) k
        | TABLE_HEADERS_IN \<Rightarrow> apr_table_get (apr lib) (f (headers_in rec)) k
        | TABLE_HEADERS_OUT \<Rightarrow> apr_table_get (apr lib) (f (headers_out (priv_req p))) k
        | TABLE_ERR_HEADERS_OUT \<Rightarrow> apr_table_get (apr lib) (f (err_headers_out p)) k
        | TABLE_SUBPROCESS_ENV \<Rightarrow> env_get (web lib) (g (subprocess_env (priv_req p))) k)"
    "\<And>t' k. t' \<noteq> t \<Longrightarrow> lookup_table lib t' p' rec' k = lookup_table lib t' p rec k"
proof
  let ?rec = "case t of TABLE_HEADERS_IN \<Rightarrow> rec\<lparr>headers_in := f (headers_in rec)\<rparr> | _ \<Rightarrow> rec"
  show "priv_r p' = Some ?rec"
    using assms by (cases t) (simp_all add: change_table_def Let_def)
  show "lookup_table lib t p' ?rec k =
       (case t of
          TABLE_NOTES \<Rightarrow> apr_table_get (apr lib) (f (r_notes p)) k
        | TABLE_HEADERS_IN \<Rightarrow> apr_table_get (apr lib) (f (headers_in rec)) k
        | TABLE_HEADERS_OUT \<Rightarrow> apr_table_get (apr lib) (f (headers_out (priv_req p))) k
        | TABLE_ERR_HEADERS_OUT \<Rightarrow> apr_table_get (apr lib) (f (err_headers_out p)) k
        | TABLE_SUBPROCESS_ENV \<Rightarrow> env_get (web lib) (g (subprocess_env (priv_req p))) k)" for k
    using assms by (cases t) (simp_all add: change_table_def lookup_table_def Let_def)
  show "lookup_table lib t' p' ?rec k = lookup_table lib t' p rec k" if "t' \<noteq> t" for t' k
    using assms that by (cases t; cases t') (simp_all add: change_table_def lookup_table_def Let_def)
qed

definition table_get ::
    "core_lib \<Rightarrow> (bytes option apr_table \<Rightarrow> bytes \<Rightarrow> bytes option apr_table) \<Rightarrow> bytes \<Rightarrow>
     rivet_thread_private \<Rightarrow> bytes \<Rightarrow> tobj outcome" where
  "table_get lib eu tname p k = snd (Rivet_ApacheTable lib eu [''apache_table'', ''get'', tname, k] (Some p))"

definition other_tables_kept ::
    "core_lib \<Rightarrow> (bytes option apr_table \<Rightarrow> bytes \<Rightarrow> bytes option apr_table) \<Rightarrow> bytes \<Rightarrow>
     rivet_thread_private \<Rightarrow> rivet_thread_private \<Rightarrow> bool" where
  "other_tables_kept lib eu tname p p' \<longleftrightarrow>
     (\<forall>(tn, _) \<in> set table_names. tn \<noteq> tname \<longrightarrow> table_get lib eu tn p' = table_get lib eu tn p)"

lemma table_get_lookup:
  "index_laws lib \<Longrightarrow> (tname, t) \<in> set table_names \<Longrightarrow> priv_r p = Some rec \<Longrightarrow>
   table_get lib eu tname p k = Ret (case lookup_table lib t p rec (cstr k) of Some v \<Rightarrow> TStr v | None \<Rightarrow> no_result)"
  by (simp add: table_get_def table_commands)

lemma table_names_unique:
  "(tn, t) \<in> set table_names \<Longrightarrow> (tn', t') \<in> set table_names \<Longrightarrow> tn = tn' \<longleftrightarrow> t = t'"
  by (auto simp: table_names_def)

lemma strcaseEQ_cstr: "strcaseEQ (cstr a) (cstr b) = strcaseEQ a b"
  by (simp add: strcaseEQ_def)

text \<open>A change that acts on the lookups of one table in a known way, seen through the command.\<close>

lemma changed_table_get:
  assumes laws: "index_laws lib" and t: "(tname, t) \<in> set table_names" and p: "priv_r p = Some rec"
    and s: "\<And>tab key. apr_table_get (apr lib) (f tab) key = upd (apr_table_get (apr lib) tab key) key"
    and e: "\<And>tab key. env_get (web lib) (g tab) key = upd (env_get (web lib) tab key) key"
  shows "\<And>k'. table_get lib eu tname (change_table t f g p rec) k' =
      Ret (case upd (lookup_table lib t p rec (cstr k')) (cstr k') of Some v \<Rightarrow> TStr v | None \<Rightarrow> no_result)"
    "other_tables_kept lib eu tname p (change_table t f g p rec)"
proof -
  obtain rec' where r: "priv_r (change_table t f g p rec) = Some rec'"
    "\<And>k. lookup_table lib t (change_table t f g p rec) rec' k =
       (case t of
          TABLE_NOTES \<Rightarrow> apr_table_get (apr lib) (f (r_notes p)) k
        | TABLE_HEADERS_IN \<Rightarrow> apr_table_get (apr lib) (f (headers_in rec)) k
        | TABLE_HEADERS_OUT \<Rightarrow> apr_table_get (apr lib) (f (headers_out (priv_req p))) k
        | TABLE_ERR_HEADERS_OUT \<Rightarrow> apr_table_get (apr lib) (f (err_headers_out p)) k
        | TABLE_SUBPROCESS_ENV \<Rightarrow> env_get (web lib) (g (subprocess_env (priv_req p))) k)"
    "\<And>t' k. t' \<noteq> t \<Longrightarrow> lookup_table lib t' (change_table t f g p rec) rec' k = lookup_table lib t' p rec k"
    using change_table_lookup [OF p refl, where lib = lib] by metis
  have "lookup_table lib t (change_table t f g p rec) rec' key = upd (lookup_table lib t p rec key) key" for key
    unfolding r(2) by (cases t) (simp_all add: s e lookup_table_def)
  then show "table_get lib eu tname (change_table t f g p rec) k' =
      Ret (case upd (lookup_table lib t p rec (cstr k')) (cstr k') of Some v \<Rightarrow> TStr v | None \<Rightarrow> no_result)" for k'
    by (simp add: table_get_lookup [OF laws t r(1)])
  have "table_get lib eu tn (change_table t f g p rec) = table_get lib eu tn p"
    if "(tn, t') \<in> set table_names" "tn \<noteq> tname" for tn t'
    using r(3) [of t'] table_names_unique [OF that(1) t] that(2)
    by (simp add: fun_eq_iff table_get_lookup [OF laws that(1) r(1)] table_get_lookup [OF laws that(1) p])
  then show "other_tables_kept lib eu tname p (change_table t f g p rec)"
    by (auto simp: other_tables_kept_def)
qed

text \<open>C19: the command \<open>apache_table\<close> on each of the five tables of the request: after \<open>set\<close> the value
  is read back under any spelling of the name and the other names keep their values, \<open>unset\<close> removes
  exactly that name, \<open>clear\<close> removes all, and no operation on one table shows in another one.\<close>

theorem apache_table_command:
  assumes "priv_r p = Some rec" "(tname, t) \<in> set table_names"
    "index_laws lib" "table_laws (apr lib)" "env_laws (web lib) eu"
  shows "\<exists>p1 p2 p3.
      Rivet_ApacheTable lib eu [cmd, ''set'', tname, k, v] (Some p) = (Some p1, Ret no_result)
    \<and> (\<forall>k'. table_get lib eu tname p1 k'
          = (if strcaseEQ k k' then Ret (TStr (cstr v)) else table_get lib eu tname p k'))
    \<and> Rivet_ApacheTable lib eu [cmd, ''unset'', tname, k] (Some p) = (Some p2, Ret no_result)
    \<and> (\<forall>k'. table_get lib eu tname p2 k'
          = (if strcaseEQ k k' then Ret no_result else table_get lib eu tname p k'))
    \<and> Rivet_ApacheTable lib eu [cmd, ''clear'', tname] (Some p) = (Some p3, Ret no_result)
    \<and> (\<forall>k'. table_get lib eu tname p3 k' = Ret no_result)
    \<and> other_tables_kept lib eu tname p p1 \<and> other_tables_kept lib eu tname p p2
    \<and> other_tables_kept lib eu tname p p3"
proof -
  note c = table_commands [OF assms(3,2,1), of eu cmd]
  note g = table_get_lookup [OF assms(3,2,1)]
  note ch = changed_table_get [OF assms(3,2,1)]
  let ?upd1 = "\<lambda>old key. if strcaseEQ (cstr k) key then Some (cstr v) else old"
  let ?upd2 = "\<lambda>old key. if strcaseEQ (cstr k) key then None else old"
  note s1 = ch [of "set_pairs (apr_table_set (apr lib)) [k, v]" ?upd1
      "set_pairs (\<lambda>tab k v. env_put (web lib) tab k (Some v)) [k, v]"]
  note s2 = ch [of "\<lambda>tab. apr_table_unset (apr lib) tab (cstr k)" ?upd2 "\<lambda>tab. eu tab (cstr k)"]
  note s3 = ch [of "\<lambda>_. []" "\<lambda>_ _. None" "\<lambda>_. []"]
  have l: "apr_table_get (apr lib) (apr_table_set (apr lib) tab k1 v1) key
        = (if strcaseEQ k1 key then Some v1 else apr_table_get (apr lib) tab key)"
    "apr_table_get (apr lib) (apr_table_unset (apr lib) tab k1) key
        = (if strcaseEQ k1 key then None else apr_table_get (apr lib) tab key)"
    "apr_table_get (apr lib) [] key = None"
    "env_get (web lib) (env_put (web lib) etab k1 ev) key = (if strcaseEQ k1 key then ev else env_get (web lib) etab key)"
    "env_get (web lib) (eu etab k1) key = (if strcaseEQ k1 key then None else env_get (web lib) etab key)"
    "env_get (web lib) [] key = None" for tab k1 v1 etab ev key
    using assms(4,5) by (simp_all add: table_laws_def env_laws_def)
  show ?thesis
    by (intro exI conjI allI)
      (rule c, simp add: set_in_request_def s1(1) l g strcaseEQ_cstr, rule c, simp add: s2(1) l g strcaseEQ_cstr,
       rule c, simp add: s3(1) l, simp add: set_in_request_def s1(2) l, simp add: s2(2) l, simp add: s3(2) l)
qed

lemma find_drop: "find (\<lambda>(k', _). strcaseEQ k' k1) (table_drop t k) =
    (if strcaseEQ k k1 then None else find (\<lambda>(k', _). strcaseEQ k' k1) t)"
proof (induction t)
  case (Cons e t)
  obtain a b where e: "e = (a, b)" by fastforce
  from Cons show ?case by (auto simp: table_drop_def e strcaseEQ_def)
qed (simp add: table_drop_def)

lemma demo_env_laws: "env_laws (web demo_core) table_drop"
  by (auto simp: env_laws_def demo_core_def env_find_def find_drop)

lemma index_of_nth: "distinct names \<Longrightarrow> i < length names \<Longrightarrow> index_of names (names ! i) = Some i"
proof (induction names arbitrary: i)
  case (Cons x xs)
  then show ?case by (cases i) auto
qed simp

lemma demo_index_laws: "index_laws demo_core"
  by (simp add: index_laws_def demo_core_def index_of_nth)

lemma apache_table_command_witness:
  "\<exists>p1 p2 p3.
      Rivet_ApacheTable demo_core table_drop [''apache_table'', ''set'', ''notes'', ''A'', ''1''] (Some demo_thread)
        = (Some p1, Ret no_result)
    \<and> (\<forall>k'. table_get demo_core table_drop ''notes'' p1 k'
          = (if strcaseEQ ''A'' k' then Ret (TStr (cstr ''1'')) else table_get demo_core table_drop ''notes'' demo_thread k'))
    \<and> Rivet_ApacheTable demo_core table_drop [''apache_table'', ''unset'', ''notes'', ''A''] (Some demo_thread)
        = (Some p2, Ret no_result)
    \<and> (\<forall>k'. table_get demo_core table_drop ''notes'' p2 k'
          = (if strcaseEQ ''A'' k' then Ret no_result else table_get demo_core table_drop ''notes'' demo_thread k'))
    \<and> Rivet_ApacheTable demo_core table_drop [''apache_table'', ''clear'', ''notes''] (Some demo_thread)
        = (Some p3, Ret no_result)
    \<and> (\<forall>k'. table_get demo_core table_drop ''notes'' p3 k' = Ret no_result)
    \<and> other_tables_kept demo_core table_drop ''notes'' demo_thread p1
    \<and> other_tables_kept demo_core table_drop ''notes'' demo_thread p2
    \<and> other_tables_kept demo_core table_drop ''notes'' demo_thread p3"
  by (rule apache_table_command [where rec = "demo_request M_GET None" and t = TABLE_NOTES])
    (simp_all add: demo_thread_def table_names_def demo_index_laws demo_core_laws demo_env_laws)

section \<open>Behaviours worth knowing\<close>

text \<open>A relative URL without a SCRIPT_NAME takes the length of a NULL pointer; the test behind it that
  is meant for this case only sees an empty name.\<close>

lemma makeurl_no_script_name:
  assumes "priv_r p = Some rec" "snd (TclWeb_GetEnvVar (web lib) ri ''SCRIPT_NAME'' (priv_req p)) = None"
  shows "snd (Rivet_MakeURL lib ri [''makeurl'', ''b''] (Some p)) = Fault NullDeref"
  using assms by (simp add: Rivet_MakeURL_def Let_def)

text \<open>\<open>upload\<close> without a subcommand reads the word behind the last one.\<close>

lemma upload_without_words:
  "priv_r p = Some rec \<Longrightarrow> snd (Rivet_Upload lib [''upload''] (Some p)) = Fault NullDeref"
  by (simp add: Rivet_Upload_def)

text \<open>The commands that abort a page dereference the private data, which the interpreter of the server
  initialization does not have.\<close>

lemma abort_in_server_init:
  "snd (Rivet_AbortPageCmd [''abort_page''] None) = Fault NullDeref"
  "snd (Rivet_AbortCodeCmd None) = Fault NullDeref"
  "snd (Rivet_ExitCmd gi [''exit''] None) = Fault NullDeref"
  by (simp_all add: Rivet_AbortPageCmd_def Rivet_AbortCodeCmd_def Rivet_ExitCmd_def deref_private_def)


end
