(* ===== verification/Rivet_Scripts.thy ===== *)
theory Rivet_Scripts
  imports Rivet_Core Rivet_Cache Rivet_Parser
begin

text \<open>
  The commands of src/src/mod_rivet_ng/rivetCore.c that deliver scripts and files: \<open>url_script\<close> and
  \<open>parse\<close> with the script cache of the interpreter, \<open>include\<close>, \<open>with_binary_output\<close> and
  \<open>write_binary\<close>. The two cached commands are clients of the contract \<open>script_cache\<close>. Evaluating a
  script is a parameter: it may call every command again, so it maps the whole state.
\<close>

section \<open>The type of a request\<close>

definition Rivet_CheckType :: "request_rec \<Rightarrow> rivet_req_ctype" where
  "Rivet_CheckType rec =
     (case r_handler rec of
        None \<Rightarrow> CTYPE_NOT_HANDLED
      | Some h \<Rightarrow> if STRNEQU h RIVET_TEMPLATE_CTYPE then RIVET_TEMPLATE
                  else if STRNEQU h RIVET_TCLFILE_CTYPE then RIVET_TCLFILE
                  else CTYPE_NOT_HANDLED)"

section \<open>The script of a URL\<close>

type_synonym script_state = "rivet_thread_private option \<times> rivet_thread_interp"

text \<open>Reading the file of the request: a template is translated, a Tcl file taken as it is.\<close>

definition url_load :: "'chan tcl_io \<Rightarrow> request_rec \<Rightarrow> bytes \<times> unit outcome" where
  "url_load io rec =
     (if Rivet_CheckType rec = RIVET_TEMPLATE then Rivet_GetRivetFile io (filename rec) []
      else Rivet_GetTclFile io (filename rec) [])"

definition url_key :: "rivet_server_conf \<Rightarrow> request_rec \<Rightarrow> bytes" where
  "url_key conf rec =
     RivetCache_MakeKey (filename rec) (finfo_ctime rec) (finfo_mtime rec) (IS_USER_CONF conf) 1"

definition Rivet_UrlScript :: "'chan tcl_io \<Rightarrow> script_state \<Rightarrow> script_state cmd" where
  "Rivet_UrlScript io st =
     (case fst st of
        None \<Rightarrow> (st, Ret no_result)
      | Some pd \<Rightarrow>
          (case (priv_r pd, running_conf pd) of
             (None, _) \<Rightarrow> (st, Fail (Rivet_NoRequestRec ''::rivet::url_script''))
           | (_, None) \<Rightarrow> (st, Fault NullDeref)
           | (Some rec, Some conf) \<Rightarrow>
               let cache_key = url_key conf rec in
               (case RivetCache_EntryLookup (snd st) cache_key of
                  Fault f \<Rightarrow> (st, Fault f)
                | Fail e \<Rightarrow> (st, Fail e)
                | Ret None \<Rightarrow>
                    (case url_load io rec of
                       (script, Ret _) \<Rightarrow>
                         (case cache_new_script (snd st) cache_key script of
                            Ret ri \<Rightarrow> ((fst st, ri), Ret (TStr script))
                          | Fail e \<Rightarrow> (st, Fail e)
                          | Fault f \<Rightarrow> (st, Fault f))
                     | (script, Fail _) \<Rightarrow> (st, Ret (TStr script))
                     | (script, Fault f) \<Rightarrow> (st, Fault f))
                | Ret (Some entry) \<Rightarrow>
                    (st, bindO (RivetCache_FetchScript entry) (\<lambda>script. Ret (TStr script))))))"

section \<open>Parsing a template\<close>

text \<open>What the words of \<open>parse\<close> ask for: a string, or a file with an optional encoding; a virtual name
  that leads nowhere gives a NULL file name.\<close>

datatype parse_source = Template bytes | File "bytes option" "bytes option"

definition RIVET_PARSE_USAGE :: string where
  "RIVET_PARSE_USAGE = ''?-encoding name? ?-virtual? filename | -string template_string''"

definition parse_words :: "core_lib \<Rightarrow> bytes list \<Rightarrow> parse_source outcome" where
  "parse_words lib objv =
     (let objc = length objv; usage = Fail (WrongNumArgs 1 RIVET_PARSE_USAGE);
          virtual = (\<lambda>name. TclWeb_GetVirtualFile (sub_req_lookup_uri lib) (cstr name)) in
      if objc < 2 \<or> objc > 5 then usage
      else if objc = 2 then Ret (File None (Some (cstr (objv ! 1))))
      else if objc = 3 then
        if STREQU (objv ! 1) ''-virtual'' then bindO (virtual (objv ! 2)) (\<lambda>f. Ret (File None f))
        else if STREQU (objv ! 1) ''-string'' then Ret (Template (objv ! 2))
        else usage
      else if objc = 4 \<and> STREQU (objv ! 1) ''-encoding'' then
        Ret (File (Some (cstr (objv ! 2))) (Some (cstr (objv ! 3))))
      else if objc = 5 \<and> STREQU (objv ! 1) ''-encoding'' \<and> STREQU (objv ! 3) ''-virtual'' then
        bindO (virtual (objv ! 4)) (\<lambda>f. Ret (File (Some (cstr (objv ! 2))) f))
      else usage)"

text \<open>\<open>get_encoding\<close> gives the name of a known encoding, \<open>apr_stat\<close> the change and modification tms
  or an error text, \<open>eval_script\<close> is \<open>Tcl_EvalObjEx\<close>.\<close>

record 'chan script_lib =
  core :: core_lib
  script_io :: "'chan tcl_io"
  get_encoding :: "bytes \<Rightarrow> bytes option"
  apr_stat :: "bytes \<Rightarrow> bytes + int \<times> int"
  eval_script :: "bytes \<Rightarrow> script_state \<Rightarrow> script_state cmd"

definition parse_key :: "rivet_server_conf \<Rightarrow> bytes \<Rightarrow> bytes option \<Rightarrow> int \<times> int \<Rightarrow> bytes" where
  "parse_key conf fname encoding tms =
     RivetCache_MakeKey (case encoding of None \<Rightarrow> fname | Some e \<Rightarrow> fname @ ''|encoding='' @ e)
       (fst tms) (snd tms) (IS_USER_CONF conf) 0"

definition parse_file ::
    "'chan script_lib \<Rightarrow> bytes option \<Rightarrow> bytes \<Rightarrow> int \<times> int \<Rightarrow> rivet_server_conf \<Rightarrow> script_state \<Rightarrow> script_state cmd" where
  "parse_file lib encoding fname tms conf st =
     (let cache_key = parse_key conf fname encoding tms in
      case RivetCache_EntryLookup (snd st) cache_key of
        Fault f \<Rightarrow> (st, Fault f)
      | Fail e \<Rightarrow> (st, Fail e)
      | Ret None \<Rightarrow>
          (case Rivet_GetRivetFileEncoding (script_io lib) fname [] encoding of
             (script, Ret _) \<Rightarrow>
               (case cache_new_script (snd st) cache_key script of
                  Ret ri \<Rightarrow> eval_script lib script (fst st, ri)
                | Fail e \<Rightarrow> (st, Fail e)
                | Fault f \<Rightarrow> (st, Fault f))
           | (script, Fail e) \<Rightarrow> (st, Fail e)
           | (script, Fault f) \<Rightarrow> (st, Fault f))
      | Ret (Some entry) \<Rightarrow>
          (case RivetCache_FetchScript entry of
             Ret script \<Rightarrow> eval_script lib script st
           | Fail e \<Rightarrow> (st, Fail e)
           | Fault f \<Rightarrow> (st, Fault f)))"

definition Rivet_Parse :: "'chan script_lib \<Rightarrow> bytes list \<Rightarrow> script_state \<Rightarrow> script_state cmd" where
  "Rivet_Parse lib objv st =
     (case fst st of
        None \<Rightarrow> (st, Ret no_result)
      | Some pd \<Rightarrow>
          (case priv_r pd of
             None \<Rightarrow> (st, Fail (Rivet_NoRequestRec ''::rivet::parse''))
           | Some rec \<Rightarrow>
               (case parse_words (core lib) objv of
                  Fault f \<Rightarrow> (st, Fault f)
                | Fail e \<Rightarrow> (st, Fail e)
                | Ret (Template text) \<Rightarrow>
                    let (ins, script) = Rivet_Parser (Tcl_UtfNext (script_io lib)) (''puts -nonewline '' @ [DQ]) text;
                        script = (if \<not> ins then script @ [DQ, LF] else script) @ [LF]
                    in eval_script lib script st
                | Ret (File encoding fname) \<Rightarrow>
                    (case (case encoding of None \<Rightarrow> Some None | Some e \<Rightarrow> map_option Some (get_encoding lib e)) of
                       None \<Rightarrow> (st, Fail LibError)
                     | Some encoding \<Rightarrow>
                         (case fname of
                            None \<Rightarrow> (st, Fault NullDeref)
                          | Some fname \<Rightarrow>
                              if cstr fname = cstr (filename rec) then
                                (st, Fail (ErrMsg ''Cannot recursively call the same file!''))
                              else
                                (case apr_stat lib fname of
                                   Inl msg \<Rightarrow> (st, Fail (ErrMsg msg))
                                 | Inr tms \<Rightarrow>
                                     (case running_conf pd of
                                        None \<Rightarrow> (st, Fault NullDeref)
                                      | Some conf \<Rightarrow> parse_file lib encoding fname tms conf st)))))))"

section \<open>Binary output\<close>

text \<open>The channel of the standard output is a parameter over a state: whether it exists, flushing it,
  its options, writing to it, and evaluating a script, which gives a completion code and the state
  of the interpreter that goes with it.\<close>

record ('st, 'res) chan_lib =
  stdout_open :: "'st \<Rightarrow> bool"
  flush :: "'st \<Rightarrow> 'st \<times> bool"
  get_option :: "bytes \<Rightarrow> 'st \<Rightarrow> bytes option"
  set_option :: "bytes \<Rightarrow> bytes \<Rightarrow> 'st \<Rightarrow> 'st \<times> bool"
  write_obj :: "bytes \<Rightarrow> 'st \<Rightarrow> 'st"
  eval_obj :: "tobj \<Rightarrow> 'st \<Rightarrow> 'st \<times> int \<times> 'res"

definition Rivet_WithBinaryOutput ::
    "('st, 'res) chan_lib \<Rightarrow> tobj list \<Rightarrow> 'st \<Rightarrow> 'st \<times> (int \<times> 'res) outcome" where
  "Rivet_WithBinaryOutput lib objv st =
     (if length objv \<noteq> 2 then (st, Fail (WrongNumArgs 1 ''script''))
      else if \<not> stdout_open lib st then (st, Fail (ErrMsg ''stdout is not available''))
      else
        let (st, flushed) = flush lib st in
        if \<not> flushed then (st, Fail LibError)
        else
          case (get_option lib ''-translation'' st, get_option lib ''-encoding'' st,
                get_option lib ''-eofchar'' st) of
            (Some translation, Some encoding, Some eofchar) \<Rightarrow>
              let (st, binary) = set_option lib ''-translation'' ''binary'' st in
              if \<not> binary then (st, Fail LibError)
              else
                let (st, code, state) = eval_obj lib (objv ! 1) st;
                    (st, ok1) = flush lib st;
                    (st, ok2) = set_option lib ''-translation'' (cstr translation) st;
                    (st, ok3) = set_option lib ''-encoding'' (cstr encoding) st;
                    (st, ok4) = set_option lib ''-eofchar'' (cstr eofchar) st
                in if \<not> (ok1 \<and> ok2 \<and> ok3 \<and> ok4) \<and> code = 0 then (st, Fail LibError)
                   else (st, Ret (code, state))
          | _ \<Rightarrow> (st, Fail LibError))"

definition Rivet_WriteBinary ::
    "('st, 'res) chan_lib \<Rightarrow> bytes list \<Rightarrow> 'st \<Rightarrow> 'st \<times> (int \<times> 'res) outcome" where
  "Rivet_WriteBinary lib objv st =
     (if length objv \<noteq> 2 then (st, Fail (WrongNumArgs 1 ''data''))
      else let script = TList [''puts'', ''-nonewline'', ''stdout'', objv ! 1]
           in Rivet_WithBinaryOutput lib [TStr (objv ! 0), script] st)"

section \<open>Including a file\<close>

definition include_usage :: tcl_error where
  "include_usage = WrongNumArgs 1 ''?-virtual? filename''"

text \<open>The file name; \<open>Tcl_OpenFileChannel\<close> takes a NULL name as an empty one.\<close>

definition include_name :: "core_lib \<Rightarrow> bytes list \<Rightarrow> bytes outcome" where
  "include_name lib objv =
     (if length objv = 2 then Ret (cstr (objv ! 1))
      else if \<not> STREQU (objv ! 1) ''-virtual'' then Fail include_usage
      else bindO (TclWeb_GetVirtualFile (sub_req_lookup_uri lib) (cstr (objv ! 2)))
             (\<lambda>f. Ret (case f of None \<Rightarrow> [] | Some f \<Rightarrow> f)))"

text \<open>Writing the bytes of a file to the standard output, which is binary meanwhile.\<close>

definition include_write :: "('st, 'res) chan_lib \<Rightarrow> bytes \<Rightarrow> 'st \<Rightarrow> 'st outcome" where
  "include_write clib text st =
     (if \<not> stdout_open clib st then Fault NullDeref
      else
        let dstring = (\<lambda>v. case v of None \<Rightarrow> [] | Some v \<Rightarrow> cstr v);
            transoptions = dstring (get_option clib ''-translation'' st);
            encoptions = dstring (get_option clib ''-encoding'' st);
            st = fst (set_option clib ''-translation'' ''binary'' st);
            st = write_obj clib text st;
            st = fst (set_option clib ''-translation'' transoptions st);
            st = fst (set_option clib ''-encoding'' encoptions st)
        in Ret st)"

definition Rivet_Include ::
    "core_lib \<Rightarrow> 'chan tcl_io \<Rightarrow> ('st, 'res) chan_lib \<Rightarrow> bytes list \<Rightarrow> rivet_thread_private option \<Rightarrow>
     'st \<Rightarrow> 'st \<times> tobj outcome" where
  "Rivet_Include lib io clib objv private st =
     (if length objv < 2 \<or> length objv > 3 then (st, Fail include_usage)
      else
        case private of
          None \<Rightarrow> (st, Ret no_result)
        | Some pd \<Rightarrow>
            if priv_r pd = None then (st, Fail (Rivet_NoRequestRec ''::rivet::include''))
            else
              case include_name lib objv of
                Fault f \<Rightarrow> (st, Fault f)
              | Fail e \<Rightarrow> (st, Fail e)
              | Ret name \<Rightarrow>
                  (case Tcl_OpenFileChannel io name of
                     None \<Rightarrow> (st, Fail LibError)
                   | Some fd \<Rightarrow>
                       let fd = (case Tcl_SetChannelOption io fd ''-translation'' ''binary'' of
                                   None \<Rightarrow> fd | Some fd \<Rightarrow> fd) in
                       (case Tcl_ReadChars io fd of
                          None \<Rightarrow> (st, Fail LibError)
                        | Some text \<Rightarrow>
                            (case include_write clib text st of
                               Ret st \<Rightarrow> (st, if Tcl_Close io fd then Ret no_result else Fail LibError)
                             | Fail e \<Rightarrow> (st, Fail e)
                             | Fault f \<Rightarrow> (st, Fault f)))))"

section \<open>The cache does not show\<close>

text \<open>\<open>S\<close> gives the script of each key; the cache agrees with it.\<close>

definition coherent :: "(bytes \<Rightarrow> bytes) \<Rightarrow> rivet_thread_interp \<Rightarrow> bool" where
  "coherent S ri \<longleftrightarrow> cache_ok ri \<and> (\<forall>k v. cache_map ri k = Some v \<longrightarrow> v = S k)"

text \<open>The two ways through the cache, from its contract.\<close>

lemma cache_hit:
  assumes "coherent S ri" "RivetCache_EntryLookup ri key = Ret (Some entry)"
  shows "RivetCache_FetchScript entry = Ret (S key)" "cache_map ri key = Some (S key)"
proof -
  from assms(1) have "cache_ok ri" "\<forall>k v. cache_map ri k = Some v \<longrightarrow> v = S k"
    by (simp_all add: coherent_def)
  from cache.hit_valid [OF this assms(2)]
  show "RivetCache_FetchScript entry = Ret (S key)" "cache_map ri key = Some (S key)"
    by (auto simp: RivetCache_FetchScript_def)
qed

lemma cache_miss_empty:
  assumes "coherent S ri" "RivetCache_EntryLookup ri key = Ret None"
  shows "cache_map ri key = None"
  using cache.lookup_view [of ri key] assms by (simp add: coherent_def)

lemma cache_miss:
  assumes "coherent S ri" "RivetCache_EntryLookup ri key = Ret None"
  shows "\<exists>ri'. cache_new_script ri key (S key) = Ret ri' \<and> coherent S ri'"
proof -
  from assms(1) have "cache_ok ri" "\<forall>k v. cache_map ri k = Some v \<longrightarrow> v = S k"
    by (simp_all add: coherent_def)
  from cache.miss_insert [OF this assms(2) refl] show ?thesis by (simp add: coherent_def)
qed

lemma cache_cases [consumes 1, case_names hit miss]:
  assumes "coherent S ri"
    and "\<And>entry. RivetCache_EntryLookup ri key = Ret (Some entry) \<Longrightarrow> P"
    and "RivetCache_EntryLookup ri key = Ret None \<Longrightarrow> P"
  shows P
proof -
  have "RivetCache_EntryLookup ri key = Ret (map_option Some (cache_map ri key))"
    using assms(1) cache.lookup_view [of ri key] by (simp add: coherent_def)
  then show P using assms(2,3) by (cases "cache_map ri key") simp_all
qed

definition url_consistent :: "(bytes \<Rightarrow> bytes) \<Rightarrow> 'chan tcl_io \<Rightarrow> rivet_thread_private \<Rightarrow> bool" where
  "url_consistent S io pd =
     (case (priv_r pd, running_conf pd) of
        (Some rec, Some conf) \<Rightarrow> url_load io rec = (S (url_key conf rec), Ret ())
      | _ \<Rightarrow> False)"

lemma url_script_step:
  assumes ri: "coherent S ri" and pd: "url_consistent S io pd"
  shows "\<exists>ri'. Rivet_UrlScript io (Some pd, ri)
      = ((Some pd, ri'), Ret (TStr (fst (url_load io (the (priv_r pd)))))) \<and> coherent S ri'"
proof -
  from pd obtain rec conf where p: "priv_r pd = Some rec" "running_conf pd = Some conf"
    "url_load io rec = (S (url_key conf rec), Ret ())"
    by (auto simp: url_consistent_def split: option.splits)
  from ri show ?thesis
  proof (cases rule: cache_cases [where key = "url_key conf rec"])
    case (hit entry)
    then show ?thesis using p cache_hit [OF ri hit] ri by (simp add: Rivet_UrlScript_def Let_def)
  next
    case miss
    then show ?thesis using p cache_miss [OF ri miss] by (auto simp: Rivet_UrlScript_def Let_def)
  qed
qed

text \<open>A sequence of requests on one interpreter, each with the files as they are at its time.\<close>

fun url_run ::
    "('chan tcl_io \<times> rivet_thread_private) list \<Rightarrow> rivet_thread_interp \<Rightarrow> rivet_thread_interp \<times> tobj outcome list" where
  "url_run [] ri = (ri, [])"
| "url_run ((io, pd) # rs) ri =
     (case Rivet_UrlScript io (Some pd, ri) of
        ((_, ri'), res) \<Rightarrow> (case url_run rs ri' of (ri'', l) \<Rightarrow> (ri'', res # l)))"

section \<open>Properties\<close>


text \<open>\<open>parse\<close> of a file evaluates the translation of the file whether it comes from the cache or
  is made now, and evaluates it in a state whose cache is in order; when the file is not in the
  cache and cannot be read, nothing is evaluated and nothing is stored.\<close>

lemma parse_uncached:
  assumes "coherent S ri" "priv_r pd = Some rec" "running_conf pd = Some conf"
    "parse_words (core lib) objv = Ret (File None (Some fname))"
    "cstr fname \<noteq> cstr (filename rec)" "apr_stat lib fname = Inr tms"
    "load = Rivet_GetRivetFileEncoding (script_io lib) fname [] None"
    "key = parse_key conf fname None tms"
    "snd load = Ret () \<Longrightarrow> fst load = S key"
  shows "(\<exists>ri'. Rivet_Parse lib objv (Some pd, ri) = eval_script lib (S key) (Some pd, ri') \<and> coherent S ri')
    \<or> cache_map ri key = None \<and> snd load \<noteq> Ret ()
      \<and> fst (Rivet_Parse lib objv (Some pd, ri)) = (Some pd, ri)"
  using assms(1)
proof (cases rule: cache_cases [where key = key])
  case (hit entry)
  then have "Rivet_Parse lib objv (Some pd, ri) = eval_script lib (S key) (Some pd, ri)"
    using assms(2-8) cache_hit [OF assms(1) hit] by (simp add: Rivet_Parse_def parse_file_def Let_def)
  with assms(1) show ?thesis by blast
next
  case miss
  show ?thesis
  proof (cases "snd load = Ret ()")
    case True
    then have "load = (S key, Ret ())" using assms(9) by (cases load) simp
    then show ?thesis
      using assms(2-8) cache_miss [OF assms(1) miss] miss by (auto simp: Rivet_Parse_def parse_file_def Let_def)
  next
    case False
    obtain script r where l: "Rivet_GetRivetFileEncoding (script_io lib) fname [] None = (script, r)" "r \<noteq> Ret ()"
      using False assms(7)
      by (cases "Rivet_GetRivetFileEncoding (script_io lib) fname [] None") simp
    then have "fst (Rivet_Parse lib objv (Some pd, ri)) = (Some pd, ri)"
      using assms(2-6,8) miss by (cases r) (auto simp: Rivet_Parse_def parse_file_def Let_def)
    with False cache_miss_empty [OF assms(1) miss] show ?thesis by blast
  qed
qed

section \<open>Restoring the channel\<close>

text \<open>What Tcl promises of the options of a channel: a value that was read can be set again and is then
  read again, flushing changes no option, setting the encoding keeps the translation, setting the
  end of file character keeps both. Setting the translation to \<open>binary\<close> changes all three.\<close>

definition saved_options :: "('st, 'res) chan_lib \<Rightarrow> 'st \<Rightarrow> bytes option list" where
  "saved_options lib st = map (\<lambda>n. get_option lib n st) [''-translation'', ''-encoding'', ''-eofchar'']"

definition chan_laws :: "('st, 'res) chan_lib \<Rightarrow> bool" where
  "chan_laws lib \<longleftrightarrow>
     (\<forall>n v st st0. get_option lib n st0 = Some v \<longrightarrow> cstr v = v
        \<and> (snd (set_option lib n v st) \<longrightarrow> get_option lib n (fst (set_option lib n v st)) = Some v))
   \<and> (\<forall>n st. get_option lib n (fst (flush lib st)) = get_option lib n st)
   \<and> (\<forall>v st. get_option lib ''-translation'' (fst (set_option lib ''-encoding'' v st))
        = get_option lib ''-translation'' st)
   \<and> (\<forall>v st. get_option lib ''-translation'' (fst (set_option lib ''-eofchar'' v st))
        = get_option lib ''-translation'' st
      \<and> get_option lib ''-encoding'' (fst (set_option lib ''-eofchar'' v st)) = get_option lib ''-encoding'' st)"

definition chan_works :: "('st, 'res) chan_lib \<Rightarrow> bool" where
  "chan_works lib \<longleftrightarrow> (\<forall>n v st. stdout_open lib st \<and> snd (flush lib st) \<and> get_option lib n st \<noteq> None
     \<and> snd (set_option lib n v st))"

text \<open>The part of the command after the script.\<close>

definition restore_options :: "('st, 'res) chan_lib \<Rightarrow> bytes \<Rightarrow> bytes \<Rightarrow> bytes \<Rightarrow> 'st \<Rightarrow> 'st \<times> bool" where
  "restore_options lib translation encoding eofchar st =
     (let (st, ok1) = flush lib st;
          (st, ok2) = set_option lib ''-translation'' (cstr translation) st;
          (st, ok3) = set_option lib ''-encoding'' (cstr encoding) st;
          (st, ok4) = set_option lib ''-eofchar'' (cstr eofchar) st
      in (st, ok1 \<and> ok2 \<and> ok3 \<and> ok4))"

lemma restore_options_saved:
  assumes "chan_laws lib" "saved_options lib st0 = [Some t, Some e, Some x]"
    "restore_options lib t e x st = (st', True)"
  shows "saved_options lib st' = [Some t, Some e, Some x]"
proof -
  from assms(2) have g: "get_option lib ''-translation'' st0 = Some t" "get_option lib ''-encoding'' st0 = Some e"
    "get_option lib ''-eofchar'' st0 = Some x"
    by (simp_all add: saved_options_def)
  have c: "cstr t = t" "cstr e = e" "cstr x = x"
    and set: "snd (set_option lib ''-translation'' t s) \<Longrightarrow>
        get_option lib ''-translation'' (fst (set_option lib ''-translation'' t s)) = Some t"
      "snd (set_option lib ''-encoding'' e s) \<Longrightarrow>
        get_option lib ''-encoding'' (fst (set_option lib ''-encoding'' e s)) = Some e"
      "snd (set_option lib ''-eofchar'' x s) \<Longrightarrow>
        get_option lib ''-eofchar'' (fst (set_option lib ''-eofchar'' x s)) = Some x" for s
    using assms(1) g unfolding chan_laws_def by blast+
  have frame: "get_option lib ''-translation'' (fst (set_option lib ''-encoding'' v s))
        = get_option lib ''-translation'' s"
      "get_option lib ''-translation'' (fst (set_option lib ''-eofchar'' v s)) = get_option lib ''-translation'' s"
      "get_option lib ''-encoding'' (fst (set_option lib ''-eofchar'' v s)) = get_option lib ''-encoding'' s" for v s
    using assms(1) unfolding chan_laws_def by blast+
  from assms(3) c obtain s1 s2 s3 where s: "s1 = fst (flush lib st)"
    "set_option lib ''-translation'' t s1 = (s2, True)" "set_option lib ''-encoding'' e s2 = (s3, True)"
    "set_option lib ''-eofchar'' x s3 = (st', True)"
    by (simp add: restore_options_def split: prod.splits)
  show ?thesis
    using set(1) [of s1] set(2) [of s2] set(3) [of s3] frame(1) [of e s2] frame(2,3) [of x s3] s(2-4)
    by (simp add: saved_options_def)
qed

lemma with_binary_output_unfold:
  "Rivet_WithBinaryOutput lib [w, script] st =
     (if \<not> stdout_open lib st then (st, Fail (ErrMsg ''stdout is not available''))
      else let (st, flushed) = flush lib st in
        if \<not> flushed then (st, Fail LibError)
        else case saved_options lib st of
            [Some t, Some e, Some x] \<Rightarrow>
              let (st, binary) = set_option lib ''-translation'' ''binary'' st in
              if \<not> binary then (st, Fail LibError)
              else let (st, code, state) = eval_obj lib script st; (st, ok) = restore_options lib t e x st
                   in if \<not> ok \<and> code = 0 then (st, Fail LibError) else (st, Ret (code, state))
          | _ \<Rightarrow> (st, Fail LibError))"
  by (simp add: Rivet_WithBinaryOutput_def saved_options_def restore_options_def Let_def
      split: prod.split option.split)
text \<open>Whatever the script does, the command either fails before it and evaluates nothing, or restores
  the options and passes the completion on.\<close>

lemma restore_options_works: "chan_works lib \<Longrightarrow> snd (restore_options lib t e x st)"
  by (simp add: restore_options_def Let_def split_beta chan_works_def)

lemma with_binary_output_result:
  assumes "chan_laws lib" "Rivet_WithBinaryOutput lib [w, script] st = (st', Ret (code, state))"
  shows "\<exists>st1 st2. set_option lib ''-translation'' ''binary'' (fst (flush lib st)) = (st1, True)
      \<and> eval_obj lib script st1 = (st2, code, state)
      \<and> (code = 0 \<or> chan_works lib \<longrightarrow> saved_options lib st' = saved_options lib st)"
proof -
  from assms(2) obtain st0 t e x st1 st2 ok where
    s: "flush lib st = (st0, True)" "saved_options lib st0 = [Some t, Some e, Some x]"
      "set_option lib ''-translation'' ''binary'' st0 = (st1, True)"
      "eval_obj lib script st1 = (st2, code, state)" "restore_options lib t e x st2 = (st', ok)"
      "ok \<or> code \<noteq> 0"
    unfolding with_binary_output_unfold Let_def
    by (auto split: if_splits prod.splits list.splits option.splits)
  have "saved_options lib st0 = saved_options lib st"
    using assms(1) s(1) unfolding chan_laws_def saved_options_def by (metis fst_conv)
  moreover have "ok" if "code = 0 \<or> chan_works lib"
    using that s(5,6) restore_options_works [of lib t e x st2] by auto
  ultimately show ?thesis using restore_options_saved [OF assms(1), of st0 t e x st2 st'] s by auto
qed

lemma with_binary_output_total:
  assumes "chan_works lib"
  shows "\<exists>st' code state. Rivet_WithBinaryOutput lib [w, script] st = (st', Ret (code, state))"
proof -
  have sets: "snd (set_option lib n v s)" "snd (flush lib s)" "stdout_open lib s" "get_option lib n s \<noteq> None" for n v s
    using assms unfolding chan_works_def by blast+
  have "\<exists>t e x. saved_options lib (fst (flush lib st)) = [Some t, Some e, Some x]"
    using sets(4) [of "''-translation''"] sets(4) [of "''-encoding''"] sets(4) [of "''-eofchar''"]
    by (simp add: saved_options_def)
  then obtain t e x where "saved_options lib (fst (flush lib st)) = [Some t, Some e, Some x]" by blast
  then show ?thesis
    using sets(1) [of "''-translation''" "''binary''"] sets(2,3) restore_options_works [OF assms]
    by (simp add: with_binary_output_unfold Let_def split_beta)
qed

section \<open>Properties of binary output\<close>

text \<open>\<open>with_binary_output\<close> gives the completion code and the interpreter state of the script,
  which it evaluates once with a binary channel, and after a normal completion, and after any
  completion when the channel works, translation, encoding and end of file character are as before;
  it fails itself only when an operation of the channel does. \<open>write_binary\<close> is the same for
  writing one value.\<close>

lemma with_binary_output_restores:
  assumes "chan_laws lib"
    "run = Rivet_WithBinaryOutput lib [w, script] st
     \<or> run = Rivet_WriteBinary lib [w', data] st \<and> script = TList [''puts'', ''-nonewline'', ''stdout'', data]"
  shows "case run of
      (st', Ret (code, state)) \<Rightarrow>
        \<exists>st1 st2. set_option lib ''-translation'' ''binary'' (fst (flush lib st)) = (st1, True)
          \<and> eval_obj lib script st1 = (st2, code, state)
          \<and> (code = 0 \<or> chan_works lib \<longrightarrow> saved_options lib st' = saved_options lib st)
    | _ \<Rightarrow> \<not> chan_works lib"
proof -
  from assms(2) obtain v where run: "run = Rivet_WithBinaryOutput lib [v, script] st"
    by (auto simp: Rivet_WriteBinary_def)
  show ?thesis
  proof (cases "\<exists>st' code state. run = (st', Ret (code, state))")
    case True
    then show ?thesis using with_binary_output_result [OF assms(1)] run by auto
  next
    case False
    then have "\<not> chan_works lib" using with_binary_output_total run by metis
    with False show ?thesis by (cases run; cases "snd run") auto
  qed
qed

text \<open>A channel whose options are a function and which keeps what is written.\<close>

definition demo_channel :: "((bytes \<Rightarrow> bytes) \<times> bytes, bytes) chan_lib" where
  "demo_channel = \<lparr> stdout_open = (\<lambda>st. True), flush = (\<lambda>st. (st, True)),
     get_option = (\<lambda>n st. Some (cstr (fst st n))),
     set_option = (\<lambda>n v st. let f = (fst st)(n := v) in
       ((if n = ''-translation'' \<and> v = ''binary'' then f(''-encoding'' := ''binary'', ''-eofchar'' := []) else f,
         snd st), True)),
     write_obj = (\<lambda>s st. (fst st, snd st @ s)),
     eval_obj = (\<lambda>s st. ((fst st, snd st @ (case s of TList ws \<Rightarrow> last ws | TStr b \<Rightarrow> b | _ \<Rightarrow> [])), 0, [])) \<rparr>"

lemma demo_channel_laws: "chan_laws demo_channel"
  by (auto simp: chan_laws_def demo_channel_def Let_def)

definition demo_options :: "bytes \<Rightarrow> bytes" where
  "demo_options = (\<lambda>n. [])(''-translation'' := ''lf'', ''-encoding'' := ''utf-8'')"

lemma with_binary_output_restores_witness:
  "case Rivet_WriteBinary demo_channel [''write_binary'', [CHR 0xFF]] (demo_options, ''a'') of
      (st', Ret (code, state)) \<Rightarrow>
        \<exists>st1 st2. set_option demo_channel ''-translation'' ''binary'' (fst (flush demo_channel (demo_options, ''a''))) = (st1, True)
          \<and> eval_obj demo_channel (TList [''puts'', ''-nonewline'', ''stdout'', [CHR 0xFF]]) st1 = (st2, code, state)
          \<and> (code = 0 \<or> chan_works demo_channel
              \<longrightarrow> saved_options demo_channel st' = saved_options demo_channel (demo_options, ''a''))
    | _ \<Rightarrow> \<not> chan_works demo_channel"
  by (rule with_binary_output_restores [OF demo_channel_laws disjI2, where w' = "''write_binary''"]) simp

definition demo_scripts :: "nat script_lib" where
  "demo_scripts = \<lparr> core = demo_core, script_io = demo_io ''hello'', get_encoding = (\<lambda>e. None),
     apr_stat = (\<lambda>f. Inr (3, 4)), eval_script = (\<lambda>s st. (st, Ret (TStr s))) \<rparr>"

definition demo_script_text :: "bytes \<Rightarrow> bytes" where
  "demo_script_text key = fst (Rivet_GetRivetFile (demo_io ''hello'') ''index.rvt'' [])"

definition cold_interp :: rivet_thread_interp where
  "cold_interp = demo_interp\<lparr>objCache := Some Map.empty, objCacheList := [None, None], cache_free := 2\<rparr>"

lemma cold_interp_coherent: "coherent S cold_interp"
  unfolding coherent_def cache_ok_def
  by (rule conjI, rule exI [of _ "[]"], rule exI [of _ Map.empty])
    (simp_all add: cache_rep_def cache_map_def cold_interp_def demo_interp_def numeral_2_eq_2)


lemma parse_uncached_witness:
  "(\<exists>ri'. Rivet_Parse demo_scripts [''parse'', ''index.rvt''] (Some demo_thread, cold_interp)
        = eval_script demo_scripts (demo_script_text (parse_key RIVET_NEW_CONF ''index.rvt'' None (3, 4)))
            (Some demo_thread, ri') \<and> coherent demo_script_text ri')
    \<or> cache_map cold_interp (parse_key RIVET_NEW_CONF ''index.rvt'' None (3, 4)) = None
      \<and> snd (Rivet_GetRivetFileEncoding (script_io demo_scripts) ''index.rvt'' [] None) \<noteq> Ret ()
      \<and> fst (Rivet_Parse demo_scripts [''parse'', ''index.rvt''] (Some demo_thread, cold_interp))
        = (Some demo_thread, cold_interp)"
  by (rule parse_uncached [OF cold_interp_coherent, where fname = "''index.rvt''" and conf = RIVET_NEW_CONF
        and rec = "demo_request M_GET None" and tms = "(3, 4)"])
    (simp_all add: demo_thread_def parse_words_def demo_scripts_def demo_request_def demo_script_text_def
      Rivet_GetRivetFile_def)

section \<open>Errors that do not show\<close>

text \<open>\<open>url_script\<close> of a file that cannot be read succeeds, with what was read so far, and leaves it out of
  the cache.\<close>

lemma url_script_read_error:
  assumes "priv_r pd = Some rec" "running_conf pd = Some conf" "url_load io rec = (script, Fail e)"
    "RivetCache_EntryLookup ri (url_key conf rec) = Ret None"
  shows "Rivet_UrlScript io (Some pd, ri) = ((Some pd, ri), Ret (TStr script))"
  using assms by (simp add: Rivet_UrlScript_def Let_def)

text \<open>\<open>parse -virtual\<close> of a name httpd does not map to a file compares NULL with the name of the request.\<close>

lemma parse_virtual_missing:
  assumes "priv_r pd = Some rec" "TclWeb_GetVirtualFile (sub_req_lookup_uri (core lib)) (cstr name) = Ret None"
  shows "Rivet_Parse lib [''parse'', ''-virtual'', name] (Some pd, ri) = ((Some pd, ri), Fault NullDeref)"
  using assms by (simp add: Rivet_Parse_def parse_words_def STREQU_def numeral_2_eq_2)

end
