(* ===== verification/Rivet_Inspect.thy ===== *)
theory Rivet_Inspect
  imports Rivet_Core
begin

text \<open>
  src/src/mod_rivet_ng/rivetInspect.c and its command \<open>inspect\<close> of rivetCore.c: the configuration as
  Tcl values; and \<open>log_error\<close>, whose levels are the ones \<open>inspect server\<close> names.
\<close>

section \<open>Levels of the error log\<close>

datatype loglevel = EMERG | ALERT | CRIT | ERR | WARNING | NOTICE | INFO | DEBUG

text \<open>The number httpd gives a level: the smaller, the more severe.\<close>

primrec apLogLevel :: "loglevel \<Rightarrow> int" where
  "apLogLevel EMERG = 0"
| "apLogLevel ALERT = 1"
| "apLogLevel CRIT = 2"
| "apLogLevel ERR = 3"
| "apLogLevel WARNING = 4"
| "apLogLevel NOTICE = 5"
| "apLogLevel INFO = 6"
| "apLogLevel DEBUG = 7"

instantiation loglevel :: linorder
begin

definition less_eq_loglevel :: "loglevel \<Rightarrow> loglevel \<Rightarrow> bool" where
  "less_eq_loglevel a b \<longleftrightarrow> apLogLevel a \<le> apLogLevel b"

definition less_loglevel :: "loglevel \<Rightarrow> loglevel \<Rightarrow> bool" where
  "less_loglevel a b \<longleftrightarrow> apLogLevel a < apLogLevel b"

lemma apLogLevel_eq_iff: "apLogLevel a = apLogLevel b \<longleftrightarrow> a = b"
  by (cases a; cases b) simp_all

instance
  by standard (auto simp: less_eq_loglevel_def less_loglevel_def apLogLevel_eq_iff)

end

definition logLevel :: "(bytes \<times> loglevel) list" where
  "logLevel = [(''emerg'', EMERG), (''alert'', ALERT), (''crit'', CRIT), (''err'', ERR), (''warning'', WARNING),
     (''notice'', NOTICE), (''info'', INFO), (''debug'', DEBUG)]"

text \<open>The error log is the sequence of calls of \<open>ap_log_error\<close>: level, server, message.\<close>

type_synonym error_log = "(int \<times> server_rec \<times> bytes) list"

definition Rivet_LogErrorCmd ::
    "core_lib \<Rightarrow> server_rec \<Rightarrow> bytes list \<Rightarrow> rivet_thread_private option \<Rightarrow> error_log \<Rightarrow> error_log cmd" where
  "Rivet_LogErrorCmd lib interp_server objv private log =
     (if length objv \<noteq> 3 then (log, Fail (WrongNumArgs 1 ''loglevel message''))
      else
        let message = cstr (objv ! 2) in
        case get_index lib (map fst logLevel) (objv ! 1) of
          None \<Rightarrow> (log, Fail LibError)
        | Some loglevelindex \<Rightarrow>
            let serverRec = (case Option.bind private priv_r of None \<Rightarrow> interp_server | Some rec \<Rightarrow> r_server rec)
            in (log @ [(apLogLevel (snd (logLevel ! loglevelindex)), serverRec, message)], Ret no_result))"

section \<open>The configuration as Tcl values\<close>

datatype conf_value = StrField "mod_rivet_globals \<Rightarrow> rivet_server_conf \<Rightarrow> bytes option"
  | IntField "mod_rivet_globals \<Rightarrow> rivet_server_conf \<Rightarrow> int"

text \<open>The names of \<open>confDirectives\<close> with the case of the switch each one's index selects.\<close>

definition confDirectives :: "(bytes \<times> conf_value) list" where
  "confDirectives =
    [(''ServerInitScript'', StrField (\<lambda>g c. rivet_server_init_script g)),
     (''GlobalInitScript'', StrField (\<lambda>g c. rivet_global_init_script c)),
     (''ChildInitScript'', StrField (\<lambda>g c. rivet_child_init_script c)),
     (''ChildExitScript'', StrField (\<lambda>g c. rivet_child_exit_script c)),
     (''BeforeScript'', StrField (\<lambda>g c. rivet_before_script c)),
     (''AfterScript'', StrField (\<lambda>g c. rivet_after_script c)),
     (''AfterEveryScript'', StrField (\<lambda>g c. after_every_script c)),
     (''AbortScript'', StrField (\<lambda>g c. rivet_abort_script c)),
     (''ErrorScript'', StrField (\<lambda>g c. rivet_error_script c)),
     (''UploadMaxSize'', IntField (\<lambda>g c. upload_max c)),
     (''UploadDirectory'', StrField (\<lambda>g c. upload_dir c)),
     (''UploadFilesToVar'', IntField (\<lambda>g c. upload_files_to_var c)),
     (''SeparateVirtualInterps'', IntField (\<lambda>g c. separate_virtual_interps g)),
     (''SeparateChannels'', IntField (\<lambda>g c. separate_channels g)),
     (''HonorHeaderOnlyRequests'', IntField (\<lambda>g c. honor_head_requests c)),
     (''MpmBridge'', StrField (\<lambda>g c. mpm_bridge g)),
     (''RequestHandler'', StrField (\<lambda>g c. request_handler c)),
     (''ExportRivetNS'', IntField (\<lambda>g c. export_rivet_ns c)),
     (''ImportRivetNS'', IntField (\<lambda>g c. import_rivet_ns c))]"

definition conf_value_obj :: "conf_value \<Rightarrow> mod_rivet_globals \<Rightarrow> rivet_server_conf \<Rightarrow> tobj" where
  "conf_value_obj v g c =
     (case v of
        StrField f \<Rightarrow> TStr (case f g c of None \<Rightarrow> [] | Some string_value \<Rightarrow> cstr string_value)
      | IntField f \<Rightarrow> TInt (f g c))"

definition Rivet_ReadConfParameter ::
    "core_lib \<Rightarrow> mod_rivet_globals \<Rightarrow> rivet_server_conf \<Rightarrow> bytes \<Rightarrow> tobj option" where
  "Rivet_ReadConfParameter lib g rsc par_name =
     (case get_index lib (map fst confDirectives) par_name of
        None \<Rightarrow> None
      | Some parameter_i \<Rightarrow> Some (conf_value_obj (snd (confDirectives ! parameter_i)) g rsc))"

text \<open>Putting a value into a dictionary: the value of a key is replaced, a new key comes last. The keys
  and values of the list that \<open>Rivet_ReadConfTable\<close> makes alternate.\<close>

fun dict_set :: "('k \<times> 'v) list \<Rightarrow> 'k \<Rightarrow> 'v \<Rightarrow> ('k \<times> 'v) list" where
  "dict_set [] k v = [(k, v)]"
| "dict_set ((k', v') # d) k v = (if k' = k then (k, v) # d else (k', v') # dict_set d k v)"

definition Rivet_ReadConfTable :: "bytes option apr_table option \<Rightarrow> bytes list outcome" where
  "Rivet_ReadConfTable table =
     (case table of
        None \<Rightarrow> Fault NullDeref
      | Some elts \<Rightarrow>
          Ret (concat (map (\<lambda>(key, val). [cstr key, case val of None \<Rightarrow> [] | Some v \<Rightarrow> cstr v]) elts)))"

text \<open>\<open>Tcl_DictObjPutKeyList\<close> with two keys, and its calls for every pair of the list.\<close>

definition put_key_list ::
    "(bytes \<times> (bytes \<times> bytes) list) list \<Rightarrow> bytes \<Rightarrow> bytes \<Rightarrow> bytes \<Rightarrow> (bytes \<times> (bytes \<times> bytes) list) list" where
  "put_key_list d sec key val =
     dict_set d sec (dict_set (case map_of d sec of None \<Rightarrow> [] | Some s \<Rightarrow> s) key val)"

fun put_section ::
    "bytes \<Rightarrow> bytes list \<Rightarrow> (bytes \<times> (bytes \<times> bytes) list) list \<Rightarrow> (bytes \<times> (bytes \<times> bytes) list) list" where
  "put_section sec (key # val # keyval_list) conf_dict =
     put_section sec keyval_list (put_key_list conf_dict sec key val)"
| "put_section sec _ conf_dict = conf_dict"

fun put_sections ::
    "(bytes \<times> bytes option apr_table option) list \<Rightarrow> (bytes \<times> (bytes \<times> bytes) list) list \<Rightarrow>
     (bytes \<times> (bytes \<times> bytes) list) list outcome" where
  "put_sections [] conf_dict = Ret conf_dict"
| "put_sections ((sec, table) # rest) conf_dict =
     bindO (Rivet_ReadConfTable table) (\<lambda>kv. put_sections rest (put_section sec kv conf_dict))"

definition Rivet_BuildConfDictionary :: "rivet_server_conf \<Rightarrow> tobj outcome" where
  "Rivet_BuildConfDictionary rivet_conf =
     bindO (put_sections
              [(''dir'', rivet_dir_vars rivet_conf), (''user'', rivet_user_vars rivet_conf),
               (''server'', rivet_server_vars rivet_conf)] [])
       (\<lambda>d. Ret (TDict2 d))"

definition tobj_text :: "tobj \<Rightarrow> bytes" where
  "tobj_text v = (case v of TStr s \<Rightarrow> s | TInt n \<Rightarrow> printf_d n | _ \<Rightarrow> [])"

fun conf_dict_loop ::
    "core_lib \<Rightarrow> mod_rivet_globals \<Rightarrow> rivet_server_conf \<Rightarrow> bytes list \<Rightarrow> (bytes \<times> bytes) list \<Rightarrow>
     (bytes \<times> bytes) list outcome" where
  "conf_dict_loop lib g conf [] dictObj = Ret dictObj"
| "conf_dict_loop lib g conf (par_name # names) dictObj =
     (case Rivet_ReadConfParameter lib g conf par_name of
        None \<Rightarrow> Fault AssertFailed
      | Some par_value \<Rightarrow> conf_dict_loop lib g conf names (dict_set dictObj par_name (tobj_text par_value)))"

definition Rivet_CurrentConfDict ::
    "core_lib \<Rightarrow> mod_rivet_globals \<Rightarrow> rivet_server_conf \<Rightarrow> tobj outcome" where
  "Rivet_CurrentConfDict lib g rivet_conf =
     bindO (conf_dict_loop lib g rivet_conf (map fst confDirectives) []) (\<lambda>d. Ret (TDict d))"

definition Rivet_CurrentServerRec :: "server_rec \<Rightarrow> tobj outcome" where
  "Rivet_CurrentServerRec s =
     (let str = (\<lambda>v. case v of None \<Rightarrow> [] | Some v \<Rightarrow> cstr v) in
      if log_level s < 0 \<or> int (length logLevel) \<le> log_level s then Fault OutOfBounds
      else Ret (TDict
        [(''hostname'', str (server_hostname s)), (''errorlog'', str (error_fname s)),
         (''admin'', str (server_admin s)), (''server_path'', str (server_path s)),
         (''virtual'', printf_d (is_virtual s)),
         (''loglevel'', fst (logLevel ! nat (log_level s)))]))"

section \<open>The command\<close>

text \<open>The configuration of a request; a directory record that httpd does not have would be read through
  NULL.\<close>

definition GetConf_request :: "conf_lib \<Rightarrow> request_rec \<Rightarrow> rivet_server_conf outcome" where
  "GetConf_request clib rec =
     (case per_dir_config rec of
        Some None \<Rightarrow> Fault NullDeref
      | Some (Some rdc) \<Rightarrow> Ret (Rivet_GetConf clib (module_config (r_server rec)) (Some rdc))
      | None \<Rightarrow> Ret (Rivet_GetConf clib (module_config (r_server rec)) None))"

definition INSPECT_USAGE :: string where
  "INSPECT_USAGE = ''?server | dir | user? ?parameter name?''"

text \<open>\<open>info_script\<close> is the result of evaluating \<open>info script\<close>. The command changes no state.\<close>

definition inspect_word ::
    "core_lib \<Rightarrow> conf_lib \<Rightarrow> mod_rivet_globals \<Rightarrow> server_rec \<Rightarrow> tobj outcome \<Rightarrow> bytes \<Rightarrow>
     rivet_thread_private option \<Rightarrow> tobj outcome" where
  "inspect_word lib clib g root info_script par_name private =
     (let req = Option.bind private priv_r;
          in_request = (\<lambda>name body. snd (CHECK_REQUEST_REC name no_result (\<lambda>rec pd. (pd, body rec pd)) private)) in
      if STRNEQU par_name ''script'' then
        (case req of Some rec \<Rightarrow> Ret (TStr (cstr (filename rec))) | None \<Rightarrow> info_script)
      else if STRNEQU par_name ''-all'' then
        in_request ''::rivet::inspect -all''
          (\<lambda>rec pd. bindO (GetConf_request clib rec) (Rivet_CurrentConfDict lib g))
      else if STRNEQU par_name ''server'' then
        Rivet_CurrentServerRec (case req of Some rec \<Rightarrow> r_server rec | None \<Rightarrow> root)
      else if STRNEQU par_name ''exit'' then
        in_request ''::rivet::inspect'' (\<lambda>rec pd. Ret (TInt (if thread_exit pd then 1 else 0)))
      else
        bindO (case private of
                 None \<Rightarrow> Ret (module_config root)
               | Some pd \<Rightarrow>
                   (case priv_r pd of
                      None \<Rightarrow> (case running_conf pd of None \<Rightarrow> Fault NullDeref | Some c \<Rightarrow> Ret c)
                    | Some rec \<Rightarrow> GetConf_request clib rec))
          (\<lambda>rsc. case Rivet_ReadConfParameter lib g rsc par_name of
                   None \<Rightarrow> Fail (ErrMsg (''mod_rivet internal error invalid argument: '' @ par_name))
                 | Some par_value \<Rightarrow> Ret par_value))"

definition Rivet_InspectCmd ::
    "core_lib \<Rightarrow> conf_lib \<Rightarrow> mod_rivet_globals \<Rightarrow> server_rec \<Rightarrow> tobj outcome \<Rightarrow> bytes list \<Rightarrow>
     rivet_thread_private option \<Rightarrow> tobj outcome" where
  "Rivet_InspectCmd lib clib g root info_script objv private =
     (if length objv = 1 then
        snd (CHECK_REQUEST_REC ''::rivet::inspect'' no_result
               (\<lambda>rec pd. (pd, bindO (GetConf_request clib rec) Rivet_BuildConfDictionary)) private)
      else if length objv = 2 then inspect_word lib clib g root info_script (objv ! 1) private
      else Fail (WrongNumArgs 1 INSPECT_USAGE))"

section \<open>Dictionaries\<close>

lemma map_of_dict_set: "map_of (dict_set d k v) = (map_of d)(k \<mapsto> v)"
  by (induction d k v rule: dict_set.induct) (auto simp: fun_eq_iff)

lemma dict_set_new: "k \<notin> fst ` set d \<Longrightarrow> dict_set d k v = d @ [(k, v)]"
  by (induction d k v rule: dict_set.induct) auto

definition entry_text :: "bytes \<times> bytes option \<Rightarrow> bytes \<times> bytes" where
  "entry_text e = (cstr (fst e), case snd e of None \<Rightarrow> [] | Some v \<Rightarrow> cstr v)"

text \<open>What a nested dictionary holds under two keys.\<close>

definition dict_value :: "(bytes \<times> (bytes \<times> bytes) list) list \<Rightarrow> bytes \<Rightarrow> bytes \<Rightarrow> bytes option" where
  "dict_value d sec key = Option.bind (map_of d sec) (\<lambda>s. map_of s key)"

lemma put_key_list_value:
  "dict_value (put_key_list d sec a b) sec' key = (if sec' = sec \<and> key = a then Some b else dict_value d sec' key)"
  by (auto simp: dict_value_def put_key_list_def map_of_dict_set split: option.split)

lemma put_section_value:
  "dict_value (put_section sec (concat (map (\<lambda>(k, v). [cstr k, case v of None \<Rightarrow> [] | Some v \<Rightarrow> cstr v]) elts)) d) sec' key =
     (if sec' = sec then
        (case map_of (rev (map entry_text elts)) key of None \<Rightarrow> dict_value d sec' key | Some v \<Rightarrow> Some v)
      else dict_value d sec' key)"
proof (induction elts arbitrary: d)
  case (Cons e elts)
  obtain k v where e: "e = (k, v)" by fastforce
  show ?case
    by (cases "map_of (rev (map entry_text elts)) key")
      (simp_all add: e entry_text_def [of "(k, v)"] Cons put_key_list_value map_add_def)
qed simp

section \<open>Reading the configuration\<close>

lemma ReadConfParameter_listed:
  assumes "index_laws lib" "i < length confDirectives"
  shows "Rivet_ReadConfParameter lib g c (fst (confDirectives ! i)) = Some (conf_value_obj (snd (confDirectives ! i)) g c)"
proof -
  have "distinct (map fst confDirectives)" by (simp add: confDirectives_def)
  with index_found [OF assms(1) _ assms(2) refl] show ?thesis by (simp add: Rivet_ReadConfParameter_def)
qed

lemma conf_dict_loop_listed:
  assumes "list_all (\<lambda>(n, v). Rivet_ReadConfParameter lib g c n = Some (conf_value_obj v g c)) ds"
    "distinct (map fst d @ map fst ds)"
  shows "conf_dict_loop lib g c (map fst ds) d = Ret (d @ map (\<lambda>(n, v). (n, tobj_text (conf_value_obj v g c))) ds)"
  using assms
proof (induction ds arbitrary: d)
  case (Cons e ds)
  obtain n v where e: "e = (n, v)" by fastforce
  from Cons.prems have "n \<notin> fst ` set d" by (auto simp: e)
  with Cons show ?case by (simp add: e dict_set_new)
qed simp

lemma CurrentConfDict_listed:
  assumes "index_laws lib"
  shows "Rivet_CurrentConfDict lib g c =
    Ret (TDict (map (\<lambda>(n, v). (n, tobj_text (conf_value_obj v g c))) confDirectives))"
proof -
  have "list_all (\<lambda>(n, v). Rivet_ReadConfParameter lib g c n = Some (conf_value_obj v g c)) confDirectives"
    using ReadConfParameter_listed [OF assms] by (auto simp: list_all_length split_beta)
  then show ?thesis
    using conf_dict_loop_listed [of lib g c confDirectives "[]"]
    by (simp add: Rivet_CurrentConfDict_def confDirectives_def)
qed

lemma not_a_keyword:
  "(name, v) \<in> set confDirectives \<Longrightarrow>
   \<not> STRNEQU name ''script'' \<and> \<not> STRNEQU name ''-all'' \<and> \<not> STRNEQU name ''server'' \<and> \<not> STRNEQU name ''exit''"
  by (auto simp: confDirectives_def STRNEQU_def)

text \<open>The level \<open>inspect server\<close> names is the word \<open>log_error\<close> takes for that level.\<close>

lemma loglevel_names:
  assumes "index_laws lib" "log_level s = apLogLevel l" "Rivet_CurrentServerRec s = Ret (TDict d)"
    "map_of d ''loglevel'' = Some w" "Option.bind private priv_r = None"
  shows "Rivet_LogErrorCmd lib s [c, w, m] private log = (log @ [(apLogLevel l, s, cstr m)], Ret no_result)"
proof -
  have i: "nat (apLogLevel l) < length logLevel" "snd (logLevel ! nat (apLogLevel l)) = l"
    by (cases l; simp add: logLevel_def eval_nat_numeral)+
  have "\<not> (apLogLevel l < 0 \<or> int (length logLevel) \<le> apLogLevel l)"
    by (cases l) (simp_all add: logLevel_def)
  with assms(2-4) have "w = fst (logLevel ! nat (apLogLevel l))"
    by (auto simp: Rivet_CurrentServerRec_def Let_def split: if_splits)
  moreover have "distinct (map fst logLevel)" by (simp add: logLevel_def)
  ultimately have "get_index lib (map fst logLevel) w = Some (nat (apLogLevel l))"
    using index_found [OF assms(1)] i(1) by metis
  then show ?thesis using assms(5) i(2) by (simp add: Rivet_LogErrorCmd_def Let_def numeral_2_eq_2)
qed

section \<open>Properties\<close>


lemma put_sections_result:
  assumes "list_all (\<lambda>(sec, t). t \<noteq> None) secs"
  shows "\<exists>d'. put_sections secs d = Ret d' \<and>
    (\<forall>sec key. distinct (map fst secs) \<longrightarrow> dict_value d' sec key =
       (case map_of secs sec of
          Some (Some t) \<Rightarrow> (case map_of (rev (map entry_text t)) key of None \<Rightarrow> dict_value d sec key | Some v \<Rightarrow> Some v)
        | _ \<Rightarrow> dict_value d sec key))"
  using assms
proof (induction secs arbitrary: d)
  case (Cons e secs)
  obtain s t where e: "e = (s, Some t)" using Cons.prems by (cases e) auto
  let ?d = "put_section s (concat (map (\<lambda>(k, v). [cstr k, case v of None \<Rightarrow> [] | Some v \<Rightarrow> cstr v]) t)) d"
  from Cons.prems obtain d' where d': "put_sections secs ?d = Ret d'"
    "\<forall>sec key. distinct (map fst secs) \<longrightarrow> dict_value d' sec key =
       (case map_of secs sec of
          Some (Some t) \<Rightarrow> (case map_of (rev (map entry_text t)) key of None \<Rightarrow> dict_value ?d sec key | Some v \<Rightarrow> Some v)
        | _ \<Rightarrow> dict_value ?d sec key)"
    using Cons.IH [of ?d] by auto
  have "map_of secs s = None" if "distinct (map fst (e # secs))"
    using that by (simp add: e map_of_eq_None_iff)
  with d' show ?case
    by (auto simp: e Rivet_ReadConfTable_def put_section_value split: option.split)
qed simp

text \<open>\<open>inspect\<close> without arguments succeeds exactly when the three tables of the effective
  configuration exist, and gives a dictionary whose sections \<open>dir\<close>, \<open>user\<close> and \<open>server\<close> map every name
  to the last value its table has for it, and nothing else.\<close>

theorem inspect_dictionary:
  assumes "priv_r pd = Some rec" "GetConf_request clib rec = Ret conf"
    "tables = [(''dir'', rivet_dir_vars conf), (''user'', rivet_user_vars conf), (''server'', rivet_server_vars conf)]"
  shows "case Rivet_InspectCmd lib clib g root info_script [''inspect''] (Some pd) of
      Ret (TDict2 d) \<Rightarrow> None \<notin> snd ` set tables
        \<and> (\<forall>sec key. dict_value d sec key =
             Option.bind (map_of tables sec) (\<lambda>t. map_of (rev (map entry_text (the t))) key))
    | res \<Rightarrow> res = Fault NullDeref \<and> None \<in> snd ` set tables"
proof -
  have run: "Rivet_InspectCmd lib clib g root info_script [''inspect''] (Some pd)
      = bindO (put_sections tables []) (\<lambda>d. Ret (TDict2 d))"
    using assms by (simp add: Rivet_InspectCmd_def Rivet_BuildConfDictionary_def CHECK_REQUEST_REC_def)
  show ?thesis
  proof (cases "None \<in> snd ` set tables")
    case True
    then have "put_sections tables [] = Fault NullDeref"
      by (cases "rivet_dir_vars conf"; cases "rivet_user_vars conf"; cases "rivet_server_vars conf")
        (simp_all add: assms(3) Rivet_ReadConfTable_def)
    with True show ?thesis by (simp add: run)
  next
    case False
    then have "list_all (\<lambda>(sec, t). t \<noteq> None) tables" "distinct (map fst tables)"
      by (simp_all add: assms(3) eq_commute [of None])
    then obtain d where d: "put_sections tables [] = Ret d"
      "\<forall>sec key. dict_value d sec key =
       (case map_of tables sec of
          Some (Some t) \<Rightarrow> (case map_of (rev (map entry_text t)) key of None \<Rightarrow> dict_value [] sec key | Some v \<Rightarrow> Some v)
        | _ \<Rightarrow> dict_value [] sec key)"
      using put_sections_result [of tables "[]"] by blast
    have "dict_value [] sec key = None" for sec key by (simp add: dict_value_def)
    moreover have "map_of tables sec \<noteq> Some None" for sec
      using False by (metis image_iff map_of_SomeD snd_conv)
    ultimately have "dict_value d sec key =
        Option.bind (map_of tables sec) (\<lambda>t. map_of (rev (map entry_text (the t))) key)" for sec key
      using d(2) by (auto split: option.split)
    with False show ?thesis by (simp add: run d(1))
  qed
qed

definition demo_conf_thread :: "bytes option apr_table \<Rightarrow> rivet_thread_private" where
  "demo_conf_thread t = demo_thread\<lparr>priv_r := Some ((demo_request M_GET None)\<lparr>per_dir_config :=
     Some (Some (Rivet_CreateDirConfig\<lparr>rivet_dir_vars := Some t\<rparr>)),
     r_server := (r_server (demo_request M_GET None))\<lparr>module_config :=
       Rivet_CreateDirConfig\<lparr>upload_max := 10, rivet_before_script := Some ''puts a''\<rparr>\<rparr>\<rparr>)\<rparr>"

lemma demo_conf_request:
  "priv_r (demo_conf_thread t) = Some (the (priv_r (demo_conf_thread t)))"
  "GetConf_request demo_conf_lib (the (priv_r (demo_conf_thread t)))
   = Ret (Rivet_GetConf demo_conf_lib
       (Rivet_CreateDirConfig\<lparr>upload_max := 10, rivet_before_script := Some ''puts a''\<rparr>)
       (Some (Rivet_CreateDirConfig\<lparr>rivet_dir_vars := Some t\<rparr>)))"
  by (simp_all add: demo_conf_thread_def GetConf_request_def)


lemma inspect_dictionary_witness:
  "case Rivet_InspectCmd demo_core demo_conf_lib demo_globals (r_server (demo_request M_GET None))
      (Ret no_result) [''inspect''] (Some (demo_conf_thread [(''a'', Some ''1''), (''a'', Some ''2'')])) of
      Ret (TDict2 d) \<Rightarrow> None \<notin> snd ` set [(''dir'', Some [(''a'', Some ''1''), (''a'', Some ''2'')]),
          (''user'', Some []), (''server'', Some [])]
        \<and> (\<forall>sec key. dict_value d sec key =
             Option.bind (map_of [(''dir'', Some [(''a'', Some ''1''), (''a'', Some ''2'')]),
               (''user'', Some []), (''server'', Some [])] sec) (\<lambda>t. map_of (rev (map entry_text (the t))) key))
    | res \<Rightarrow> res = Fault NullDeref \<and> None \<in> snd ` set [(''dir'', Some [(''a'', Some ''1''), (''a'', Some ''2'')]),
          (''user'', Some []), (''server'', Some [])]"
  by (rule inspect_dictionary [OF demo_conf_request])
    (simp add: Rivet_GetConf_def Rivet_CreateDirConfig_def RIVET_NEW_CONF_def Rivet_MergeDirConfigVars_def
      Rivet_CopyConfig_def merge_vars_def demo_conf_lib_def)

section \<open>Behaviours worth knowing\<close>

text \<open>httpd has levels of detail behind \<open>debug\<close>; for a server that logs at one of them \<open>inspect server\<close>
  reads behind the array of names.\<close>

lemma inspect_trace_level:
  "log_level s = 8 \<Longrightarrow> Rivet_CurrentServerRec s = Fault OutOfBounds"
  by (simp add: Rivet_CurrentServerRec_def Let_def logLevel_def)

end
