(* ===== verification/Rivet_Generator.thy ===== *)
theory Rivet_Generator
  imports Rivet_Scripts
begin

unbundle bit_operations_syntax

text \<open>
  src/src/mod_rivet_ng/mod_rivet_generator.c: \<open>Rivet_SendContent\<close>, which serves one request on a
  thread, and the routines of mod_rivet_common.c it rests on: reading a script file, the scripts of a
  configuration, changing the directory. The interpreter object is the one the bridge gives for the
  configuration of the request (theory Rivet_Interps). The request handler is a script: evaluating it
  is a parameter that maps the state of the thread and of the interpreter.
\<close>

section \<open>Files\<close>

text \<open>\<open>stat_size\<close>, \<open>file_open\<close> and \<open>file_bytes\<close> are the routines of APR: the size of a file, whether it
  can be opened, the bytes reading at most so many of it gives.\<close>

record file_lib =
  stat_size :: "bytes \<Rightarrow> nat option"
  file_open :: "bytes \<Rightarrow> bool"
  file_bytes :: "bytes \<Rightarrow> nat \<Rightarrow> bytes option"

definition Rivet_ReadFile :: "file_lib \<Rightarrow> bytes \<Rightarrow> int \<times> bytes" where
  "Rivet_ReadFile lib fname =
     (case stat_size lib fname of
        None \<Rightarrow> (1, [])
      | Some buffer_size \<Rightarrow>
          if \<not> file_open lib fname then (1, [])
          else (case file_bytes lib fname buffer_size of None \<Rightarrow> (2, []) | Some buffer \<Rightarrow> (0, buffer)))"

text \<open>The part before the last slash, if there is a slash.\<close>

fun before_last_slash :: "bytes \<Rightarrow> bytes option" where
  "before_last_slash [] = None"
| "before_last_slash (c # s) =
     (case before_last_slash s of
        Some d \<Rightarrow> Some (c # d)
      | None \<Rightarrow> if c = CHR ''/'' then Some [] else None)"

text \<open>\<open>chdir\<close> gives the new working directory or fails.\<close>

definition Rivet_chdir_file :: "(bytes \<Rightarrow> 'd \<Rightarrow> 'd option) \<Rightarrow> bytes \<Rightarrow> 'd \<Rightarrow> 'd \<times> int" where
  "Rivet_chdir_file chdir file cwd =
     (let go = (\<lambda>dir. case chdir dir cwd of None \<Rightarrow> (cwd, - 1) | Some d \<Rightarrow> (d, 0)) in
      case before_last_slash (cstr file) of
        None \<Rightarrow> go (cstr file)
      | Some dir \<Rightarrow> if length dir < HUGE_STRING_LEN - 1 then go dir else (cwd, 0))"

section \<open>The scripts of a configuration\<close>

definition RIVET_CR_TERM :: "bytes \<Rightarrow> bytes" where "RIVET_CR_TERM s = cstr s @ [LF]"

definition RIVET_SCRIPT_INIT :: "bytes option \<Rightarrow> bytes option" where
  "RIVET_SCRIPT_INIT objscript = map_option RIVET_CR_TERM objscript"

definition Rivet_RunningScripts :: "file_lib \<Rightarrow> bytes \<Rightarrow> rivet_server_conf \<Rightarrow> running_scripts outcome" where
  "Rivet_RunningScripts lib default_handler rivet_conf =
     bindO (case request_handler rivet_conf of
              None \<Rightarrow> Ret default_handler
            | Some file \<Rightarrow>
                (case Rivet_ReadFile lib (cstr file) of
                   (rc, handler) \<Rightarrow> if rc = 0 then Ret handler else Fault AssertFailed))
       (\<lambda>handler. Ret
          \<lparr> request_processing = Some handler,
            rivet_before_script_obj = RIVET_SCRIPT_INIT (rivet_before_script rivet_conf),
            rivet_after_script_obj = RIVET_SCRIPT_INIT (rivet_after_script rivet_conf),
            rivet_error_script_obj = RIVET_SCRIPT_INIT (rivet_error_script rivet_conf),
            rivet_abort_script_obj = RIVET_SCRIPT_INIT (rivet_abort_script rivet_conf),
            after_every_script_obj = RIVET_SCRIPT_INIT (after_every_script rivet_conf) \<rparr>)"

section \<open>Choosing the scripts of a request\<close>

type_synonym send_state = "rivet_thread_private \<times> rivet_thread_interp"

text \<open>\<open>exit_handler\<close> is the entry of the bridge, which may be missing; \<open>None\<close> for its result when it ends
  the process. \<open>meets_conditions\<close> is \<open>ap_meets_conditions\<close>, \<open>flush_channel\<close> flushes the channel of the
  interpreter, \<open>pool_created\<close> tells if a memory pool could be made for a cleared cache.\<close>

record ('chan, 'd) gen_lib =
  gen_scripts :: "'chan script_lib"
  gen_conf :: conf_lib
  gen_files :: file_lib
  default_handler :: bytes
  chdir :: "bytes \<Rightarrow> 'd \<Rightarrow> 'd option"
  meets_conditions :: "request_rec \<Rightarrow> int"
  pool_created :: bool
  flush_channel :: "send_state \<Rightarrow> send_state"
  exit_handler :: "(send_state \<Rightarrow> send_state option) option"

abbreviation gen_web :: "('chan, 'd) gen_lib \<Rightarrow> web_lib" where
  "gen_web lib \<equiv> web (core (gen_scripts lib))"

definition merged_conf :: "conf_lib \<Rightarrow> rivet_server_conf \<Rightarrow> rivet_server_conf \<Rightarrow> rivet_server_conf" where
  "merged_conf lib conf rdc = Rivet_MergeDirConfigVars lib (Rivet_CopyConfig conf RIVET_NEW_CONF) conf rdc"

text \<open>The scripts stored for a directory; the first request of the directory makes and stores them.\<close>

definition dir_scripts ::
    "('chan, 'd) gen_lib \<Rightarrow> rivet_server_conf \<Rightarrow> bytes \<Rightarrow> send_state \<Rightarrow>
     send_state outcome" where
  "dir_scripts lib rdc dir st =
     (case st of (pd, ri) \<Rightarrow>
      case per_dir_scripts ri (cstr dir) of
        Some scr \<Rightarrow> Ret (pd\<lparr>running := Some scr\<rparr>, ri)
      | None \<Rightarrow>
          let newconfig = merged_conf (gen_conf lib) (the (running_conf pd)) rdc in
          bindO (Rivet_RunningScripts (gen_files lib) (default_handler lib) newconfig)
            (\<lambda>scr. Ret (pd\<lparr>running_conf := Some newconfig, running := Some scr\<rparr>,
                        ri\<lparr>per_dir_scripts := (per_dir_scripts ri)(cstr dir \<mapsto> scr)\<rparr>)))"

definition user_scripts ::
    "('chan, 'd) gen_lib \<Rightarrow> rivet_server_conf \<Rightarrow> send_state \<Rightarrow>
     send_state outcome" where
  "user_scripts lib rdc st =
     (case st of (pd, ri) \<Rightarrow>
      if USER_CONF_UPDATED rdc then
        let newconfig = merged_conf (gen_conf lib) (the (running_conf pd)) rdc in
        bindO (Rivet_RunningScripts (gen_files lib) (default_handler lib) newconfig)
          (\<lambda>scr. Ret (pd\<lparr>running_conf := Some newconfig, running := Some scr\<rparr>, ri))
      else Ret (pd, ri))"

definition choose_scripts ::
    "('chan, 'd) gen_lib \<Rightarrow> request_rec \<Rightarrow> send_state \<Rightarrow>
     send_state outcome" where
  "choose_scripts lib rec st =
     (case st of (pd, ri) \<Rightarrow>
      let pd = pd\<lparr>running_conf := Some (module_config (r_server rec)), running := Some (scripts ri)\<rparr> in
      case per_dir_config rec of
        None \<Rightarrow> Ret (pd, ri)
      | Some None \<Rightarrow> Fault NullDeref
      | Some (Some rdc) \<Rightarrow>
          bindO (case path rdc of None \<Rightarrow> Ret (pd, ri) | Some dir \<Rightarrow> dir_scripts lib rdc dir (pd, ri))
            (user_scripts lib rdc))"

section \<open>Serving a request\<close>

datatype log_entry = FileMissing bytes | ChdirFailed bytes | ScriptFailed bytes | Terminating int

text \<open>The end of a request: its result for httpd, or the end of the process.\<close>

datatype 'd served = Served send_state 'd int "log_entry list" | Terminated send_state "log_entry list"

text \<open>The stage \<open>sendcleanup\<close>.\<close>

definition sendcleanup :: "('chan, 'd) gen_lib \<Rightarrow> send_state \<Rightarrow> 'd \<Rightarrow> int \<Rightarrow> log_entry list \<Rightarrow> 'd served" where
  "sendcleanup lib st cwd retval log =
     (let exiting = thread_exit (fst st);
          log = (if exiting then log @ [Terminating (exit_status (fst st))] else log) in
      case (if exiting then (case exit_handler lib of None \<Rightarrow> Some st | Some h \<Rightarrow> h st) else Some st) of
        None \<Rightarrow> Terminated st log
      | Some (pd, ri) \<Rightarrow>
          Served (pd\<lparr>priv_req := (priv_req pd)\<lparr>content_sent := 0\<rparr>, abort_code := None,
                     page_aborting := False, priv_r := None\<rparr>, ri) cwd retval log)"

text \<open>Evaluating the request handler; the private data of a thread do not go away meanwhile.\<close>

definition eval_handler :: "('chan, 'd) gen_lib \<Rightarrow> bytes \<Rightarrow> send_state \<Rightarrow> send_state \<times> tobj outcome" where
  "eval_handler lib script st =
     (case eval_script (gen_scripts lib) script (Some (fst st), snd st) of
        ((private, ri), res) \<Rightarrow> ((case private of None \<Rightarrow> fst st | Some pd \<Rightarrow> pd, ri), res))"

definition evaluate_request ::
    "('chan, 'd) gen_lib \<Rightarrow> request_rec \<Rightarrow> send_state \<Rightarrow> (send_state \<times> log_entry list) outcome" where
  "evaluate_request lib rec st =
     (case st of (pd, ri) \<Rightarrow>
      let conf = the (running_conf pd) in
      bindO (if USER_CONF_UPDATED conf \<and> cache_size ri \<noteq> 0 \<and> cache_free ri < cache_size ri
             then RivetCache_Cleanup (pool_created lib) ri else Ret ri)
        (\<lambda>ri. case Option.bind (running pd) request_processing of
           None \<Rightarrow> Fault NullDeref
         | Some handler \<Rightarrow>
             (case eval_handler lib handler (pd, ri) of
                ((pd, ri), res) \<Rightarrow>
                  (case res of
                     Fault f \<Rightarrow> Fault f
                   | _ \<Rightarrow>
                     let log = (case res of
                                  Fail e \<Rightarrow> if page_aborting pd then [] else [ScriptFailed (filename rec)]
                                | _ \<Rightarrow> []);
                         pd = (case running_conf pd of
                                 None \<Rightarrow> pd
                               | Some conf \<Rightarrow>
                                   if IS_USER_CONF conf then pd\<lparr>running_conf := Some (conf\<lparr>user_scripts_status :=
                                     user_scripts_status conf AND NOT USER_SCRIPTS_UPDATED\<rparr>)\<rparr>
                                   else pd);
                         pd = pd\<lparr>priv_req := fst (TclWeb_PrintHeaders (priv_req pd))\<rparr>
                     in Ret (flush_channel lib (pd, ri), log)))))"

definition process_request ::
    "('chan, 'd) gen_lib \<Rightarrow> request_rec \<Rightarrow> send_state \<Rightarrow> (send_state \<times> int \<times> log_entry list) outcome" where
  "process_request lib rec st =
     (case st of (pd, ri) \<Rightarrow>
      let conf = the (running_conf pd);
          q = fst (TclWeb_InitRequest (gen_web lib) (ctype pd) rec (priv_req pd));
          ar = (apachereq q)\<lparr>post_max := upload_max conf, temp_dir := upload_dir conf\<rparr> in
      bindO (parse_request (core (gen_scripts lib)) ar)
        (\<lambda>ar. let q = q\<lparr>apachereq := ar\<rparr> in
           if status ar \<noteq> HTTP_OK then Ret ((pd\<lparr>priv_req := q\<rparr>, ri), status ar, [])
           else if header_only rec \<and> honor_head_requests conf = 0 then
             let q = fst (TclWeb_PrintHeaders (fst (TclWeb_SetHeaderType DEFAULT_HEADER_TYPE q)))
             in Ret ((pd\<lparr>priv_req := q\<rparr>, ri), HTTP_OK, [])
           else bindO (evaluate_request lib rec (pd\<lparr>priv_req := q\<rparr>, ri))
                  (\<lambda>(st, log). Ret (st, HTTP_OK, log))))"

text \<open>The bits of GET, PUT, POST and DELETE.\<close>

definition allowed_methods :: "64 word" where
  "allowed_methods = push_bit 0 1 OR push_bit 2 1 OR push_bit 1 1 OR push_bit 3 1"

definition Rivet_SendContent :: "('chan, 'd) gen_lib \<Rightarrow> send_state \<Rightarrow> 'd \<Rightarrow> 'd served outcome" where
  "Rivet_SendContent lib st cwd =
     (case priv_r (fst st) of
        None \<Rightarrow> Fault NullDeref
      | Some rec \<Rightarrow>
          bindO (choose_scripts lib rec st)
            (\<lambda>(pd, ri).
               let st = (pd\<lparr>allowed := allowed pd OR allowed_methods\<rparr>, ri) in
               if method_number rec = M_OTHER then Ret (sendcleanup lib st cwd DECLINED [])
               else if \<not> finfo_exists rec then
                 Ret (sendcleanup lib st cwd HTTP_NOT_FOUND
                        [FileMissing (filename rec @ (case path_info rec of None \<Rightarrow> [] | Some i \<Rightarrow> i))])
               else if meets_conditions lib rec \<noteq> HTTP_OK then
                 Ret (sendcleanup lib st cwd (meets_conditions lib rec) [])
               else
                 case Rivet_chdir_file (chdir lib) (filename rec) cwd of
                   (cwd, rc) \<Rightarrow>
                     if rc < 0 then
                       Ret (sendcleanup lib st cwd HTTP_INTERNAL_SERVER_ERROR [ChdirFailed (filename rec)])
                     else bindO (process_request lib rec st)
                            (\<lambda>(st, retval, log). Ret (sendcleanup lib st cwd retval log))))"

section \<open>The end of a request\<close>

text \<open>A thread between two requests.\<close>

definition thread_clean :: "rivet_thread_private \<Rightarrow> bool" where
  "thread_clean pd \<longleftrightarrow> priv_r pd = None \<and> \<not> page_aborting pd \<and> abort_code pd = None \<and> content_sent (priv_req pd) = 0"

definition cleaned :: "rivet_thread_private \<Rightarrow> rivet_thread_private" where
  "cleaned pd = pd\<lparr>priv_req := (priv_req pd)\<lparr>content_sent := 0\<rparr>, abort_code := None,
     page_aborting := False, priv_r := None\<rparr>"

lemma cleaned_clean: "thread_clean (cleaned pd)"
  by (simp add: thread_clean_def cleaned_def)

lemma sendcleanup_normal:
  "\<not> thread_exit (fst st) \<Longrightarrow> sendcleanup lib st cwd rv log = Served (cleaned (fst st), snd st) cwd rv log"
  by (cases st) (simp add: sendcleanup_def cleaned_def Let_def)

lemma sendcleanup_served:
  "sendcleanup lib st cwd rv log = Served (pd', ri') cwd' rv' log' \<Longrightarrow> thread_clean pd' \<and> rv' = rv \<and> cwd' = cwd"
  by (auto simp: sendcleanup_def Let_def thread_clean_def split: option.splits if_splits)

text \<open>Nothing of the end changes whether the thread is to exit.\<close>

lemma choose_scripts_thread:
  "choose_scripts lib rec (pd, ri) = Ret (pd', ri') \<Longrightarrow>
   \<exists>conf run. pd' = pd\<lparr>running_conf := Some conf, running := run\<rparr>"
  by (auto simp: choose_scripts_def dir_scripts_def user_scripts_def bindO_Ret_iff Let_def
      split: option.splits if_splits)
    (metis rivet_thread_private.surjective rivet_thread_private.update_convs)+

text \<open>The conditions a request has to meet before it is read, with the result of the first that fails.\<close>

definition refusals :: "('chan, 'd) gen_lib \<Rightarrow> request_rec \<Rightarrow> 'd \<Rightarrow> (bool \<times> int) list" where
  "refusals lib rec cwd =
     [(method_number rec = M_OTHER, DECLINED), (\<not> finfo_exists rec, HTTP_NOT_FOUND),
      (meets_conditions lib rec \<noteq> HTTP_OK, meets_conditions lib rec),
      (snd (Rivet_chdir_file (chdir lib) (filename rec) cwd) < 0, HTTP_INTERNAL_SERVER_ERROR)]"

lemma SendContent_refused:
  assumes "priv_r pd = Some rec" "choose_scripts lib rec (pd, ri) = Ret (pd1, ri1)" "\<not> thread_exit pd1"
    "find fst (refusals lib rec cwd) = Some (b, rv)"
  shows "\<exists>cwd' log. Rivet_SendContent lib (pd, ri) cwd
    = Ret (Served (cleaned (pd1\<lparr>allowed := allowed pd1 OR allowed_methods\<rparr>), ri1) cwd' rv log)"
  using assms
  by (auto simp: Rivet_SendContent_def refusals_def Let_def sendcleanup_normal split: if_splits prod.splits)

lemma SendContent_read:
  assumes "priv_r pd = Some rec" "choose_scripts lib rec (pd, ri) = Ret (pd1, ri1)"
    "find fst (refusals lib rec cwd) = None"
  shows "Rivet_SendContent lib (pd, ri) cwd =
    bindO (process_request lib rec (pd1\<lparr>allowed := allowed pd1 OR allowed_methods\<rparr>, ri1))
      (\<lambda>(st, rv, log). Ret (sendcleanup lib st (fst (Rivet_chdir_file (chdir lib) (filename rec) cwd)) rv log))"
  using assms by (auto simp: Rivet_SendContent_def refusals_def Let_def split: if_splits prod.split)

lemma SendContent_clean:
  assumes "Rivet_SendContent lib st cwd = Ret (Served (pd', ri') cwd' rv log)"
  shows "thread_clean pd'"
  using assms
  by (auto simp: Rivet_SendContent_def bindO_Ret_iff Let_def dest: sendcleanup_served
      split: option.splits if_splits prod.splits)

text \<open>What the module hands to the parser of the request, and the status it gets back.\<close>

definition parse_input :: "('chan, 'd) gen_lib \<Rightarrow> request_rec \<Rightarrow> rivet_thread_private \<Rightarrow> apache_request" where
  "parse_input lib rec pd =
     (apachereq (fst (TclWeb_InitRequest (gen_web lib) (ctype pd) rec (priv_req pd))))
       \<lparr>post_max := upload_max (the (running_conf pd)), temp_dir := upload_dir (the (running_conf pd))\<rparr>"

lemma process_request_status:
  assumes "process_request lib rec (pd, ri) = Ret (st', rv, log)"
  shows "\<exists>ar. parse_request (core (gen_scripts lib)) (parse_input lib rec pd) = Ret ar \<and> rv = status ar"
  using assms
  by (auto simp: process_request_def parse_input_def bindO_Ret_iff Let_def split: if_splits)

section \<open>The scripts of a directory\<close>

text \<open>\<open>D\<close> gives the scripts of each directory, and the memory of the interpreter agrees with it.\<close>

definition dirs_ok :: "(bytes \<Rightarrow> running_scripts) \<Rightarrow> rivet_thread_interp \<Rightarrow> bool" where
  "dirs_ok D ri \<longleftrightarrow> (\<forall>dir scr. per_dir_scripts ri dir = Some scr \<longrightarrow> scr = D dir)"

text \<open>A request in the section of a directory, without a configuration of the user, whose merged
  configuration has the scripts \<open>D\<close> gives for the directory.\<close>

definition dir_request :: "('chan, 'd) gen_lib \<Rightarrow> (bytes \<Rightarrow> running_scripts) \<Rightarrow> request_rec \<Rightarrow> bytes \<Rightarrow> bool" where
  "dir_request lib D rec dir =
     (case per_dir_config rec of
        Some (Some rdc) \<Rightarrow> path rdc = Some dir \<and> \<not> USER_CONF_UPDATED rdc
          \<and> Rivet_RunningScripts (gen_files lib) (default_handler lib)
              (merged_conf (gen_conf lib) (module_config (r_server rec)) rdc) = Ret (D (cstr dir))
      | _ \<Rightarrow> False)"

lemma choose_dir_scripts:
  assumes "dirs_ok D ri" "dir_request lib D rec dir"
  shows "\<exists>pd' ri'. choose_scripts lib rec (pd, ri) = Ret (pd', ri') \<and> running pd' = Some (D (cstr dir)) \<and> dirs_ok D ri'"
proof -
  from assms(2) obtain rdc where r: "per_dir_config rec = Some (Some rdc)" "path rdc = Some dir"
    "\<not> USER_CONF_UPDATED rdc" "Rivet_RunningScripts (gen_files lib) (default_handler lib)
              (merged_conf (gen_conf lib) (module_config (r_server rec)) rdc) = Ret (D (cstr dir))"
    by (auto simp: dir_request_def split: option.splits)
  show ?thesis
    using r assms(1)
    by (cases "per_dir_scripts ri (cstr dir)")
      (auto simp: choose_scripts_def dir_scripts_def user_scripts_def Let_def dirs_ok_def)
qed

text \<open>The choice of the scripts for a sequence of requests on one interpreter.\<close>

fun choose_run ::
    "('chan, 'd) gen_lib \<Rightarrow> (request_rec \<times> rivet_thread_private) list \<Rightarrow> rivet_thread_interp \<Rightarrow>
     (running_scripts option list \<times> rivet_thread_interp) outcome" where
  "choose_run lib [] ri = Ret ([], ri)"
| "choose_run lib ((rec, pd) # rs) ri =
     bindO (choose_scripts lib rec (pd, ri))
       (\<lambda>(pd, ri). bindO (choose_run lib rs ri) (\<lambda>(l, ri). Ret (running pd # l, ri)))"

section \<open>Properties\<close>

text \<open>C1: a request on a thread that is not exiting gives httpd the status of the first condition it
  fails, and then neither its body is read nor anything evaluated; otherwise the status of reading its
  parameters. In every case the thread is left clean for the next request: no request, no abort code,
  no page aborting, the content not marked as sent.\<close>

theorem SendContent_status:
  assumes "priv_r pd = Some rec" "choose_scripts lib rec (pd, ri) = Ret (pd1, ri1)" "\<not> thread_exit pd"
  shows "let pd2 = pd1\<lparr>allowed := allowed pd1 OR allowed_methods\<rparr> in
    (case find fst (refusals lib rec cwd) of
       Some (_, rv) \<Rightarrow> \<exists>cwd' log. Rivet_SendContent lib (pd, ri) cwd = Ret (Served (cleaned pd2, ri1) cwd' rv log)
     | None \<Rightarrow> (\<forall>st cwd' rv log. Rivet_SendContent lib (pd, ri) cwd = Ret (Served st cwd' rv log) \<longrightarrow>
         thread_clean (fst st)
         \<and> (\<exists>ar. parse_request (core (gen_scripts lib)) (parse_input lib rec pd2) = Ret ar \<and> rv = status ar)))
    \<and> thread_clean (cleaned pd2)"
proof -
  let ?pd2 = "pd1\<lparr>allowed := allowed pd1 OR allowed_methods\<rparr>"
  have exit: "\<not> thread_exit pd1" using choose_scripts_thread [OF assms(2)] assms(3) by auto
  show ?thesis
  proof (cases "find fst (refusals lib rec cwd)")
    case None
    have "thread_clean (fst st)
        \<and> (\<exists>ar. parse_request (core (gen_scripts lib)) (parse_input lib rec ?pd2) = Ret ar \<and> rv = status ar)"
      if r: "Rivet_SendContent lib (pd, ri) cwd = Ret (Served st cwd' rv log)" for st cwd' rv log
    proof
      show "thread_clean (fst st)" using r by (cases st) (auto dest: SendContent_clean)
      from r obtain st1 rv1 log1 where p: "process_request lib rec (?pd2, ri1) = Ret (st1, rv1, log1)"
        "sendcleanup lib st1 (fst (Rivet_chdir_file (chdir lib) (filename rec) cwd)) rv1 log1 = Served st cwd' rv log"
        by (auto simp: SendContent_read [OF assms(1,2) None] bindO_Ret_iff)
      have "rv = rv1" using p(2) by (cases st) (auto dest: sendcleanup_served)
      with process_request_status [OF p(1)]
      show "\<exists>ar. parse_request (core (gen_scripts lib)) (parse_input lib rec ?pd2) = Ret ar \<and> rv = status ar"
        by simp
    qed
    with None show ?thesis by (auto simp: Let_def cleaned_clean)
  next
    case (Some r)
    then show ?thesis
      using SendContent_refused [OF assms(1,2) exit, of cwd "fst r" "snd r"]
      by (auto simp: Let_def cleaned_clean split: prod.split)
  qed
qed


definition demo_gen :: "(nat, bytes) gen_lib" where
  "demo_gen = \<lparr> gen_scripts = demo_scripts, gen_conf = demo_conf_lib,
     gen_files = \<lparr> stat_size = (\<lambda>f. None), file_open = (\<lambda>f. False), file_bytes = (\<lambda>f n. None) \<rparr>,
     default_handler = ''handle'', chdir = (\<lambda>d c. Some d), meets_conditions = (\<lambda>r. 0),
     pool_created = True, flush_channel = (\<lambda>st. st), exit_handler = None \<rparr>"

lemma SendContent_status_witness:
  "let pd2 = demo_thread\<lparr>running := Some (scripts cold_interp), allowed := allowed demo_thread OR allowed_methods\<rparr> in
    (case find fst (refusals demo_gen (demo_request M_GET None) ''/'') of
       Some (_, rv) \<Rightarrow> \<exists>cwd' log. Rivet_SendContent demo_gen (demo_thread, cold_interp) ''/''
           = Ret (Served (cleaned pd2, cold_interp) cwd' rv log)
     | None \<Rightarrow> (\<forall>st cwd' rv log. Rivet_SendContent demo_gen (demo_thread, cold_interp) ''/'' = Ret (Served st cwd' rv log) \<longrightarrow>
         thread_clean (fst st)
         \<and> (\<exists>ar. parse_request (core (gen_scripts demo_gen)) (parse_input demo_gen (demo_request M_GET None) pd2) = Ret ar
              \<and> rv = status ar)))
    \<and> thread_clean (cleaned pd2)"
proof -
  have "choose_scripts demo_gen (demo_request M_GET None) (demo_thread, cold_interp)
      = Ret (demo_thread\<lparr>running := Some (scripts cold_interp)\<rparr>, cold_interp)"
    by (simp add: choose_scripts_def demo_request_def demo_thread_def)
  from SendContent_status [OF _ this, of "''/''"] show ?thesis
    by (simp add: demo_thread_def)
qed

definition demo_dir_request :: "bytes \<Rightarrow> request_rec" where
  "demo_dir_request dir = (demo_request M_GET None)\<lparr>per_dir_config :=
     Some (Some (Rivet_CreateDirConfig\<lparr>path := Some dir, rivet_before_script := Some dir\<rparr>))\<rparr>"

definition demo_dir_scripts :: "bytes \<Rightarrow> running_scripts" where
  "demo_dir_scripts dir = no_scripts\<lparr>request_processing := Some ''handle'',
     rivet_before_script_obj := Some (dir @ [LF])\<rparr>"


section \<open>Behaviours worth knowing\<close>

text \<open>The merged configuration of a directory is only made together with its scripts: the first request
  of a directory runs with it, the later ones with the configuration of the server.\<close>

lemma second_request_conf:
  assumes "per_dir_config rec = Some (Some rdc)" "path rdc = Some dir" "\<not> USER_CONF_UPDATED rdc"
    "choose_scripts lib rec (pd, ri) = Ret (pd1, ri1)" "per_dir_scripts ri (cstr dir) = None"
    "choose_scripts lib rec (pd1, ri1) = Ret (pd2, ri2)"
  shows "running_conf pd1 = Some (merged_conf (gen_conf lib) (module_config (r_server rec)) rdc)"
    "running_conf pd2 = Some (module_config (r_server rec))"
  using assms
  by (auto simp: choose_scripts_def dir_scripts_def user_scripts_def Let_def bindO_Ret_iff)

text \<open>A file in the root directory has an empty directory name, and a name that does not fit the buffer
  leaves the directory as it is without an error.\<close>

lemma chdir_root: "cd [] cwd = None \<Longrightarrow> snd (Rivet_chdir_file cd ''/x'' cwd) = - 1"
  by (simp add: Rivet_chdir_file_def Let_def HUGE_STRING_LEN_def)

lemma chdir_long:
  "before_last_slash (cstr f) = Some d \<Longrightarrow> 8191 \<le> length d \<Longrightarrow> Rivet_chdir_file cd f cwd = (cwd, 0)"
  by (simp add: Rivet_chdir_file_def Let_def HUGE_STRING_LEN_def)

end
