(* ===== verification/Rivet_Interps.thy ===== *)
theory Rivet_Interps
  imports Rivet_Generator
begin

unbundle bit_operations_syntax

text \<open>
  The interpreters of a child process or thread. src/src/mod_rivet_ng/mod_rivet.c numbers the virtual
  hosts (\<open>Rivet_ChildInit\<close>) and finds the bridge; worker_prefork_common.c makes the interpreters of the
  virtual hosts and runs the child scripts; rivet_prefork_mpm.c, rivet_worker_mpm.c and rivet_lazy_mpm.c
  keep the interpreters in an array or in one slot, reached through \<open>RIVET_PEEK_INTERP\<close> and
  \<open>RIVET_POKE_INTERP\<close>. The two databases implement one contract, \<open>interp_db\<close>.
\<close>

section \<open>The database of interpreters\<close>

text \<open>\<open>thread_interp\<close> of the jump table: with an interpreter it stores it, without it reads; \<open>None\<close> in
  the array is a NULL pointer.\<close>

definition WorkerBridge_Interp ::
    "rivet_thread_interp option list \<Rightarrow> rivet_server_conf \<Rightarrow> rivet_thread_interp option \<Rightarrow>
     (rivet_thread_interp option list \<times> rivet_thread_interp option) outcome" where
  "WorkerBridge_Interp interps conf ri =
     (if idx conf < 0 \<or> int (length interps) \<le> idx conf then Fault OutOfBounds
      else
        let interps = (if ri \<noteq> None then interps[nat (idx conf) := ri] else interps)
        in Ret (interps, interps ! nat (idx conf)))"

definition PreforkBridge_Interp ::
    "rivet_thread_interp option list \<Rightarrow> rivet_server_conf \<Rightarrow> rivet_thread_interp option \<Rightarrow>
     (rivet_thread_interp option list \<times> rivet_thread_interp option) outcome" where
  "PreforkBridge_Interp interps conf ri =
     (if idx conf < 0 \<or> int (length interps) \<le> idx conf then Fault OutOfBounds
      else
        let interps = (if ri \<noteq> None then interps[nat (idx conf) := ri] else interps)
        in Ret (interps, interps ! nat (idx conf)))"

definition LazyBridge_Interp ::
    "rivet_thread_interp option \<Rightarrow> rivet_server_conf \<Rightarrow> rivet_thread_interp option \<Rightarrow>
     (rivet_thread_interp option \<times> rivet_thread_interp option) outcome" where
  "LazyBridge_Interp slot conf ri =
     (let slot = (if ri \<noteq> None then ri else slot) in Ret (slot, slot))"

text \<open>The macro \<open>RIVET_PEEK_INTERP\<close> as a function to the interpreter, where reading succeeds.\<close>

definition peek :: "('db \<Rightarrow> rivet_server_conf \<Rightarrow> rivet_thread_interp option \<Rightarrow>
    ('db \<times> rivet_thread_interp option) outcome) \<Rightarrow> 'db \<Rightarrow> rivet_server_conf \<Rightarrow> rivet_thread_interp option" where
  "peek thread_interp db c = (case thread_interp db c None of Ret (_, x) \<Rightarrow> x | _ \<Rightarrow> None)"

text \<open>The contract the rest of the module uses: \<open>ok\<close> tells the configurations a database serves, \<open>slot\<close>
  which of them share a place.\<close>

locale interp_db =
  fixes thread_interp :: "'db \<Rightarrow> rivet_server_conf \<Rightarrow> rivet_thread_interp option \<Rightarrow>
      ('db \<times> rivet_thread_interp option) outcome"
    and ok :: "'db \<Rightarrow> rivet_server_conf \<Rightarrow> bool"
    and slot :: "rivet_server_conf \<Rightarrow> nat"
  assumes peek_total: "ok db c \<Longrightarrow> \<exists>x. thread_interp db c None = Ret (db, x)"
    and poke_peek: "ok db c \<Longrightarrow> \<exists>db'. thread_interp db c (Some ri) = Ret (db', Some ri)
      \<and> (\<forall>c'. ok db' c' = ok db c')
      \<and> (\<forall>c'. ok db c' \<longrightarrow> thread_interp db' c' None =
            (if slot c' = slot c then Ret (db', Some ri)
             else bindO (thread_interp db c' None) (\<lambda>(_, x). Ret (db', x))))"
begin

lemma peek_poke:
  assumes "ok db c"
  obtains db' where "thread_interp db c (Some ri) = Ret (db', Some ri)" "\<And>c'. ok db' c' = ok db c'"
    "\<And>c'. ok db c' \<Longrightarrow> peek thread_interp db' c' = (if slot c' = slot c then Some ri else peek thread_interp db c')"
proof -
  obtain db' where p: "thread_interp db c (Some ri) = Ret (db', Some ri)" "\<forall>c'. ok db' c' = ok db c'"
    "\<forall>c'. ok db c' \<longrightarrow> thread_interp db' c' None =
            (if slot c' = slot c then Ret (db', Some ri)
             else bindO (thread_interp db c' None) (\<lambda>(_, x). Ret (db', x)))"
    using poke_peek [OF assms] by blast
  have "peek thread_interp db' c' = (if slot c' = slot c then Some ri else peek thread_interp db c')" if c': "ok db c'" for c'
  proof -
    obtain x where "thread_interp db c' None = Ret (db, x)" using peek_total [OF c'] by blast
    with p(3) c' show ?thesis by (simp add: peek_def)
  qed
  with p show thesis using that by blast
qed

end

definition array_ok :: "rivet_thread_interp option list \<Rightarrow> rivet_server_conf \<Rightarrow> bool" where
  "array_ok interps conf \<longleftrightarrow> 0 \<le> idx conf \<and> idx conf < int (length interps)"

definition array_slot :: "rivet_server_conf \<Rightarrow> nat" where
  "array_slot conf = nat (idx conf)"

interpretation worker_db: interp_db WorkerBridge_Interp array_ok array_slot
  by standard (auto simp: WorkerBridge_Interp_def array_ok_def array_slot_def Let_def nth_list_update)

interpretation prefork_db: interp_db PreforkBridge_Interp array_ok array_slot
  by standard (auto simp: PreforkBridge_Interp_def array_ok_def array_slot_def Let_def nth_list_update)

interpretation lazy_db: interp_db LazyBridge_Interp "\<lambda>_ _. True" "\<lambda>_. 0"
  by standard (auto simp: LazyBridge_Interp_def Let_def)

section \<open>Numbering the virtual hosts\<close>

text \<open>The records of the servers are a store, and every server has the address of its record: servers
  without a section of their own share the record of the root server. \<open>Rivet_ChildInit\<close> gives them
  one each and numbers all of them.\<close>

fun number_servers :: "nat \<Rightarrow> nat \<Rightarrow> nat list \<Rightarrow> rivet_server_conf list \<Rightarrow> nat list \<times> rivet_server_conf list" where
  "number_servers root k [] store = ([], store)"
| "number_servers root k (myrsc # refs) store =
     (let (myrsc, store) =
            (if k \<noteq> 0 \<and> myrsc = root
             then (length store, store @ [Rivet_CopyConfig (store ! root) RIVET_NEW_CONF])
             else (myrsc, store));
          store = store[myrsc := (store ! myrsc)\<lparr>idx := int k\<rparr>];
          (refs, store) = number_servers root (k + 1) refs store
      in (myrsc # refs, store))"

definition Rivet_ChildInit :: "nat list \<Rightarrow> rivet_server_conf list \<Rightarrow> nat list \<times> rivet_server_conf list \<times> nat" where
  "Rivet_ChildInit refs store =
     (case number_servers (hd refs) 0 refs store of (refs', store') \<Rightarrow> (refs', store', length refs))"

text \<open>What the record of a server is before it gets its number.\<close>

definition server_record :: "nat \<Rightarrow> rivet_server_conf list \<Rightarrow> nat \<Rightarrow> rivet_server_conf" where
  "server_record root store r =
     (if r = root then Rivet_CopyConfig (store ! root) RIVET_NEW_CONF else store ! r)"

text \<open>The loop after the root server: a server with a record of its own is numbered in place, the others
  get new ones.\<close>

lemma number_servers_rest:
  assumes "0 < k" "root < length store" "\<forall>r \<in> set refs. r < length store"
    "distinct (filter (\<lambda>r. r \<noteq> root) refs)"
    "number_servers root k refs store = (refs', store')"
  shows "length refs' = length refs \<and> distinct refs' \<and> root \<notin> set refs' \<and> length store \<le> length store'
    \<and> (\<forall>r \<in> set refs'. r \<in> set refs \<or> length store \<le> r)
    \<and> (\<forall>i < length refs. refs' ! i < length store'
         \<and> store' ! (refs' ! i) = (server_record root store (refs ! i))\<lparr>idx := int (k + i)\<rparr>)
    \<and> (\<forall>a < length store. a \<notin> set refs' \<longrightarrow> store' ! a = store ! a)"
  using assms
proof (induction refs arbitrary: k store refs' store')
  case (Cons r refs)
  let ?a = "if r = root then length store else r"
  let ?st = "(if r = root then store @ [server_record root store root] else store)
      [?a := (server_record root store r)\<lparr>idx := int k\<rparr>]"
  obtain rs' where rs: "refs' = ?a # rs'" "number_servers root (k + 1) refs ?st = (rs', store')"
    using Cons.prems(1,5) by (auto simp: Let_def server_record_def split: prod.splits if_splits)
  have len: "length ?st = (if r = root then length store + 1 else length store)" by simp
  have pre: "root < length ?st" "\<forall>r \<in> set refs. r < length ?st" "distinct (filter (\<lambda>r. r \<noteq> root) refs)"
    using Cons.prems(2-4) by (auto simp: len split: if_splits)
  from Cons.IH [OF _ pre rs(2)]
  have IH: "length rs' = length refs" "distinct rs'" "root \<notin> set rs'" "length ?st \<le> length store'"
    "\<forall>r \<in> set rs'. r \<in> set refs \<or> length ?st \<le> r"
    "\<forall>i < length refs. rs' ! i < length store'
       \<and> store' ! (rs' ! i) = (server_record root ?st (refs ! i))\<lparr>idx := int (k + 1 + i)\<rparr>"
    "\<forall>a < length ?st. a \<notin> set rs' \<longrightarrow> store' ! a = ?st ! a"
    by simp_all
  have a: "?a < length ?st" "?a \<noteq> root" using Cons.prems(2,3) by (auto simp: len)
  have fresh: "?a \<notin> set rs'"
  proof
    assume m: "?a \<in> set rs'"
    then have "?a \<in> set refs" using IH(5) a(1) by fastforce
    with Cons.prems(3,4) show False by (auto split: if_splits)
  qed
  have st: "?st ! b = store ! b" if "b < length store" "b \<noteq> ?a" for b
    using that by (cases "r = root") (simp_all add: nth_append)
  have same: "server_record root ?st r' = server_record root store r'" if "r' \<in> set refs" for r'
  proof -
    have "r' < length store" "r' \<noteq> ?a \<or> r' = root" using that Cons.prems(3,4) by (auto split: if_splits)
    then show ?thesis
      using st [of root] st [of r'] a(2) Cons.prems(2) unfolding server_record_def by (metis (no_types))
  qed
  have head: "store' ! ?a = (server_record root store r)\<lparr>idx := int k\<rparr>"
    using IH(7) a fresh by (simp add: len split: if_splits)
  show ?case
    unfolding rs(1)
  proof (intro conjI allI impI ballI)
    show "length (?a # rs') = length (r # refs)" "distinct (?a # rs')" "root \<notin> set (?a # rs')"
      using IH(1-3) fresh a(2) by auto
    show "length store \<le> length store'" using IH(4) by (simp add: len split: if_splits)
    fix b assume "b \<in> set (?a # rs')"
    then show "b \<in> set (r # refs) \<or> length store \<le> b" using IH(5) by (auto simp: len split: if_splits)
  next
    fix i assume i: "i < length (r # refs)"
    show "(?a # rs') ! i < length store'" "store' ! ((?a # rs') ! i)
        = (server_record root store ((r # refs) ! i))\<lparr>idx := int (k + i)\<rparr>"
      using i head IH(4,6) a(1) same by (cases i; auto)+
  next
    fix b assume "b < length store" "b \<notin> set (?a # rs')"
    then show "store' ! b = store ! b" using IH(7) st [of b] by (auto simp: len)
  qed
qed auto

lemma ChildInit_numbers:
  assumes "refs = root # rest" "\<forall>r \<in> set refs. r < length store" "distinct (filter (\<lambda>r. r \<noteq> root) rest)"
    "Rivet_ChildInit refs store = (refs', store', n)"
  shows "n = length refs \<and> length refs' = n \<and> distinct refs'
    \<and> (\<forall>k < n. refs' ! k < length store' \<and> store' ! (refs' ! k)
         = (if k = 0 then store ! root else server_record root store (refs ! k))\<lparr>idx := int k\<rparr>)"
proof -
  let ?st = "store[root := (store ! root)\<lparr>idx := 0\<rparr>]"
  obtain rs' where rs: "number_servers root 1 rest ?st = (rs', store')" "refs' = root # rs'" "n = length refs"
    using assms(4) by (auto simp: assms(1) Rivet_ChildInit_def Let_def split: prod.splits)
  have root: "root < length store" using assms(1,2) by simp
  have "\<forall>r \<in> set rest. r < length ?st" "root < length ?st" using assms(1,2) by auto
  note R = number_servers_rest [OF _ this(2,1) assms(3) rs(1), simplified]
  have "store' ! root = (store ! root)\<lparr>idx := 0\<rparr>" using R root by auto
  moreover have "(server_record root ?st r)\<lparr>idx := j\<rparr> = (server_record root store r)\<lparr>idx := j\<rparr>" for r j
    using root by (cases "r = root") (simp_all add: server_record_def Rivet_CopyConfig_def)
  ultimately show ?thesis
    using R root unfolding rs(2,3) assms(1) by (auto simp: nth_Cons split: nat.split)
qed

section \<open>The state of a child process or thread\<close>

text \<open>\<open>servers\<close> is the chain of virtual hosts, the root server first; \<open>tcl_count\<close> and \<open>chan_count\<close> number
  the Tcl interpreters and channels made so far; \<open>interp_server\<close> is the server record in the globals
  of a Tcl interpreter; \<open>evals\<close> lists the scripts evaluated, each with its interpreter.\<close>

record child =
  servers :: "server_rec list"
  interps :: "rivet_thread_interp option list"
  pdata :: rivet_thread_private
  thread_channel :: nat
  tcl_count :: nat
  chan_count :: nat
  interp_server :: "nat \<Rightarrow> server_rec option"
  evals :: "(nat \<times> bytes) list"

text \<open>Parameters: the files, the default request handler, httpd's limit of requests, whether memory
  pools can be made and the Rivet package be loaded, the evaluation of a script outside a request,
  which can change the private data of the thread and tells if it succeeded, and whether the child
  script of a virtual host (initialization or exit) is another than the one of the root server, a
  comparison of pointers in the code.\<close>

record init_lib =
  init_files :: file_lib
  init_handler :: bytes
  max_requests :: int
  init_pool :: bool
  package_loads :: bool
  eval_child :: "nat \<Rightarrow> bytes \<Rightarrow> rivet_thread_private \<Rightarrow> rivet_thread_private \<times> bool"
  other_script :: "bool \<Rightarrow> nat \<Rightarrow> bool"

definition Rivet_DuplicateVHostInterp :: "rivet_thread_interp \<Rightarrow> rivet_thread_interp" where
  "Rivet_DuplicateVHostInterp source =
     (let ri = (zeroed_interp (interp source))\<lparr>channel := channel source,
            cache_free := cache_free source, cache_size := cache_size source\<rparr>;
          ri = (if cache_size ri \<noteq> 0 then RivetCache_Create ri else ri)
      in ri\<lparr>scripts := no_scripts, per_dir_scripts := Map.empty, flags := flags source\<rparr>)"

text \<open>\<open>Rivet_PerInterpInit\<close> ends the process when the Rivet package cannot be loaded, which is an error
  without a message here.\<close>

definition Rivet_PerInterpInit ::
    "init_lib \<Rightarrow> server_rec \<Rightarrow> rivet_thread_interp \<Rightarrow> child \<Rightarrow> (rivet_thread_interp \<times> child) outcome" where
  "Rivet_PerInterpInit lib s ri ch =
     (let ch = ch\<lparr>interp_server := (interp_server ch)(interp ri \<mapsto> s),
            pdata := (pdata ch)\<lparr>running_conf := Some (module_config s)\<rparr>\<rparr>
      in if \<not> package_loads lib then Fail LibError
         else Ret (ri\<lparr>flags := flags ri OR RIVET_INTERP_INITIALIZED\<rparr>, ch))"

text \<open>The interpreter of the virtual host number \<open>k\<close>.\<close>

definition vhost_interp ::
    "init_lib \<Rightarrow> mod_rivet_globals \<Rightarrow> nat \<Rightarrow> rivet_server_conf \<Rightarrow> rivet_thread_interp \<Rightarrow> child \<Rightarrow>
     (rivet_thread_interp \<times> child) outcome" where
  "vhost_interp lib g k myrsc root_interp ch =
     (if k = 0 then
        (case channel root_interp of None \<Rightarrow> Fault NullDeref | Some _ \<Rightarrow> Ret (root_interp, ch))
      else if separate_virtual_interps g \<noteq> 0 then
        (case Rivet_NewVHostInterp (init_pool lib) (max_requests lib) (tcl_count ch) (default_cache_size myrsc) of
           None \<Rightarrow> Fault NullDeref
         | Some ri \<Rightarrow>
             let ch = ch\<lparr>tcl_count := tcl_count ch + 1\<rparr> in
             if separate_channels g \<noteq> 0 then
               Ret (ri\<lparr>channel := Some (chan_count ch)\<rparr>, ch\<lparr>chan_count := chan_count ch + 1\<rparr>)
             else Ret (ri\<lparr>channel := Some (thread_channel ch)\<rparr>, ch))
      else Ret (Rivet_DuplicateVHostInterp root_interp, ch))"

text \<open>\<open>RIVET_POKE_INTERP\<close>: the database holds the interpreter object by reference, so a later change of
  the object is stored again.\<close>

definition poke_interp :: "rivet_server_conf \<Rightarrow> rivet_thread_interp \<Rightarrow> child \<Rightarrow> child outcome" where
  "poke_interp conf ri ch =
     bindO (WorkerBridge_Interp (interps ch) conf (Some ri)) (\<lambda>(db, _). Ret (ch\<lparr>interps := db\<rparr>))"

text \<open>One turn of the loop over the hosts: the scripts, storing the interpreter, its initialization,
  the name of the server.\<close>

definition vhost_step ::
    "init_lib \<Rightarrow> mod_rivet_globals \<Rightarrow> nat \<Rightarrow> server_rec \<Rightarrow> rivet_thread_interp \<Rightarrow> child \<Rightarrow>
     (rivet_thread_interp \<times> child) outcome" where
  "vhost_step lib g k vhost root_interp ch =
     (let myrsc = module_config vhost in
      bindO (vhost_interp lib g k myrsc root_interp ch)
        (\<lambda>(ri, ch). bindO (Rivet_RunningScripts (init_files lib) (init_handler lib) myrsc)
          (\<lambda>scr. let ri = ri\<lparr>scripts := scr\<rparr> in
             bindO (poke_interp myrsc ri ch)
               (\<lambda>ch. bindO (if flags ri AND RIVET_INTERP_INITIALIZED = 0
                             then bindO (Rivet_PerInterpInit lib vhost ri ch)
                                    (\<lambda>(ri, ch). bindO (poke_interp myrsc ri ch) (\<lambda>ch. Ret (ri, ch)))
                             else Ret (ri, ch))
                 (\<lambda>(ri, ch). Ret (ri, ch\<lparr>servers := (servers ch)[k := vhost\<lparr>module_config :=
                      myrsc\<lparr>server_name := server_hostname vhost\<rparr>\<rparr>]\<rparr>))))))"

fun vhost_loop ::
    "init_lib \<Rightarrow> mod_rivet_globals \<Rightarrow> nat \<Rightarrow> server_rec list \<Rightarrow> rivet_thread_interp \<Rightarrow> child \<Rightarrow> child outcome" where
  "vhost_loop lib g k [] root_interp ch = Ret ch"
| "vhost_loop lib g k (vhost # rest) root_interp ch =
     bindO (vhost_step lib g k vhost root_interp ch)
       (\<lambda>(ri, ch). vhost_loop lib g (k + 1) rest (if k = 0 then ri else root_interp) ch)"

section \<open>The child scripts\<close>

definition child_script :: "bool \<Rightarrow> rivet_server_conf \<Rightarrow> bytes option" where
  "child_script init conf = (if init then rivet_child_init_script conf else rivet_child_exit_script conf)"

definition run_child_script ::
    "init_lib \<Rightarrow> mod_rivet_globals \<Rightarrow> bool \<Rightarrow> nat \<Rightarrow> server_rec \<Rightarrow> child \<Rightarrow> child outcome" where
  "run_child_script lib g init k vhost ch =
     (let myrsc = module_config vhost in
      bindO (WorkerBridge_Interp (interps ch) myrsc None)
        (\<lambda>(_, rivet_interp).
          (case child_script init myrsc of
             None \<Rightarrow> Ret ch
           | Some function \<Rightarrow>
               if k = 0 \<or> separate_virtual_interps g \<noteq> 0 \<or> other_script lib init k then
                 (case rivet_interp of
                    None \<Rightarrow> Fault NullDeref
                  | Some ri \<Rightarrow>
                      if interp_server ch (interp ri) = None then Fault NullDeref
                      else
                        let (pd, tcl_ok) = eval_child lib (interp ri) (cstr function)
                                         ((pdata ch)\<lparr>running_conf := Some myrsc\<rparr>)
                        in Ret (ch\<lparr>interp_server := (interp_server ch)(interp ri \<mapsto> vhost), pdata := pd,
                                   evals := evals ch @ [(interp ri, cstr function)]\<rparr>))
               else Ret ch)))"

fun child_scripts_loop ::
    "init_lib \<Rightarrow> mod_rivet_globals \<Rightarrow> bool \<Rightarrow> nat \<Rightarrow> server_rec list \<Rightarrow> child \<Rightarrow> child outcome" where
  "child_scripts_loop lib g init k [] ch = Ret ch"
| "child_scripts_loop lib g init k (vhost # rest) ch =
     bindO (run_child_script lib g init k vhost ch) (child_scripts_loop lib g init (k + 1) rest)"

definition Rivet_RunChildScripts :: "init_lib \<Rightarrow> mod_rivet_globals \<Rightarrow> bool \<Rightarrow> child \<Rightarrow> child outcome" where
  "Rivet_RunChildScripts lib g init ch = child_scripts_loop lib g init 0 (servers ch) ch"

section \<open>Setting up a thread\<close>

text \<open>\<open>MPM_MasterInterp\<close> of the worker bridge makes the root interpreter, the one of the prefork bridge
  takes the interpreter of the server and seeds its random numbers.\<close>

definition worker_MasterInterp :: "init_lib \<Rightarrow> server_rec \<Rightarrow> child \<Rightarrow> (rivet_thread_interp \<times> child) outcome" where
  "worker_MasterInterp lib s ch =
     (case Rivet_NewVHostInterp (init_pool lib) (max_requests lib) (tcl_count ch)
             (default_cache_size (module_config s)) of
        None \<Rightarrow> Fault NullDeref
      | Some ri \<Rightarrow>
          Rivet_PerInterpInit lib s (ri\<lparr>channel := Some (thread_channel ch)\<rparr>) (ch\<lparr>tcl_count := tcl_count ch + 1\<rparr>))"

definition prefork_MasterInterp ::
    "init_lib \<Rightarrow> rivet_thread_interp \<Rightarrow> child \<Rightarrow> (rivet_thread_interp \<times> child) outcome" where
  "prefork_MasterInterp lib server_interp ch =
     (let ri = server_interp\<lparr>channel := Some (thread_channel ch)\<rparr>;
          (pd, tcl_ok) = eval_child lib (interp ri) ''expr {srand([clock clicks] + [pid])}'' (pdata ch)
      in Ret (ri, ch\<lparr>pdata := pd\<rparr>))"

text \<open>The cache of the root interpreter.\<close>

definition root_cache :: "init_lib \<Rightarrow> rivet_server_conf \<Rightarrow> rivet_thread_interp \<Rightarrow> rivet_thread_interp" where
  "root_cache lib conf ri =
     RivetCache_Create
       (if default_cache_size conf > 0 then ri\<lparr>cache_size := default_cache_size conf\<rparr>
        else if default_cache_size conf < 0 then ri\<lparr>cache_size := RivetCache_DefaultSize (max_requests lib)\<rparr>
        else ri)"

definition global_init :: "init_lib \<Rightarrow> rivet_server_conf \<Rightarrow> rivet_thread_interp \<Rightarrow> child \<Rightarrow> child" where
  "global_init lib conf ri ch =
     (case rivet_global_init_script conf of
        None \<Rightarrow> ch
      | Some script \<Rightarrow>
          (case eval_child lib (interp ri) (cstr script) (pdata ch) of
             (pd, tcl_ok) \<Rightarrow> ch\<lparr>pdata := pd, evals := evals ch @ [(interp ri, cstr script)]\<rparr>))"

definition Rivet_VirtualHostsInterps ::
    "init_lib \<Rightarrow> mod_rivet_globals \<Rightarrow> (child \<Rightarrow> (rivet_thread_interp \<times> child) outcome) \<Rightarrow> child \<Rightarrow> child outcome" where
  "Rivet_VirtualHostsInterps lib g MPM_MasterInterp ch =
     (case servers ch of
        [] \<Rightarrow> Fault NullDeref
      | root_server # _ \<Rightarrow>
          let conf = module_config root_server in
          bindO (MPM_MasterInterp ch)
            (\<lambda>(root_interp, ch).
               let root_interp = root_cache lib conf root_interp in
               bindO (vhost_loop lib g 0 (servers ch) root_interp (global_init lib conf root_interp ch))
                 (Rivet_RunChildScripts lib g True)))"

section \<open>The interpreters of the hosts\<close>

lemma poke_array:
  assumes "idx conf = int k" "k < length (interps ch)"
  shows "poke_interp conf ri ch = Ret (ch\<lparr>interps := (interps ch)[k := Some ri]\<rparr>)"
  using assms by (simp add: poke_interp_def WorkerBridge_Interp_def Let_def)

lemma peek_array:
  assumes "idx conf = int k" "k < length db"
  shows "peek WorkerBridge_Interp db conf = db ! k"
  using assms by (simp add: peek_def WorkerBridge_Interp_def Let_def)

lemma initialized_flag: "(x OR RIVET_INTERP_INITIALIZED) AND RIVET_INTERP_INITIALIZED \<noteq> 0"
  by (simp add: RIVET_INTERP_INITIALIZED_def bit.conj_disj_distrib2)

text \<open>What every host is to get: its own scripts, an interpreter that is initialized, a cache that is
  empty and in order unless it has no size, and a Tcl interpreter of its own exactly when the hosts
  are to be separate; \<open>first\<close> is the number of the first interpreter made for a host.\<close>

definition host_ready ::
    "init_lib \<Rightarrow> mod_rivet_globals \<Rightarrow> nat \<Rightarrow> nat \<Rightarrow> nat \<Rightarrow> rivet_server_conf \<Rightarrow> rivet_thread_interp \<Rightarrow> bool" where
  "host_ready lib g root_tcl first k conf ri \<longleftrightarrow>
     Rivet_RunningScripts (init_files lib) (init_handler lib) conf = Ret (scripts ri)
     \<and> flags ri AND RIVET_INTERP_INITIALIZED \<noteq> 0
     \<and> interp ri = (if k = 0 \<or> separate_virtual_interps g = 0 then root_tcl else first + k - 1)
     \<and> channel ri \<noteq> None
     \<and> (cache_size ri \<noteq> 0 \<longrightarrow> cache_rep ri [] Map.empty)"

lemma cache_rep_scripts [simp]:
  "cache_rep (ri\<lparr>scripts := s\<rparr>) keys table = cache_rep ri keys table"
  "cache_rep (ri\<lparr>flags := f\<rparr>) keys table = cache_rep ri keys table"
  "cache_rep (ri\<lparr>channel := c\<rparr>) keys table = cache_rep ri keys table"
  "cache_rep (ri\<lparr>per_dir_scripts := d\<rparr>) keys table = cache_rep ri keys table"
  by (simp_all add: cache_rep_def)

lemma duplicate_cache:
  "0 \<le> cache_free src \<Longrightarrow> cache_free src = cache_size src \<Longrightarrow> cache_size src \<noteq> 0 \<Longrightarrow>
   cache_rep (Rivet_DuplicateVHostInterp src) [] Map.empty"
  by (simp add: Rivet_DuplicateVHostInterp_def Let_def cache_rep_def RivetCache_Create_def zeroed_interp_def)

lemma duplicate_fields [simp]:
  "interp (Rivet_DuplicateVHostInterp src) = interp src" "channel (Rivet_DuplicateVHostInterp src) = channel src"
  "flags (Rivet_DuplicateVHostInterp src) = flags src"
  "cache_size (Rivet_DuplicateVHostInterp src) = cache_size src"
  by (simp_all add: Rivet_DuplicateVHostInterp_def Let_def zeroed_interp_def RivetCache_Create_def)

lemma NewVHostInterp_fields:
  assumes "Rivet_NewVHostInterp True m i sz = Some ri"
  shows "interp ri = i" "flags ri = 0" "cache_size ri \<noteq> 0 \<Longrightarrow> cache_rep ri [] Map.empty"
    "cache_free ri = cache_size ri" "0 \<le> cache_free ri"
proof -
  have m: "0 < RivetCache_DefaultSize m" using DefaultSize_minimum [of m] by linarith
  define size where "size = (if sz < 0 then RivetCache_DefaultSize m else if sz > 0 then sz else 0)"
  let ?z = "(zeroed_interp i)\<lparr>cache_size := size, cache_free := size\<rparr>"
  have ri: "ri = (if size \<noteq> 0 then RivetCache_Create ?z else ?z)\<lparr>flags := 0, scripts := no_scripts, per_dir_scripts := Map.empty\<rparr>"
    using assms unfolding Rivet_NewVHostInterp_def Let_def size_def
    by (simp add: zeroed_interp_def split del: if_split cong: if_cong)
  have size: "0 \<le> size" using m by (simp add: size_def)
  show "interp ri = i" "flags ri = 0" "cache_free ri = cache_size ri" "0 \<le> cache_free ri"
    using size by (simp_all add: ri RivetCache_Create_def zeroed_interp_def)
  show "cache_size ri \<noteq> 0 \<Longrightarrow> cache_rep ri [] Map.empty"
    using size by (simp add: ri cache_rep_def RivetCache_Create_def zeroed_interp_def split: if_splits)
qed

text \<open>The interpreter chosen for a host, before its scripts are set.\<close>

lemma vhost_interp_result:
  assumes "init_pool lib" "channel root \<noteq> None" "cache_free root = cache_size root" "0 \<le> cache_free root"
    "k = 0 \<Longrightarrow> cache_rep root [] Map.empty"
  obtains ri ch' where "vhost_interp lib g k conf root ch = Ret (ri, ch')" "channel ri \<noteq> None"
    "cache_size ri \<noteq> 0 \<Longrightarrow> cache_rep ri [] Map.empty"
    "interp ri = (if k = 0 \<or> separate_virtual_interps g = 0 then interp root else tcl_count ch)"
    "flags ri = (if k = 0 \<or> separate_virtual_interps g = 0 then flags root else 0)"
    "tcl_count ch' = tcl_count ch + (if k = 0 \<or> separate_virtual_interps g = 0 then 0 else 1)"
    "interps ch' = interps ch" "servers ch' = servers ch" "interp_server ch' = interp_server ch" "evals ch' = evals ch"
    "k = 0 \<Longrightarrow> ri = root"
proof (cases "k \<noteq> 0 \<and> separate_virtual_interps g \<noteq> 0")
  case True
  obtain ri where "Rivet_NewVHostInterp True (max_requests lib) (tcl_count ch) (default_cache_size conf) = Some ri"
    by (simp add: Rivet_NewVHostInterp_def Let_def)
  note n = this NewVHostInterp_fields [OF this]
  show thesis
    using True assms(1) n that
    by (cases "separate_channels g = 0") (simp_all add: vhost_interp_def Let_def)
next
  case False
  then show thesis
    using assms(2-5) duplicate_cache [of root] that [of root ch] that [of "Rivet_DuplicateVHostInterp root" ch]
    by (cases "k = 0") (auto simp: vhost_interp_def)
qed

text \<open>What the loop needs of the root interpreter.\<close>

definition root_ok :: "child \<Rightarrow> nat \<Rightarrow> rivet_thread_interp \<Rightarrow> bool" where
  "root_ok ch k root \<longleftrightarrow> channel root \<noteq> None \<and> cache_free root = cache_size root \<and> 0 \<le> cache_free root
     \<and> (k = 0 \<longrightarrow> cache_rep root [] Map.empty) \<and> (k \<noteq> 0 \<longrightarrow> flags root AND RIVET_INTERP_INITIALIZED \<noteq> 0)
     \<and> (flags root AND RIVET_INTERP_INITIALIZED \<noteq> 0 \<longrightarrow> interp_server ch (interp root) \<noteq> None)"

definition named_server :: "server_rec \<Rightarrow> server_rec" where
  "named_server s = s\<lparr>module_config := (module_config s)\<lparr>server_name := server_hostname s\<rparr>\<rparr>"

lemma vhost_step_result:
  assumes lib: "init_pool lib" "package_loads lib" and root: "root_ok ch k root"
    and scr: "Rivet_RunningScripts (init_files lib) (init_handler lib) (module_config vhost) = Ret scr"
    and k: "idx (module_config vhost) = int k" "k < length (interps ch)"
    and first: "k \<noteq> 0 \<Longrightarrow> separate_virtual_interps g \<noteq> 0 \<Longrightarrow> tcl_count ch = first + k - 1"
  obtains ri ch' where "vhost_step lib g k vhost root ch = Ret (ri, ch')"
    "host_ready lib g (interp root) first k (module_config vhost) ri" "interps ch' = (interps ch)[k := Some ri]"
    "tcl_count ch' = tcl_count ch + (if k = 0 \<or> separate_virtual_interps g = 0 then 0 else 1)"
    "servers ch' = (servers ch)[k := named_server vhost]"
    "\<And>i. interp_server ch i \<noteq> None \<Longrightarrow> interp_server ch' i \<noteq> None"
    "interp_server ch' (interp ri) \<noteq> None" "k = 0 \<Longrightarrow> root_ok ch' 1 ri \<and> interp ri = interp root"
    "evals ch' = evals ch"
proof -
  from root have r: "channel root \<noteq> None" "cache_free root = cache_size root" "0 \<le> cache_free root"
    "k = 0 \<Longrightarrow> cache_rep root [] Map.empty" "k \<noteq> 0 \<Longrightarrow> flags root AND RIVET_INTERP_INITIALIZED \<noteq> 0"
    "flags root AND RIVET_INTERP_INITIALIZED \<noteq> 0 \<Longrightarrow> interp_server ch (interp root) \<noteq> None"
    by (auto simp: root_ok_def)
  show thesis
  proof (rule vhost_interp_result [OF lib(1) r(1-4), of k g "module_config vhost" ch])
    fix ri ch1
    assume v: "vhost_interp lib g k (module_config vhost) root ch = Ret (ri, ch1)" "channel ri \<noteq> None"
      "cache_size ri \<noteq> 0 \<Longrightarrow> cache_rep ri [] Map.empty"
      "interp ri = (if k = 0 \<or> separate_virtual_interps g = 0 then interp root else tcl_count ch)"
      "flags ri = (if k = 0 \<or> separate_virtual_interps g = 0 then flags root else 0)"
      "tcl_count ch1 = tcl_count ch + (if k = 0 \<or> separate_virtual_interps g = 0 then 0 else 1)"
      "interps ch1 = interps ch" "servers ch1 = servers ch" "interp_server ch1 = interp_server ch" "evals ch1 = evals ch"
      "k = 0 \<Longrightarrow> ri = root"
    let ?ri = "ri\<lparr>scripts := scr\<rparr>"
    note poke = poke_array [OF k(1)]
    show thesis
    proof (cases "flags ri AND RIVET_INTERP_INITIALIZED = 0")
      case True
      let ?ri' = "?ri\<lparr>flags := flags ri OR RIVET_INTERP_INITIALIZED\<rparr>"
      have s: "vhost_step lib g k vhost root ch = Ret (?ri', ch1\<lparr>interps := (interps ch)[k := Some ?ri'],
          interp_server := (interp_server ch)(interp ri \<mapsto> vhost),
          pdata := (pdata ch1)\<lparr>running_conf := Some (module_config vhost)\<rparr>,
          servers := (servers ch)[k := named_server vhost]\<rparr>)"
        using True k(2) lib(2) v(7-9)
        by (simp add: vhost_step_def v(1) scr poke Rivet_PerInterpInit_def Let_def named_server_def)
      show thesis
        by (rule that [OF s]) (use v r first scr initialized_flag in \<open>auto simp: host_ready_def root_ok_def\<close>)
    next
      case False
      have s: "vhost_step lib g k vhost root ch = Ret (?ri, ch1\<lparr>interps := (interps ch)[k := Some ?ri],
          servers := (servers ch)[k := named_server vhost]\<rparr>)"
        using False k(2) v(7,8) by (simp add: vhost_step_def v(1) scr poke Let_def named_server_def)
      show thesis
        by (rule that [OF s]) (use False v r first scr in \<open>auto simp: host_ready_def root_ok_def split: if_splits\<close>)
    qed
  qed
qed

lemma vhost_loop_result:
  assumes lib: "init_pool lib" "package_loads lib"
    and "root_ok ch k root" "interp root = rt" "k + length rest \<le> length (interps ch)"
    and "\<forall>i < length rest. idx (module_config (rest ! i)) = int (k + i)
      \<and> (\<exists>scr. Rivet_RunningScripts (init_files lib) (init_handler lib) (module_config (rest ! i)) = Ret scr)"
    and "separate_virtual_interps g \<noteq> 0 \<Longrightarrow> tcl_count ch = (if k = 0 then first else first + k - 1)"
  shows "\<exists>ch'. vhost_loop lib g k rest root ch = Ret ch' \<and> length (interps ch') = length (interps ch)
    \<and> evals ch' = evals ch
    \<and> (\<forall>j < k. interps ch' ! j = interps ch ! j)
    \<and> (\<forall>i. interp_server ch i \<noteq> None \<longrightarrow> interp_server ch' i \<noteq> None)
    \<and> (\<forall>i < length rest. \<exists>ri. interps ch' ! (k + i) = Some ri
         \<and> host_ready lib g rt first (k + i) (module_config (rest ! i)) ri \<and> interp_server ch' (interp ri) \<noteq> None)
    \<and> (length (servers ch) = k + length rest \<longrightarrow> servers ch' = take k (servers ch) @ map named_server rest)"
  using assms(3-7)
proof (induction rest arbitrary: k root ch)
  case Nil
  then show ?case by simp
next
  case (Cons vhost rest)
  from Cons.prems(4) obtain scr where v: "idx (module_config vhost) = int k"
    "Rivet_RunningScripts (init_files lib) (init_handler lib) (module_config vhost) = Ret scr" by force
  from Cons.prems(3) have k: "k < length (interps ch)" by simp
  have first: "k \<noteq> 0 \<Longrightarrow> separate_virtual_interps g \<noteq> 0 \<Longrightarrow> tcl_count ch = first + k - 1"
    using Cons.prems(5) by simp
  obtain ri ch1 where s: "vhost_step lib g k vhost root ch = Ret (ri, ch1)"
    "host_ready lib g (interp root) first k (module_config vhost) ri" "interps ch1 = (interps ch)[k := Some ri]"
    "tcl_count ch1 = tcl_count ch + (if k = 0 \<or> separate_virtual_interps g = 0 then 0 else 1)"
    "servers ch1 = (servers ch)[k := named_server vhost]"
    "\<And>i. interp_server ch i \<noteq> None \<Longrightarrow> interp_server ch1 i \<noteq> None"
    "interp_server ch1 (interp ri) \<noteq> None" "k = 0 \<Longrightarrow> root_ok ch1 1 ri \<and> interp ri = interp root"
    "evals ch1 = evals ch"
    using vhost_step_result [OF lib Cons.prems(1) v(2,1) k first] by (metis (lifting))
  let ?root = "if k = 0 then ri else root"
  have r: "root_ok ch1 (k + 1) ?root" "interp ?root = rt"
    using s(6,8) Cons.prems(1,2) by (auto simp: root_ok_def)
  have t: "separate_virtual_interps g \<noteq> 0 \<Longrightarrow> tcl_count ch1 = (if k + 1 = 0 then first else first + (k + 1) - 1)"
    using s(4) Cons.prems(5) by auto
  have l: "k + 1 + length rest \<le> length (interps ch1)" using Cons.prems(3) s(3) by simp
  have p: "\<forall>i < length rest. idx (module_config (rest ! i)) = int (k + 1 + i)
      \<and> (\<exists>scr. Rivet_RunningScripts (init_files lib) (init_handler lib) (module_config (rest ! i)) = Ret scr)"
    using Cons.prems(4) by force
  from Cons.IH [OF r l p t] obtain ch' where c: "vhost_loop lib g (k + 1) rest ?root ch1 = Ret ch'"
    "length (interps ch') = length (interps ch1)" "evals ch' = evals ch1" "\<forall>j < k + 1. interps ch' ! j = interps ch1 ! j"
    "\<forall>i. interp_server ch1 i \<noteq> None \<longrightarrow> interp_server ch' i \<noteq> None"
    "\<forall>i < length rest. \<exists>ri. interps ch' ! (k + 1 + i) = Some ri
         \<and> host_ready lib g rt first (k + 1 + i) (module_config (rest ! i)) ri \<and> interp_server ch' (interp ri) \<noteq> None"
    "length (servers ch1) = k + 1 + length rest \<longrightarrow> servers ch' = take (k + 1) (servers ch1) @ map named_server rest"
    by blast
  have "interps ch' ! k = Some ri" using c(4) s(3) k by simp
  then have "\<forall>i < length (vhost # rest). \<exists>ri. interps ch' ! (k + i) = Some ri
      \<and> host_ready lib g rt first (k + i) (module_config ((vhost # rest) ! i)) ri \<and> interp_server ch' (interp ri) \<noteq> None"
    using s(2,7) c(5,6) Cons.prems(2) by (auto simp: less_Suc_eq_0_disj)
  moreover have "length (servers ch) = k + length (vhost # rest) \<longrightarrow>
      servers ch' = take k (servers ch) @ map named_server (vhost # rest)"
    using c(7) s(5) by (simp add: take_Suc_conv_app_nth)
  ultimately show ?case using c(1-5) s(1,3,6,9) by auto
qed

text \<open>The scripts run at the start or end of a thread, each with the Tcl interpreter of its host.\<close>

fun scripts_to_run ::
    "init_lib \<Rightarrow> mod_rivet_globals \<Rightarrow> bool \<Rightarrow> nat \<Rightarrow> server_rec list \<Rightarrow> (nat \<Rightarrow> nat) \<Rightarrow> (nat \<times> bytes) list" where
  "scripts_to_run lib g init k [] tcl = []"
| "scripts_to_run lib g init k (vhost # rest) tcl =
     (case child_script init (module_config vhost) of
        None \<Rightarrow> []
      | Some function \<Rightarrow>
          if k = 0 \<or> separate_virtual_interps g \<noteq> 0 \<or> other_script lib init k then [(tcl k, cstr function)] else [])
     @ scripts_to_run lib g init (k + 1) rest tcl"

lemma child_scripts_result:
  assumes "k + length rest \<le> length (interps ch)"
    "\<forall>i < length rest. idx (module_config (rest ! i)) = int (k + i)
      \<and> (\<exists>ri. interps ch ! (k + i) = Some ri \<and> interp ri = tcl (k + i) \<and> interp_server ch (interp ri) \<noteq> None)"
  shows "\<exists>ch'. child_scripts_loop lib g init k rest ch = Ret ch' \<and> interps ch' = interps ch \<and> servers ch' = servers ch
    \<and> evals ch' = evals ch @ scripts_to_run lib g init k rest tcl"
  using assms
proof (induction rest arbitrary: k ch)
  case (Cons vhost rest)
  from Cons.prems(2) obtain ri where v: "idx (module_config vhost) = int k" "interps ch ! k = Some ri"
    "interp ri = tcl k" "interp_server ch (interp ri) \<noteq> None" by force
  have peek: "WorkerBridge_Interp (interps ch) (module_config vhost) None = Ret (interps ch, Some ri)"
    using v(1,2) Cons.prems(1) by (simp add: WorkerBridge_Interp_def Let_def)
  obtain ch1 where c: "run_child_script lib g init k vhost ch = Ret ch1" "interps ch1 = interps ch"
    "servers ch1 = servers ch" "\<And>i. interp_server ch i \<noteq> None \<Longrightarrow> interp_server ch1 i \<noteq> None"
    "evals ch1 = evals ch @ scripts_to_run lib g init k [vhost] tcl"
  proof (cases "child_script init (module_config vhost)")
    case None
    then show thesis using that [of ch] peek by (simp add: run_child_script_def)
  next
    case (Some f)
    then show thesis
      using that peek v(3,4)
      by (cases "k = 0 \<or> separate_virtual_interps g \<noteq> 0 \<or> other_script lib init k")
        (simp_all add: run_child_script_def Let_def split_beta)
  qed
  have "k + 1 + length rest \<le> length (interps ch1)" using Cons.prems(1) c(2) by simp
  moreover have "\<forall>i < length rest. idx (module_config (rest ! i)) = int (k + 1 + i)
      \<and> (\<exists>ri. interps ch1 ! (k + 1 + i) = Some ri \<and> interp ri = tcl (k + 1 + i) \<and> interp_server ch1 (interp ri) \<noteq> None)"
    using Cons.prems(2) c(2,4) by force
  ultimately obtain ch' where "child_scripts_loop lib g init (k + 1) rest ch1 = Ret ch'" "interps ch' = interps ch1"
    "servers ch' = servers ch1" "evals ch' = evals ch1 @ scripts_to_run lib g init (k + 1) rest tcl"
    using Cons.IH [of "k + 1" ch1] by blast
  with c show ?case by simp
qed simp

text \<open>The root interpreter of a worker thread.\<close>

lemma worker_root:
  assumes "init_pool lib" "package_loads lib"
  obtains root ch1 where "worker_MasterInterp lib s ch = Ret (root, ch1)" "interp root = tcl_count ch"
    "root_ok ch1 0 (root_cache lib (module_config s) root)" "interps ch1 = interps ch" "servers ch1 = servers ch"
    "tcl_count ch1 = tcl_count ch + 1" "evals ch1 = evals ch" "interp_server ch1 (interp root) \<noteq> None"
proof -
  obtain ri where n: "Rivet_NewVHostInterp True (max_requests lib) (tcl_count ch) (default_cache_size (module_config s)) = Some ri"
    by (simp add: Rivet_NewVHostInterp_def Let_def)
  have size: "cache_size ri = (if default_cache_size (module_config s) < 0 then RivetCache_DefaultSize (max_requests lib)
      else default_cache_size (module_config s))"
    using NewVHostInterp_ok [OF n] n
    by (cases "default_cache_size (module_config s) = 0") (auto simp: Rivet_NewVHostInterp_def Let_def zeroed_interp_def)
  let ?root = "ri\<lparr>channel := Some (thread_channel ch), flags := flags ri OR RIVET_INTERP_INITIALIZED\<rparr>"
  have cache: "root_cache lib (module_config s) (ri\<lparr>channel := a, flags := b\<rparr>)
      = RivetCache_Create (ri\<lparr>channel := a, flags := b\<rparr>)" for a b
    using size by (cases ri) (auto simp: root_cache_def)
  show thesis
  proof (rule that)
    show "worker_MasterInterp lib s ch = Ret (?root, ch\<lparr>tcl_count := tcl_count ch + 1,
        interp_server := (interp_server ch)(interp ri \<mapsto> s), pdata := (pdata ch)\<lparr>running_conf := Some (module_config s)\<rparr>\<rparr>)"
      using assms n by (simp add: worker_MasterInterp_def Rivet_PerInterpInit_def Let_def)
  qed (use NewVHostInterp_fields [OF n] in \<open>simp_all add: cache root_ok_def cache_rep_def RivetCache_Create_def\<close>)
qed

lemma scripts_to_run_named:
  "scripts_to_run lib g init k (map named_server rest) tcl = scripts_to_run lib g init k rest tcl"
  by (induction rest arbitrary: k) (simp_all add: named_server_def child_script_def)

lemma global_init_frame:
  "interps (global_init lib c ri ch) = interps ch" "servers (global_init lib c ri ch) = servers ch"
  "tcl_count (global_init lib c ri ch) = tcl_count ch" "interp_server (global_init lib c ri ch) = interp_server ch"
  "evals (global_init lib c ri ch) = evals ch @ (case rivet_global_init_script c of None \<Rightarrow> [] | Some s \<Rightarrow> [(interp ri, cstr s)])"
  by (simp_all add: global_init_def split: option.split prod.split)

lemma root_ok_server: "interp_server ch = interp_server ch' \<Longrightarrow> root_ok ch k root = root_ok ch' k root"
  by (simp add: root_ok_def)

lemma root_cache_interp [simp]: "interp (root_cache lib c ri) = interp ri"
  by (simp add: root_cache_def RivetCache_Create_def)

section \<open>Private data and requests\<close>

text \<open>\<open>Rivet_CreatePrivateData\<close>: the record of a new thread; \<open>new_request\<close> is the object
  \<open>TclWeb_NewRequestObject\<close> makes. The memory is zeroed.\<close>

definition Rivet_CreatePrivateData :: "tclweb \<Rightarrow> rivet_thread_private" where
  "Rivet_CreatePrivateData new_request = \<lparr> req_cnt = 0, ctype = CTYPE_NOT_HANDLED, priv_r = None,
     priv_req = new_request, running_conf = None, running = None, thread_exit = False, exit_status = 0,
     page_aborting = False, abort_code = None, r_notes = [], err_headers_out = [], allowed = 0 \<rparr>"

text \<open>A request on a thread: the bridge sets the fields of the request and calls \<open>Rivet_SendContent\<close>,
  which works on the interpreter object of the host in the database.\<close>

definition PreforkBridge_Request ::
    "('chan, 'd) gen_lib \<Rightarrow> request_rec \<Rightarrow> rivet_req_ctype \<Rightarrow> child \<times> 'd \<Rightarrow>
     ((child \<times> 'd) \<times> int) option outcome" where
  "PreforkBridge_Request lib rec ct st =
     (case st of (ch, cwd) \<Rightarrow>
      let pd = (pdata ch)\<lparr>ctype := ct, req_cnt := req_cnt (pdata ch) + 1, priv_r := Some rec\<rparr>;
          conf = module_config (r_server rec) in
      bindO (PreforkBridge_Interp (interps ch) conf None)
        (\<lambda>(_, interp_obj). case interp_obj of
           None \<Rightarrow> Fault NullDeref
         | Some ri \<Rightarrow>
             bindO (Rivet_SendContent lib (pd, ri) cwd)
               (\<lambda>res. case res of
                  Terminated _ _ \<Rightarrow> Ret None
                | Served (pd, ri) cwd retval log \<Rightarrow>
                    bindO (PreforkBridge_Interp (interps ch) conf (Some ri))
                      (\<lambda>(db, _). Ret (Some ((ch\<lparr>interps := db, pdata := pd\<rparr>, cwd), retval))))))"

definition Rivet_Handler ::
    "(request_rec \<Rightarrow> rivet_req_ctype \<Rightarrow> 'st \<Rightarrow> ('st \<times> int) option outcome) \<Rightarrow> request_rec \<Rightarrow> 'st \<Rightarrow>
     ('st \<times> int) option outcome" where
  "Rivet_Handler request_processor r st =
     (let ct = Rivet_CheckType r in
      if ct = CTYPE_NOT_HANDLED then Ret (Some (st, DECLINED)) else request_processor r ct st)"

text \<open>The life of a prefork child: requests until the process ends, if it ends.\<close>

fun prefork_life ::
    "('chan, 'd) gen_lib \<Rightarrow> request_rec list \<Rightarrow> child \<times> 'd \<Rightarrow> ((child \<times> 'd) \<times> int list) option outcome" where
  "prefork_life lib [] st = Ret (Some (st, []))"
| "prefork_life lib (r # rs) st =
     bindO (Rivet_Handler (PreforkBridge_Request lib) r st)
       (\<lambda>res. case res of
          None \<Rightarrow> Ret None
        | Some (st, rc) \<Rightarrow>
            bindO (prefork_life lib rs st)
              (\<lambda>res. case res of None \<Rightarrow> Ret None | Some (st, rcs) \<Rightarrow> Ret (Some (st, rc # rcs))))"

text \<open>Releasing the scripts of the directories takes the records of the table for Tcl objects.\<close>

definition Rivet_ReleasePerDirScripts :: "rivet_thread_interp \<Rightarrow> rivet_thread_interp outcome" where
  "Rivet_ReleasePerDirScripts ri =
     (if per_dir_scripts ri = Map.empty then Ret ri else Fault OutOfBounds)"

text \<open>The end of a worker thread: the list of Tcl interpreters deleted.\<close>

fun cleanup_hosts ::
    "bool \<Rightarrow> mod_rivet_globals \<Rightarrow> nat \<Rightarrow> rivet_thread_interp option list \<Rightarrow> nat list outcome" where
  "cleanup_hosts pool g i [] = Ret []"
| "cleanup_hosts pool g i (None # db) = Fault NullDeref"
| "cleanup_hosts pool g i (Some ri # db) =
     bindO (RivetCache_Cleanup pool ri)
       (\<lambda>ri. bindO (Rivet_ReleasePerDirScripts ri)
         (\<lambda>ri. bindO (cleanup_hosts pool g (i + 1) db)
           (\<lambda>l. Ret (if i = 0 \<or> separate_virtual_interps g \<noteq> 0 then interp ri # l else l))))"

definition Rivet_ProcessorCleanup :: "bool \<Rightarrow> mod_rivet_globals \<Rightarrow> child \<Rightarrow> nat list outcome" where
  "Rivet_ProcessorCleanup pool g ch =
     (if interps ch = [] then Fault OutOfBounds else cleanup_hosts pool g 0 (interps ch))"

section \<open>Starting a child process or a thread\<close>

text \<open>\<open>Rivet_ExecutionThreadInit\<close>: fresh private data and a channel of the thread.\<close>

definition Rivet_ExecutionThreadInit :: "tclweb \<Rightarrow> child \<Rightarrow> child" where
  "Rivet_ExecutionThreadInit new_request ch =
     ch\<lparr>pdata := Rivet_CreatePrivateData new_request, thread_channel := chan_count ch, chan_count := chan_count ch + 1\<rparr>"

text \<open>The prefork bridge works with the interpreter of the server, which had no cache so far.\<close>

definition PreforkBridge_ChildInit ::
    "init_lib \<Rightarrow> mod_rivet_globals \<Rightarrow> tclweb \<Rightarrow> rivet_thread_interp \<Rightarrow> child \<Rightarrow> child outcome" where
  "PreforkBridge_ChildInit lib g new_request server_interp ch =
     (case servers ch of
        [] \<Rightarrow> Fault NullDeref
      | root_server # _ \<Rightarrow>
          let ch = (Rivet_ExecutionThreadInit new_request ch)\<lparr>interps := replicate (length (servers ch)) None\<rparr>;
              size = default_cache_size (module_config root_server);
              size = (if size < 0 then RivetCache_DefaultSize (max_requests lib) else size);
              ri = RivetCache_Create (server_interp\<lparr>cache_size := size, cache_free := size\<rparr>)
          in Rivet_VirtualHostsInterps lib g (prefork_MasterInterp lib ri) ch)"

text \<open>The same for a thread of the worker bridge.\<close>

definition worker_thread_init :: "init_lib \<Rightarrow> mod_rivet_globals \<Rightarrow> tclweb \<Rightarrow> child \<Rightarrow> child outcome" where
  "worker_thread_init lib g new_request ch =
     (case servers ch of
        [] \<Rightarrow> Fault NullDeref
      | root_server # _ \<Rightarrow>
          Rivet_VirtualHostsInterps lib g (worker_MasterInterp lib root_server)
            ((Rivet_ExecutionThreadInit new_request ch)\<lparr>interps := replicate (length (servers ch)) None\<rparr>))"

text \<open>The exit handler of the prefork bridge runs the exit scripts and ends the process; the result is
  the state it leaves and the exit code.\<close>

definition PreforkBridge_ExitHandler :: "init_lib \<Rightarrow> mod_rivet_globals \<Rightarrow> child \<Rightarrow> (child \<times> int) outcome" where
  "PreforkBridge_ExitHandler lib g ch =
     bindO (Rivet_RunChildScripts lib g False ch) (\<lambda>ch. Ret (ch, exit_status (pdata ch)))"

definition SINGLE_THREAD_EXIT_UNDEF :: int where "SINGLE_THREAD_EXIT_UNDEF = - 1"

definition PreforkBridge_ServerInit ::
    "rivet_thread_interp \<Rightarrow> mod_rivet_globals \<Rightarrow> rivet_thread_interp \<times> mod_rivet_globals" where
  "PreforkBridge_ServerInit server_interp g =
     (if cache_size server_interp \<noteq> 0 then RivetCache_Create server_interp else server_interp,
      if single_thread_exit g = SINGLE_THREAD_EXIT_UNDEF then g\<lparr>single_thread_exit := 0\<rparr> else g)"

section \<open>Finding the bridge\<close>

text \<open>\<open>env\<close> is the value of the environment variable RIVET_MPM_BRIDGE, \<open>exists\<close> is \<open>apr_stat\<close>,
  \<open>threaded\<close> the answer of httpd about its model, if it answers. No result: the server exits.\<close>

definition RIVET_MPM_BRIDGE_COMPOSE :: "bytes \<Rightarrow> bytes" where
  "RIVET_MPM_BRIDGE_COMPOSE bridge = ''/mpm/rivet_'' @ bridge @ ''_mpm.so''"

definition Rivet_SeekMPMBridge ::
    "bytes \<Rightarrow> (bytes \<Rightarrow> bool) \<Rightarrow> bytes option \<Rightarrow> bool option \<Rightarrow> bytes option \<Rightarrow> bytes option" where
  "Rivet_SeekMPMBridge RIVET_DIR exists env threaded bridge =
     (case env of
        Some mpm_bridge_path \<Rightarrow> if exists mpm_bridge_path then Some mpm_bridge_path else None
      | None \<Rightarrow>
          (case bridge of
             Some b \<Rightarrow>
               let proposed_bridge = RIVET_DIR @ RIVET_MPM_BRIDGE_COMPOSE b in
               if exists proposed_bridge then Some proposed_bridge
               else if exists b then Some b else None
           | None \<Rightarrow>
               Some (RIVET_DIR @ RIVET_MPM_BRIDGE_COMPOSE
                 (case threaded of Some False \<Rightarrow> ''prefork'' | _ \<Rightarrow> ''worker''))))"

lemma prefork_request_frame:
  assumes "PreforkBridge_Request lib rec ct (ch, cwd) = Ret (Some ((ch', cwd'), rc))"
  shows "thread_clean (pdata ch') \<and> length (interps ch') = length (interps ch)
    \<and> (\<forall>j. int j \<noteq> idx (module_config (r_server rec)) \<longrightarrow> interps ch' ! j = interps ch ! j)
    \<and> servers ch' = servers ch"
proof -
  let ?conf = "module_config (r_server rec)"
  let ?pd = "(pdata ch)\<lparr>ctype := ct, req_cnt := req_cnt (pdata ch) + 1, priv_r := Some rec\<rparr>"
  obtain ri where ri: "0 \<le> idx ?conf" "idx ?conf < int (length (interps ch))"
    "interps ch ! nat (idx ?conf) = Some ri"
    using assms by (auto simp: PreforkBridge_Request_def PreforkBridge_Interp_def Let_def split: if_splits option.splits)
  obtain pd' ri' log where s: "Rivet_SendContent lib (?pd, ri) cwd = Ret (Served (pd', ri') cwd' rc log)"
    "ch' = ch\<lparr>interps := (interps ch)[nat (idx ?conf) := Some ri'], pdata := pd'\<rparr>"
  proof (cases "Rivet_SendContent lib (?pd, ri) cwd")
    case (Ret res)
    then show thesis
      using assms ri that
      by (cases res) (auto simp: PreforkBridge_Request_def PreforkBridge_Interp_def Let_def)
  qed (use assms ri in \<open>simp_all add: PreforkBridge_Request_def PreforkBridge_Interp_def Let_def\<close>)
  show ?thesis
    using SendContent_clean [OF s(1)] ri(1) by (auto simp: s(2) nth_list_update)
qed

section \<open>Properties\<close>


text \<open>C13: setting up a worker thread whose hosts are numbered by position and have readable request
  handlers gives every host, through the database of interpreters, an interpreter with its own
  scripts, initialized and with an empty cache; the Tcl interpreter is its own when the hosts are
  separate and the one of the root server when not. The global initialization script and the child
  scripts due have been evaluated, once each and in order.\<close>

theorem virtual_hosts_ready:
  assumes "init_pool lib" "package_loads lib" "servers ch = root # rest" "length (interps ch) = length (servers ch)"
    "\<forall>k < length (servers ch). idx (module_config (servers ch ! k)) = int k
      \<and> (\<exists>scr. Rivet_RunningScripts (init_files lib) (init_handler lib) (module_config (servers ch ! k)) = Ret scr)"
  shows "\<exists>ch'. Rivet_VirtualHostsInterps lib g (worker_MasterInterp lib root) ch = Ret ch'
    \<and> (\<forall>k < length (servers ch). \<exists>ri. peek WorkerBridge_Interp (interps ch') (module_config (servers ch ! k)) = Some ri
         \<and> host_ready lib g (tcl_count ch) (tcl_count ch + 1) k (module_config (servers ch ! k)) ri)
    \<and> evals ch' = evals ch
       @ (case rivet_global_init_script (module_config root) of None \<Rightarrow> [] | Some s \<Rightarrow> [(tcl_count ch, cstr s)])
       @ scripts_to_run lib g True 0 (servers ch)
           (\<lambda>k. if k = 0 \<or> separate_virtual_interps g = 0 then tcl_count ch else tcl_count ch + k)"
proof -
  let ?tcl = "\<lambda>k. if k = 0 \<or> separate_virtual_interps g = 0 then tcl_count ch else tcl_count ch + k"
  let ?conf = "module_config root"
  obtain ri ch1 where m: "worker_MasterInterp lib root ch = Ret (ri, ch1)" "interp ri = tcl_count ch"
    "root_ok ch1 0 (root_cache lib ?conf ri)" "interps ch1 = interps ch" "servers ch1 = servers ch"
    "tcl_count ch1 = tcl_count ch + 1" "evals ch1 = evals ch" "interp_server ch1 (interp ri) \<noteq> None"
    by (rule worker_root [OF assms(1,2), of root ch])
  let ?ri = "root_cache lib ?conf ri" and ?ch = "global_init lib ?conf (root_cache lib ?conf ri) ch1"
  have "root_ok ?ch 0 ?ri" using m(3) root_ok_server [of ?ch ch1] global_init_frame(4) by metis
  moreover have "0 + length (servers ch) \<le> length (interps ?ch)" using assms(4) m(4) by (simp add: global_init_frame)
  moreover have "\<forall>i < length (servers ch). idx (module_config (servers ch ! i)) = int (0 + i)
      \<and> (\<exists>scr. Rivet_RunningScripts (init_files lib) (init_handler lib) (module_config (servers ch ! i)) = Ret scr)"
    using assms(5) by simp
  moreover have "tcl_count ?ch = (if (0::nat) = 0 then tcl_count ch + 1 else tcl_count ch + 1 + 0 - 1)"
    using m(6) by (simp add: global_init_frame)
  ultimately obtain ch2 where l: "vhost_loop lib g 0 (servers ch) ?ri ?ch = Ret ch2"
    "length (interps ch2) = length (interps ?ch)" "evals ch2 = evals ?ch"
    "\<forall>i < length (servers ch). \<exists>ri. interps ch2 ! (0 + i) = Some ri
       \<and> host_ready lib g (tcl_count ch) (tcl_count ch + 1) (0 + i) (module_config (servers ch ! i)) ri
       \<and> interp_server ch2 (interp ri) \<noteq> None"
    "length (servers ?ch) = 0 + length (servers ch) \<longrightarrow> servers ch2 = take 0 (servers ?ch) @ map named_server (servers ch)"
    using vhost_loop_result [OF assms(1,2), of ?ch 0 ?ri "tcl_count ch" "servers ch" g "tcl_count ch + 1"] m(2)
    by auto
  have n: "servers ch2 = map named_server (servers ch)" "length (interps ch2) = length (servers ch)"
    "evals ch2 = evals ?ch"
    using l(2,3,5) assms(4) m(4,5) by (simp_all add: global_init_frame)
  have "\<forall>i < length (servers ch2). idx (module_config (servers ch2 ! i)) = int (0 + i)
      \<and> (\<exists>ri. interps ch2 ! (0 + i) = Some ri \<and> interp ri = ?tcl (0 + i) \<and> interp_server ch2 (interp ri) \<noteq> None)"
    using assms(5) l(4) by (fastforce simp: n(1) named_server_def host_ready_def)
  moreover have "0 + length (servers ch2) \<le> length (interps ch2)" using n by simp
  ultimately obtain ch3 where c: "child_scripts_loop lib g True 0 (servers ch2) ch2 = Ret ch3"
    "interps ch3 = interps ch2" "evals ch3 = evals ch2 @ scripts_to_run lib g True 0 (servers ch2) ?tcl"
    using child_scripts_result [of 0 "servers ch2" ch2 ?tcl lib g True] by blast
  have run: "Rivet_VirtualHostsInterps lib g (worker_MasterInterp lib root) ch = Ret ch3"
    using c(1) l(1) m(5) by (simp add: Rivet_VirtualHostsInterps_def assms(3) m(1) Let_def Rivet_RunChildScripts_def)
  have "\<exists>ri. peek WorkerBridge_Interp (interps ch3) (module_config (servers ch ! k)) = Some ri
         \<and> host_ready lib g (tcl_count ch) (tcl_count ch + 1) k (module_config (servers ch ! k)) ri"
    if "k < length (servers ch)" for k
    using l(4) that assms(5) peek_array [of "module_config (servers ch ! k)" k "interps ch3"] n(2) c(2) by force
  moreover have "interp ?ri = tcl_count ch" using m(2) by simp
  then have "evals ch3 = evals ch
      @ (case rivet_global_init_script ?conf of None \<Rightarrow> [] | Some s \<Rightarrow> [(tcl_count ch, cstr s)])
      @ scripts_to_run lib g True 0 (servers ch) ?tcl"
    using c(3) m(7) unfolding n(1,3) scripts_to_run_named global_init_frame by (simp split: option.split)
  ultimately show ?thesis using run by blast
qed



definition demo_init :: init_lib where
  "demo_init = \<lparr> init_files = gen_files demo_gen, init_handler = ''handle'', max_requests = 0, init_pool = True,
     package_loads = True, eval_child = (\<lambda>i s pd. (pd, True)), other_script = (\<lambda>init k. True) \<rparr>"

definition demo_server :: "nat \<Rightarrow> server_rec" where
  "demo_server k = (r_server (demo_request M_GET None))\<lparr>module_config := RIVET_NEW_CONF\<lparr>idx := int k,
     default_cache_size := - 1, rivet_child_init_script := Some ''load''\<rparr>\<rparr>"

definition demo_child :: "rivet_thread_interp option list \<Rightarrow> child" where
  "demo_child db = \<lparr> servers = [demo_server 0, demo_server 1], interps = db,
     pdata = Rivet_CreatePrivateData (demo_tclweb [] 0), thread_channel = 0, tcl_count = 4, chan_count = 1,
     interp_server = (\<lambda>i. None), evals = [] \<rparr>"

lemma demo_server_idx: "idx (module_config (demo_server k)) = int k"
  by (simp add: demo_server_def)

lemma demo_scripts_ok:
  "\<exists>scr. Rivet_RunningScripts (init_files demo_init) (init_handler demo_init) (module_config (demo_server k)) = Ret scr"
  by (simp add: Rivet_RunningScripts_def demo_server_def RIVET_NEW_CONF_def)

lemma virtual_hosts_ready_witness:
  "\<exists>ch'. Rivet_VirtualHostsInterps demo_init (demo_globals\<lparr>separate_virtual_interps := 1\<rparr>) (worker_MasterInterp demo_init (demo_server 0))
        (demo_child [None, None]) = Ret ch'
    \<and> (\<forall>k < length (servers (demo_child [None, None])). \<exists>ri.
         peek WorkerBridge_Interp (interps ch') (module_config (servers (demo_child [None, None]) ! k)) = Some ri
         \<and> host_ready demo_init (demo_globals\<lparr>separate_virtual_interps := 1\<rparr>) (tcl_count (demo_child [None, None]))
             (tcl_count (demo_child [None, None]) + 1) k (module_config (servers (demo_child [None, None]) ! k)) ri)
    \<and> evals ch' = evals (demo_child [None, None])
       @ (case rivet_global_init_script (module_config (demo_server 0)) of None \<Rightarrow> []
          | Some s \<Rightarrow> [(tcl_count (demo_child [None, None]), cstr s)])
       @ scripts_to_run demo_init (demo_globals\<lparr>separate_virtual_interps := 1\<rparr>) True 0 (servers (demo_child [None, None]))
           (\<lambda>k. if k = 0 \<or> separate_virtual_interps (demo_globals\<lparr>separate_virtual_interps := 1\<rparr>) = 0 then tcl_count (demo_child [None, None])
                else tcl_count (demo_child [None, None]) + k)"
proof (rule virtual_hosts_ready)
  show "\<forall>k < length (servers (demo_child [None, None])).
      idx (module_config (servers (demo_child [None, None]) ! k)) = int k
      \<and> (\<exists>scr. Rivet_RunningScripts (init_files demo_init) (init_handler demo_init)
           (module_config (servers (demo_child [None, None]) ! k)) = Ret scr)"
    using demo_scripts_ok by (auto simp: demo_child_def less_Suc_eq demo_server_idx)
qed (simp_all add: demo_init_def demo_child_def)

definition idle_child :: child where
  "idle_child = (demo_child [Some cold_interp, Some demo_interp])\<lparr>pdata :=
     cleaned ((Rivet_CreatePrivateData (demo_tclweb [] 0))\<lparr>req_cnt := 1, ctype := RIVET_TEMPLATE,
       running_conf := Some RIVET_NEW_CONF, running := Some no_scripts, allowed := allowed_methods\<rparr>)\<rparr>"


section \<open>Behaviours worth knowing\<close>

text \<open>A host that shares the record of the root server gets a copy without the child scripts.\<close>

lemma shared_record_loses_child_scripts:
  "rivet_child_init_script (server_record root store root) = None"
  "rivet_child_exit_script (server_record root store root) = None"
  by (simp_all add: server_record_def Rivet_CopyConfig_def RIVET_NEW_CONF_def)

text \<open>Once a directory section has been used by a thread, releasing its scripts at the end of the thread
  goes wrong.\<close>

lemma release_dir_scripts:
  "per_dir_scripts ri dir = Some scr \<Longrightarrow> Rivet_ReleasePerDirScripts ri = Fault OutOfBounds"
  by (auto simp: Rivet_ReleasePerDirScripts_def)

text \<open>A virtual host whose cache size is 0 gets an interpreter object without a cache, on which the first
  lookup fails.\<close>

lemma duplicate_without_cache:
  "cache_size root = 0 \<Longrightarrow> RivetCache_EntryLookup (Rivet_DuplicateVHostInterp root) key = Fault NullDeref"
  by (simp add: Rivet_DuplicateVHostInterp_def zeroed_interp_def RivetCache_EntryLookup_def Let_def)

end
