(* ===== verification/Rivet_Bridge.thy ===== *)
theory Rivet_Bridge
  imports Rivet_Interps
begin

text \<open>
  What the two threaded bridges promise httpd, as interfaces over their step relations: every answer comes
  from one turn of one Tcl thread (\<open>answering\<close>), and a request on its way gets its answer when threads that
  can go on do (\<open>fair_progress\<close>). The bridges (Rivet_Worker, Rivet_Lazy) interpret both.
\<close>

inductive reachable :: "('s \<Rightarrow> 's \<Rightarrow> bool) \<Rightarrow> 's \<Rightarrow> 's \<Rightarrow> bool" for step s0 where
  start: "reachable step s0 s0"
| next_state: "reachable step s0 s \<Longrightarrow> step s s' \<Longrightarrow> reachable step s0 s'"

section \<open>Threads of httpd and the records they use\<close>

text \<open>A thread of httpd: before the request, popping, locking the record it popped, waiting for the
  answer, refused, answered.\<close>

datatype handler_pc = HStart | HPop | HLock nat | HWait nat bool | HRefused | HDone int

text \<open>What the record of a Tcl thread is doing: waiting in the queue, popped by a thread of httpd, waited for,
  popped by the shutdown, or none of these.\<close>

datatype phase = PQueue | PLocked nat | PWait nat bool | PShut | PNone

text \<open>The phases of the records agree with the threads of httpd.\<close>

definition users_agree :: "(nat \<Rightarrow> phase) \<Rightarrow> (nat \<Rightarrow> handler_pc) \<Rightarrow> bool" where
  "users_agree ph hs \<longleftrightarrow> (\<forall>h w. hs h = HLock w \<longleftrightarrow> ph w = PLocked h) \<and> (\<forall>h w b. hs h = HWait w b \<longleftrightarrow> ph w = PWait h b)"

lemma users_agreeD:
  assumes "users_agree ph hs"
  shows "hs h = HLock w \<longleftrightarrow> ph w = PLocked h" "hs h = HWait w b \<longleftrightarrow> ph w = PWait h b"
  using assms by (simp_all add: users_agree_def)

lemma one_user:
  assumes "users_agree ph hs" "hs h = HLock w \<or> hs h = HWait w b" "hs k = HLock w \<or> hs k = HWait w c"
  shows "h = k"
  using assms(2,3) users_agreeD [OF assms(1), of h w] users_agreeD [OF assms(1), of k w] by auto

definition free_phase :: "phase \<Rightarrow> bool" where
  "free_phase f \<longleftrightarrow> (\<forall>h b. f \<noteq> PLocked h \<and> f \<noteq> PWait h b)"

definition free_pc :: "handler_pc \<Rightarrow> bool" where
  "free_pc pc \<longleftrightarrow> (\<forall>w b. pc \<noteq> HLock w \<and> pc \<noteq> HWait w b)"

lemma free_simps [simp]:
  "free_phase PQueue" "free_phase PShut" "free_phase PNone" "\<not> free_phase (PLocked h)" "\<not> free_phase (PWait h b)"
  "free_pc HStart" "free_pc HPop" "free_pc HRefused" "free_pc (HDone c)" "\<not> free_pc (HLock w)" "\<not> free_pc (HWait w b)"
  by (auto simp: free_phase_def free_pc_def)

lemma users_phase: "users_agree ph hs \<Longrightarrow> free_phase (ph w) \<Longrightarrow> free_phase f \<Longrightarrow> users_agree (ph(w := f)) hs"
  unfolding users_agree_def free_phase_def by auto

lemma users_pc: "users_agree ph hs \<Longrightarrow> free_pc (hs h) \<Longrightarrow> free_pc pc \<Longrightarrow> users_agree ph (hs(h := pc))"
  unfolding users_agree_def free_pc_def by auto

lemma users_take:
  assumes a: "users_agree ph hs" and h: "free_pc (hs h)" and w: "free_phase (ph w)"
  shows "users_agree (ph(w := PLocked h)) (hs(h := HLock w))"
proof -
  have "ph v \<noteq> PLocked h" "ph v \<noteq> PWait h b" "hs g \<noteq> HLock w" "hs g \<noteq> HWait w b" for v g b
    using users_agreeD [OF a] h w unfolding free_pc_def free_phase_def by blast+
  then show ?thesis using a unfolding users_agree_def by (auto split: if_splits)
qed

lemma users_move:
  assumes a: "users_agree ph hs" and old: "ph w = PLocked h \<or> ph w = PWait h b0"
    and pc: "f = PNone \<and> pc = HDone c \<or> (\<exists>b. f = PWait h b \<and> pc = HWait w b)"
  shows "users_agree (ph(w := f)) (hs(h := pc))"
proof -
  have h: "hs h = HLock w \<or> hs h = HWait w b0" using old users_agreeD [OF a] by blast
  have u: "v \<noteq> w \<Longrightarrow> ph v \<noteq> PLocked h \<and> ph v \<noteq> PWait h b" for v b
  proof (rule ccontr)
    assume v: "v \<noteq> w" "\<not> (ph v \<noteq> PLocked h \<and> ph v \<noteq> PWait h b)"
    then have "hs h = HLock v \<or> hs h = HWait v b" using users_agreeD [OF a] by blast
    with h v(1) show False by auto
  qed
  have f: "f \<noteq> PLocked k" "f = PWait k b \<Longrightarrow> k = h" for k b using pc by auto
  have pc': "pc \<noteq> HLock v" "pc = HWait v b \<longleftrightarrow> v = w \<and> f = PWait h b" for v b using pc by auto
  have w: "k \<noteq> h \<Longrightarrow> ph w \<noteq> PLocked k \<and> ph w \<noteq> PWait k b \<and> f \<noteq> PWait k b" for k b
    using old f(2) by auto
  have "(hs(h := pc)) h' = HLock v \<longleftrightarrow> (ph(w := f)) v = PLocked h'" for h' v
    using u [of v] w [of h'] f(1) pc'(1) users_agreeD(1) [OF a, of h' v]
    by (cases "h' = h"; cases "v = w") simp_all
  moreover have "(hs(h := pc)) h' = HWait v b \<longleftrightarrow> (ph(w := f)) v = PWait h' b" for h' v b
    using u [of v b] w [of h' b] pc'(2) [of v b] users_agreeD(2) [OF a, of h' v b]
    by (cases "h' = h"; cases "v = w") simp_all
  ultimately show ?thesis unfolding users_agree_def by blast
qed

text \<open>A signal on the record of \<open>w\<close> reaches the one thread of httpd that can wait for it.\<close>

definition signal_waiting :: "nat \<Rightarrow> (nat \<Rightarrow> handler_pc) \<Rightarrow> nat \<Rightarrow> handler_pc" where
  "signal_waiting w hs = (\<lambda>h. case hs h of HWait w' b \<Rightarrow> HWait w' (b \<or> w' = w) | pc \<Rightarrow> pc)"

lemma signal_one:
  assumes a: "users_agree ph hs" and w: "ph w = PWait h b"
  shows "signal_waiting w hs = hs(h := HWait w True)"
proof
  fix k
  show "signal_waiting w hs k = (hs(h := HWait w True)) k"
  proof (cases "hs k")
    case (HWait v c)
    then have "ph v = PWait k c" using users_agreeD(2) [OF a] by blast
    moreover have "hs h = HWait w b" using users_agreeD(2) [OF a] w by blast
    ultimately show ?thesis using w HWait by (cases "k = h") (auto simp: signal_waiting_def)
  qed (use users_agreeD(2) [OF a, of h w b] w in \<open>auto simp: signal_waiting_def\<close>)
qed

text \<open>The answer a thread of httpd has, or finds posted in the record it waits for.\<close>

definition answer_seen :: "(nat \<Rightarrow> handler_pc) \<Rightarrow> (nat \<Rightarrow> int option) \<Rightarrow> nat \<Rightarrow> int option" where
  "answer_seen hs posted h = (case hs h of HDone c \<Rightarrow> Some c | HWait w b \<Rightarrow> posted w | _ \<Rightarrow> None)"

section \<open>Answers and logs\<close>

text \<open>The abstract bridge: the answers given and, for each Tcl thread, the requests it served. It either
  stands still or one Tcl thread serves one request that has no answer, with the status that the requests
  served before by the thread lead to.\<close>

locale answering =
  fixes step :: "'s \<Rightarrow> 's \<Rightarrow> bool" and start :: 's and inv :: "'s \<Rightarrow> bool"
    and answers :: "'s \<Rightarrow> nat \<Rightarrow> int option" and logs :: "'s \<Rightarrow> nat \<Rightarrow> nat list"
    and code :: "nat list \<Rightarrow> nat \<Rightarrow> int"
  assumes start_inv: "inv start" "answers start h = None" "logs start w = []"
    and step_inv: "inv s \<Longrightarrow> step s s' \<Longrightarrow> inv s'"
    and step_serves: "inv s \<Longrightarrow> step s s' \<Longrightarrow> answers s' = answers s \<and> logs s' = logs s
      \<or> (\<exists>h w. answers s h = None \<and> answers s' = (answers s)(h \<mapsto> code (logs s w) h)
           \<and> logs s' = (logs s)(w := logs s w @ [h]))"
begin

lemma reachable_inv: "reachable step start s \<Longrightarrow> inv s"
  by (induction rule: reachable.induct) (auto intro: start_inv step_inv)

definition accounted :: "'s \<Rightarrow> bool" where
  "accounted s \<longleftrightarrow> (\<forall>w. distinct (logs s w)) \<and> (\<forall>v w. v \<noteq> w \<longrightarrow> set (logs s v) \<inter> set (logs s w) = {})
     \<and> (\<forall>w pre h post. logs s w = pre @ h # post \<longrightarrow> answers s h = Some (code pre h))
     \<and> (\<forall>h. answers s h \<noteq> None \<longrightarrow> (\<exists>w. h \<in> set (logs s w)))"

lemma accountedD:
  assumes "accounted s"
  shows "distinct (logs s w)" "v \<noteq> w \<Longrightarrow> set (logs s v) \<inter> set (logs s w) = {}"
    "logs s w = pre @ h # post \<Longrightarrow> answers s h = Some (code pre h)"
    "answers s h \<noteq> None \<Longrightarrow> \<exists>w. h \<in> set (logs s w)"
  using assms unfolding accounted_def by blast+

lemma split_snoc:
  "xs @ [r] = pre @ h # post \<Longrightarrow> pre = xs \<and> h = r \<or> (\<exists>post'. xs = pre @ h # post')"
  by (cases post rule: rev_cases) auto

lemma accounted_serve:
  assumes a: "accounted s" and none: "answers s h = None"
    and s': "answers s' = (answers s)(h \<mapsto> code (logs s w) h)" "logs s' = (logs s)(w := logs s w @ [h])"
  shows "accounted s'"
proof -
  have new: "h \<notin> set (logs s v)" for v
    using accountedD(3) [OF a] none by (metis option.distinct(1) split_list)
  have d: "distinct (logs s' v)" for v using accountedD(1) [OF a] new s'(2) by simp
  have disj: "set (logs s' u) \<inter> set (logs s' v) = {}" if "u \<noteq> v" for u v
    using accountedD(2) [OF a that] new [of u] new [of v] that s'(2) by (cases "u = w"; cases "v = w") simp_all
  have wf: "answers s' k = Some (code pre k)" if "logs s' v = pre @ k # post" for v pre k post
  proof -
    have k: "answers s k = Some (code pre k) \<Longrightarrow> ?thesis" using none s'(1) by auto
    show ?thesis
    proof (cases "v = w")
      case True
      then have "logs s w @ [h] = pre @ k # post" using that s'(2) by simp
      from split_snoc [OF this] show ?thesis using s'(1) accountedD(3) [OF a] k by auto
    next
      case False
      then show ?thesis using that s'(2) accountedD(3) [OF a] k by simp
    qed
  qed
  have owner: "\<exists>v. k \<in> set (logs s' v)" if k: "answers s' k \<noteq> None" for k
  proof (cases "k = h")
    case False
    then obtain v where "k \<in> set (logs s v)" using accountedD(4) [OF a] k s'(1) by auto
    then show ?thesis using s'(2) by (intro exI [of _ v]) auto
  qed (use s'(2) in \<open>auto intro!: exI [of _ w]\<close>)
  show ?thesis unfolding accounted_def using d disj wf owner by blast
qed

lemma reachable_accounted: "reachable step start s \<Longrightarrow> accounted s"
proof (induction rule: reachable.induct)
  case start
  then show ?case by (simp add: accounted_def start_inv)
next
  case (next_state s s')
  from step_serves [OF reachable_inv [OF next_state(1)] next_state(2)] show ?case
  proof (elim disjE exE conjE)
    assume "answers s' = answers s" "logs s' = logs s"
    with next_state.IH show ?thesis unfolding accounted_def by simp
  next
    fix h w
    assume "answers s h = None" "answers s' = (answers s)(h \<mapsto> code (logs s w) h)"
      "logs s' = (logs s)(w := logs s w @ [h])"
    then show ?thesis by (rule accounted_serve [OF next_state.IH])
  qed
qed

text \<open>An answer was given once, by one Tcl thread, after the requests that thread had served before.\<close>

lemma answered_once:
  assumes "reachable step start s" "answers s h = Some c"
  obtains w pre post where "logs s w = pre @ h # post" "c = code pre h" "h \<notin> set pre" "h \<notin> set post"
    "\<And>v. h \<in> set (logs s v) \<Longrightarrow> v = w"
proof -
  have a: "accounted s" using reachable_accounted [OF assms(1)] .
  obtain w where "h \<in> set (logs s w)" using accountedD(4) [OF a] assms(2) by blast
  then obtain pre post where w: "logs s w = pre @ h # post" by (meson split_list)
  have "c = code pre h" using accountedD(3) [OF a w] assms(2) by simp
  moreover have "h \<notin> set pre" "h \<notin> set post" using accountedD(1) [OF a, of w] w by auto
  moreover have "v = w" if "h \<in> set (logs s v)" for v
    using accountedD(2) [OF a, of v w] that w by auto
  ultimately show thesis using that w by blast
qed

end

section \<open>Progress\<close>

text \<open>Runs in which no actor with a turn is left waiting for ever; states may repeat.\<close>

definition fair_run :: "('s \<Rightarrow> 's \<Rightarrow> bool) \<Rightarrow> ('a \<Rightarrow> 's \<Rightarrow> 's option) \<Rightarrow> (nat \<Rightarrow> 's) \<Rightarrow> bool" where
  "fair_run step turn \<sigma> \<longleftrightarrow> (\<forall>i. \<sigma> (Suc i) = \<sigma> i \<or> step (\<sigma> i) (\<sigma> (Suc i)))
     \<and> (\<forall>a i. \<exists>j\<ge>i. turn a (\<sigma> j) = None \<or> turn a (\<sigma> j) = Some (\<sigma> (Suc j)))"

lemma fair_run_reach:
  assumes "fair_run step turn \<sigma>" "reachable step s0 (\<sigma> 0)"
  shows "reachable step s0 (\<sigma> i)"
proof (induction i)
  case (Suc i)
  have "\<sigma> (Suc i) = \<sigma> i \<or> step (\<sigma> i) (\<sigma> (Suc i))" using assms(1) by (simp add: fair_run_def)
  then show ?case using Suc reachable.next_state by metis
qed (use assms(2) in simp)

text \<open>Stages count down to 0. A step keeps the stage or lowers it, and at each stage one actor has a turn
  that lowers it.\<close>

locale fair_progress =
  fixes step :: "'s \<Rightarrow> 's \<Rightarrow> bool" and turn :: "'a \<Rightarrow> 's \<Rightarrow> 's option" and inv :: "'s \<Rightarrow> bool"
    and stage :: "nat \<Rightarrow> 's \<Rightarrow> bool" and actor_of :: "nat \<Rightarrow> 'a"
  assumes stage_step: "inv s \<Longrightarrow> step s s' \<Longrightarrow> stage k s \<Longrightarrow> \<exists>m\<le>k. stage m s'"
    and stage_turn: "inv s \<Longrightarrow> stage (Suc k) s \<Longrightarrow> \<exists>s'. turn (actor_of (Suc k)) s = Some s' \<and> (\<exists>m\<le>k. stage m s')"
begin

lemma stage_falls:
  assumes run: "fair_run step turn \<sigma>" and inv: "\<And>i. inv (\<sigma> i)" and st: "stage (Suc k) (\<sigma> i)"
  shows "\<exists>j\<ge>i. \<exists>m\<le>k. stage m (\<sigma> j)"
proof (rule ccontr)
  assume never: "\<not> ?thesis"
  have stays: "stage (Suc k) (\<sigma> j)" if "i \<le> j" for j
    using that
  proof (induction j rule: dec_induct)
    case (step j)
    have "\<sigma> (Suc j) = \<sigma> j \<or> step (\<sigma> j) (\<sigma> (Suc j))" using run by (simp add: fair_run_def)
    then have "\<exists>m\<le>Suc k. stage m (\<sigma> (Suc j))" using stage_step [OF inv _ step.IH] step.IH by auto
    moreover have "i \<le> Suc j" using step.hyps(1) by simp
    ultimately show ?case using never by (metis le_SucE)
  qed (use st in simp)
  obtain j where j: "i \<le> j"
    "turn (actor_of (Suc k)) (\<sigma> j) = None \<or> turn (actor_of (Suc k)) (\<sigma> j) = Some (\<sigma> (Suc j))"
    using run unfolding fair_run_def by blast
  have "\<exists>m\<le>k. stage m (\<sigma> (Suc j))" using stage_turn [OF inv stays [OF j(1)]] j(2) by auto
  moreover have "i \<le> Suc j" using j(1) by simp
  ultimately show False using never by blast
qed

lemma stage_ends:
  assumes "fair_run step turn \<sigma>" "\<And>i. inv (\<sigma> i)"
  shows "stage k (\<sigma> i) \<Longrightarrow> \<exists>j\<ge>i. stage 0 (\<sigma> j)"
proof (induction k arbitrary: i rule: less_induct)
  case (less k)
  show ?case
  proof (cases k)
    case (Suc m)
    then obtain j n where "i \<le> j" "n \<le> m" "stage n (\<sigma> j)" using stage_falls [OF assms] less.prems by blast
    then show ?thesis using less.IH [of n j] Suc by (meson le_trans less_Suc_eq_le)
  qed (use less.prems in auto)
qed

end

section \<open>Runs by a schedule\<close>

text \<open>A Tcl thread, a thread of httpd with a request, a request that comes.\<close>

datatype actor = Tcl nat | Httpd nat | Arrives nat

definition play :: "('a \<Rightarrow> 's \<Rightarrow> 's option) \<Rightarrow> 'a list \<Rightarrow> 's \<Rightarrow> 's" where
  "play turn as s = foldl (\<lambda>s a. case turn a s of None \<Rightarrow> s | Some s' \<Rightarrow> s') s as"

lemma play_reach:
  assumes turn: "\<And>a s s'. turn a s = Some s' \<Longrightarrow> step s s'"
  shows "reachable step s0 s \<Longrightarrow> reachable step s0 (play turn as s)"
proof (induction as arbitrary: s)
  case (Cons a as)
  have "reachable step s0 (case turn a s of None \<Rightarrow> s | Some s' \<Rightarrow> s')"
    using turn Cons.prems by (auto split: option.split intro: reachable.next_state)
  then show ?case using Cons.IH by (simp add: play_def)
qed (simp add: play_def)

text \<open>A finite schedule that leaves no actor with a turn makes a fair run.\<close>

lemma play_fair:
  assumes turn: "\<And>a s s'. go a s = Some s' \<Longrightarrow> step s s'" and rest: "\<And>a. turn a (play go as s) = None"
  shows "fair_run step turn (\<lambda>i. play go (take i as) s)"
proof -
  have "play go (take (Suc i) as) s = play go (take i as) s
      \<or> step (play go (take i as) s) (play go (take (Suc i) as) s)" for i
    using turn [of "as ! i" "play go (take i as) s"]
    by (cases "i < length as") (auto simp: take_Suc_conv_app_nth play_def split: option.split)
  moreover have "\<exists>j\<ge>i. turn a (play go (take j as) s) = None" for a i
    using rest by (intro exI [of _ "max i (length as)"]) simp
  ultimately show ?thesis unfolding fair_run_def by blast
qed

end
