(* ===== verification/Rivet_Worker.thy ===== *)
theory Rivet_Worker
  imports Rivet_Bridge
begin

text \<open>
  src/src/mod_rivet_ng/rivet_worker_mpm.c: the bridge for threaded servers as a step relation. Threads of
  httpd (\<open>WorkerBridge_Request\<close>) pop an idle Tcl thread from a queue, hand it their request through its
  \<open>handler_private\<close> record and wait for the answer; the Tcl threads (\<open>request_processor\<close>) push themselves
  on the queue, wait, serve and wait again; the supervisor replaces threads that ended;
  \<open>WorkerBridge_Shutdown\<close> stops them.

  Every rule is one stretch of code between two points where a thread can block. The mutex of a
  \<open>handler_private\<close> record is held by its Tcl thread in the states \<open>holds_mutex\<close> names, and by others
  only inside one rule. A thread waiting on a condition variable carries a flag that says it was
  signalled; a signal to nobody is lost, and waits may end without a signal. The private data of a
  Tcl thread and what serving does to it are parameters: \<open>send\<close> is \<open>Rivet_SendContent\<close> after the three
  assignments of the loop, its result the new data, the status and whether the thread is to exit.
\<close>

section \<open>State\<close>

datatype rivet_thr_status = Init | Idle | Request_processing | Done | Child_exit

datatype worker_pc = Absent | NotStarted | Push | Pushed | WaitInit bool | Serving | WaitIdle bool
  | Leaving | Gone | Quitting

text \<open>A Tcl thread with its \<open>handler_private\<close> record; requests are numbered by the threads of httpd that
  bring them. \<open>wlog\<close> lists the requests served.\<close>

record 'p worker =
  wpc :: worker_pc
  tstatus :: rivet_thr_status
  treq :: "nat option"
  tcode :: int
  keep_going :: bool
  wpriv :: 'p
  wlog :: "nat list"

text \<open>The shutdown: not called, popping (\<open>waits\<close>, \<open>threads_to_stop\<close>), locking a popped record, returned.\<close>

datatype shutdown_pc = SdIdle | SdPop nat nat | SdSignal nat nat | SdEnd

record 'p mpm_bridge_status =
  worker_of :: "nat \<Rightarrow> 'p worker"
  handler_of :: "nat \<Rightarrow> handler_pc"
  queue :: "nat list"
  server_shutdown :: bool
  exiting :: "nat list"
  workers :: "nat option list"
  next_thread :: nat
  threads_count :: nat
  running_threads_count :: nat
  shutdown_at :: shutdown_pc
  skip_thread_on_exit :: nat
  not_to_be_waited :: nat
  ended :: bool

record 'p worker_lib =
  send :: "nat \<Rightarrow> 'p \<Rightarrow> 'p \<times> int \<times> bool"
  fresh :: 'p
  single_exit :: bool

definition MOD_RIVET_QUEUE_SIZE :: nat where "MOD_RIVET_QUEUE_SIZE = 100"

text \<open>When the configuration leaves it open, a single thread exits alone.\<close>

definition WorkerBridge_ServerInit :: "mod_rivet_globals \<Rightarrow> mod_rivet_globals" where
  "WorkerBridge_ServerInit g =
     (if single_thread_exit g = SINGLE_THREAD_EXIT_UNDEF then g\<lparr>single_thread_exit := 1\<rparr> else g)"

definition holds_mutex :: "worker_pc \<Rightarrow> bool" where
  "holds_mutex pc \<longleftrightarrow> pc \<in> {Push, Pushed, Serving, Leaving, Quitting}"

section \<open>Pieces of the steps\<close>

definition set_worker :: "nat \<Rightarrow> 'p worker \<Rightarrow> 'p mpm_bridge_status \<Rightarrow> 'p mpm_bridge_status" where
  "set_worker w x s = s\<lparr>worker_of := (worker_of s)(w := x)\<rparr>"

definition set_handler :: "nat \<Rightarrow> handler_pc \<Rightarrow> 'p mpm_bridge_status \<Rightarrow> 'p mpm_bridge_status" where
  "set_handler h pc s = s\<lparr>handler_of := (handler_of s)(h := pc)\<rparr>"

text \<open>\<open>apr_thread_cond_signal\<close> on the record of \<open>w\<close> for its Tcl thread and for the one thread of httpd
  that can wait on it (lemma \<open>one_holder\<close>).\<close>

definition signalled :: "'p worker \<Rightarrow> 'p worker" where
  "signalled x = x\<lparr>wpc := (case wpc x of WaitInit _ \<Rightarrow> WaitInit True | WaitIdle _ \<Rightarrow> WaitIdle True | pc \<Rightarrow> pc)\<rparr>"

definition signal_handler :: "nat \<Rightarrow> 'p mpm_bridge_status \<Rightarrow> 'p mpm_bridge_status" where
  "signal_handler w s = s\<lparr>handler_of := signal_waiting w (handler_of s)\<rparr>"

text \<open>The loop that waits for the status \<open>init\<close>, entered or woken with the mutex held, and what follows
  it.\<close>

definition init_check :: "nat \<Rightarrow> 'p mpm_bridge_status \<Rightarrow> 'p mpm_bridge_status" where
  "init_check w s =
     (let x = worker_of s w in
      if tstatus x \<noteq> Init then set_worker w (x\<lparr>wpc := WaitInit False\<rparr>) s
      else if server_shutdown s then set_worker w (x\<lparr>keep_going := False, wpc := Leaving\<rparr>) s
      else (set_worker w (x\<lparr>tstatus := Request_processing, wpc := Serving\<rparr>) s)
             \<lparr>running_threads_count := running_threads_count s + 1\<rparr>)"

text \<open>Woken in the loop that waits for the status \<open>idle\<close>, and the end of the turn.\<close>

definition idle_check :: "nat \<Rightarrow> 'p mpm_bridge_status \<Rightarrow> 'p mpm_bridge_status" where
  "idle_check w s =
     (let x = worker_of s w in
      if tstatus x \<noteq> Idle then set_worker w (x\<lparr>wpc := WaitIdle False\<rparr>) s
      else (set_worker w (x\<lparr>wpc := (if keep_going x then Push else Leaving)\<rparr>) s)
             \<lparr>running_threads_count := running_threads_count s - 1\<rparr>)"

definition new_worker :: "'p worker_lib \<Rightarrow> worker_pc \<Rightarrow> 'p worker" where
  "new_worker L pc = \<lparr> wpc = pc, tstatus = Init, treq = None, tcode = 0, keep_going = True,
     wpriv = fresh L, wlog = [] \<rparr>"

text \<open>\<open>Rivet_SendContent\<close> on the request of the record, and the answer: code, status, signal. The private
  data carry the count of requests and the fields of the request.\<close>

definition answer :: "'p worker_lib \<Rightarrow> nat \<Rightarrow> nat \<Rightarrow> 'p mpm_bridge_status \<Rightarrow> 'p mpm_bridge_status" where
  "answer L w r s =
     (let x = worker_of s w in
      case send L r (wpriv x) of
        (p', code, exit) \<Rightarrow>
          if exit \<and> \<not> single_exit L then
            (set_worker w (x\<lparr>wpriv := p', keep_going := False, wpc := Quitting\<rparr>) s)\<lparr>skip_thread_on_exit := 1\<rparr>
          else
            signal_handler w
              (set_worker w (x\<lparr>wpriv := p', tcode := code, tstatus := Done, keep_going := keep_going x \<and> \<not> exit,
                 wpc := WaitIdle False, wlog := wlog x @ [r]\<rparr>) s))"

text \<open>The condition of the loop of the shutdown, which \<open>continue\<close> evaluates too.\<close>

definition shutdown_loop :: "nat \<Rightarrow> nat \<Rightarrow> nat \<Rightarrow> shutdown_pc" where
  "shutdown_loop skipped waits threads_to_stop =
     (if waits > 0 \<and> threads_to_stop > skipped then SdPop waits threads_to_stop else SdEnd)"

text \<open>The supervisor starts a new thread in the slot of one that ended.\<close>

fun slot_of :: "nat \<Rightarrow> nat option list \<Rightarrow> nat option" where
  "slot_of tid [] = None"
| "slot_of tid (x # xs) = (if x = Some tid then Some 0 else map_option Suc (slot_of tid xs))"

definition restart_thread :: "'p worker_lib \<Rightarrow> nat \<Rightarrow> 'p mpm_bridge_status \<Rightarrow> 'p mpm_bridge_status" where
  "restart_thread L tid s =
     (case slot_of tid (workers s) of
        None \<Rightarrow> s
      | Some i \<Rightarrow> (set_worker (next_thread s) (new_worker L NotStarted) s)
          \<lparr>workers := (workers s)[i := Some (next_thread s)], next_thread := next_thread s + 1\<rparr>)"

section \<open>The step relation\<close>

inductive worker_step :: "'p worker_lib \<Rightarrow> 'p mpm_bridge_status \<Rightarrow> 'p mpm_bridge_status \<Rightarrow> bool" for L where
  thread_starts: "\<not> ended s \<Longrightarrow> wpc (worker_of s w) = NotStarted \<Longrightarrow>
    worker_step L s ((set_worker w ((worker_of s w)\<lparr>wpc := Push, tstatus := Idle\<rparr>) s)
                       \<lparr>threads_count := threads_count s + 1\<rparr>)"
| thread_pushes: "\<not> ended s \<Longrightarrow> wpc (worker_of s w) = Push \<Longrightarrow> length (queue s) < MOD_RIVET_QUEUE_SIZE \<Longrightarrow>
    worker_step L s ((set_worker w ((worker_of s w)\<lparr>wpc := Pushed\<rparr>) s)\<lparr>queue := queue s @ [w]\<rparr>)"
| thread_waits: "\<not> ended s \<Longrightarrow> wpc (worker_of s w) = Pushed \<Longrightarrow> worker_step L s (init_check w s)"
| thread_wakes: "\<not> ended s \<Longrightarrow> wpc (worker_of s w) = WaitInit True \<Longrightarrow> worker_step L s (init_check w s)"
| thread_serves: "\<not> ended s \<Longrightarrow> wpc (worker_of s w) = Serving \<Longrightarrow> treq (worker_of s w) = Some r \<Longrightarrow>
    worker_step L s (answer L w r s)"
| thread_done: "\<not> ended s \<Longrightarrow> wpc (worker_of s w) = WaitIdle True \<Longrightarrow> worker_step L s (idle_check w s)"
| thread_leaves: "\<not> ended s \<Longrightarrow> wpc (worker_of s w) = Leaving \<Longrightarrow>
    worker_step L s ((set_worker w ((worker_of s w)\<lparr>wpc := Gone\<rparr>) s)
                       \<lparr>exiting := exiting s @ [w], threads_count := threads_count s - 1\<rparr>)"
| spurious_init: "\<not> ended s \<Longrightarrow> wpc (worker_of s w) = WaitInit False \<Longrightarrow>
    worker_step L s (set_worker w ((worker_of s w)\<lparr>wpc := WaitInit True\<rparr>) s)"
| spurious_idle: "\<not> ended s \<Longrightarrow> wpc (worker_of s w) = WaitIdle False \<Longrightarrow>
    worker_step L s (set_worker w ((worker_of s w)\<lparr>wpc := WaitIdle True\<rparr>) s)"
| supervisor: "\<not> ended s \<Longrightarrow> \<not> server_shutdown s \<Longrightarrow> exiting s = ps @ [tid] \<Longrightarrow>
    worker_step L s (restart_thread L tid (s\<lparr>exiting := ps\<rparr>))"
| request_refused: "\<not> ended s \<Longrightarrow> handler_of s h = HStart \<Longrightarrow> server_shutdown s \<Longrightarrow>
    worker_step L s (set_handler h HRefused s)"
| request_arrives: "\<not> ended s \<Longrightarrow> handler_of s h = HStart \<Longrightarrow> \<not> server_shutdown s \<Longrightarrow>
    worker_step L s (set_handler h HPop s)"
| request_pops: "\<not> ended s \<Longrightarrow> handler_of s h = HPop \<Longrightarrow> queue s = w # ws \<Longrightarrow>
    worker_step L s ((set_handler h (HLock w) s)\<lparr>queue := ws\<rparr>)"
| request_posted: "\<not> ended s \<Longrightarrow> handler_of s h = HLock w \<Longrightarrow> \<not> holds_mutex (wpc (worker_of s w)) \<Longrightarrow>
    worker_step L s (set_handler h (HWait w False)
      (set_worker w (signalled ((worker_of s w)\<lparr>treq := Some h, tstatus := Init, tcode := 0\<rparr>)) s))"
| request_wakes: "\<not> ended s \<Longrightarrow> handler_of s h = HWait w True \<Longrightarrow> \<not> holds_mutex (wpc (worker_of s w)) \<Longrightarrow>
    tstatus (worker_of s w) \<noteq> Done \<Longrightarrow> worker_step L s (set_handler h (HWait w False) s)"
| request_done: "\<not> ended s \<Longrightarrow> handler_of s h = HWait w True \<Longrightarrow> \<not> holds_mutex (wpc (worker_of s w)) \<Longrightarrow>
    tstatus (worker_of s w) = Done \<Longrightarrow>
    worker_step L s (set_handler h (HDone (tcode (worker_of s w)))
      (set_worker w (signalled ((worker_of s w)\<lparr>tstatus := Idle\<rparr>)) s))"
| request_spurious: "\<not> ended s \<Longrightarrow> handler_of s h = HWait w False \<Longrightarrow>
    worker_step L s (set_handler h (HWait w True) s)"
| shutdown_starts: "\<not> ended s \<Longrightarrow> shutdown_at s = SdIdle \<Longrightarrow>
    worker_step L s (s\<lparr>not_to_be_waited := skip_thread_on_exit s, server_shutdown := True, shutdown_at := SdPop 5 0\<rparr>)"
| shutdown_empty: "\<not> ended s \<Longrightarrow> shutdown_at s = SdPop waits n \<Longrightarrow> queue s = [] \<Longrightarrow>
    worker_step L s (s\<lparr>shutdown_at := shutdown_loop (not_to_be_waited s) (waits - 1) n\<rparr>)"
| shutdown_pops: "\<not> ended s \<Longrightarrow> shutdown_at s = SdPop waits n \<Longrightarrow> queue s = w # ws \<Longrightarrow>
    worker_step L s (s\<lparr>shutdown_at := SdSignal w waits, queue := ws\<rparr>)"
| shutdown_signals: "\<not> ended s \<Longrightarrow> shutdown_at s = SdSignal w waits \<Longrightarrow> \<not> holds_mutex (wpc (worker_of s w)) \<Longrightarrow>
    worker_step L s ((set_worker w (signalled ((worker_of s w)\<lparr>tstatus := Init\<rparr>)) s)
      \<lparr>shutdown_at := shutdown_loop (not_to_be_waited s) waits (threads_count s)\<rparr>)"
| process_ends: "\<not> ended s \<Longrightarrow> wpc (worker_of s w) = Quitting \<Longrightarrow> shutdown_at s = SdEnd \<Longrightarrow>
    worker_step L s (s\<lparr>ended := True\<rparr>)"

text \<open>The start of a child: the supervisor has created the threads, nothing else has happened.\<close>

definition WorkerBridge_ChildInit :: "'p worker_lib \<Rightarrow> nat \<Rightarrow> 'p mpm_bridge_status" where
  "WorkerBridge_ChildInit L max_threads =
     \<lparr> worker_of = (\<lambda>w. new_worker L (if w < max_threads then NotStarted else Absent)),
       handler_of = (\<lambda>_. HStart), queue = [], server_shutdown = False, exiting = [],
       workers = map Some [0..<max_threads], next_thread = max_threads, threads_count = 0,
       running_threads_count = 0, shutdown_at = SdIdle, skip_thread_on_exit = 0, not_to_be_waited = 0, ended = False \<rparr>"

abbreviation reach :: "'p worker_lib \<Rightarrow> nat \<Rightarrow> 'p mpm_bridge_status \<Rightarrow> bool" where
  "reach L n \<equiv> reachable (worker_step L) (WorkerBridge_ChildInit L n)"

section \<open>The protocol\<close>

definition idle_pc :: "worker_pc \<Rightarrow> bool" where
  "idle_pc pc \<longleftrightarrow> pc = Pushed \<or> pc = WaitInit True \<or> pc = WaitInit False"

fun phase_ok :: "phase \<Rightarrow> 'p worker \<Rightarrow> bool \<Rightarrow> bool" where
  "phase_ok PQueue x down \<longleftrightarrow> idle_pc (wpc x) \<and> tstatus x = Idle"
| "phase_ok (PLocked h) x down \<longleftrightarrow> idle_pc (wpc x) \<and> tstatus x = Idle"
| "phase_ok (PWait h b) x down \<longleftrightarrow> treq x = Some h \<and>
     (tstatus x = Init \<and> wpc x = WaitInit True
      \<or> tstatus x = Request_processing \<and> (wpc x = Serving \<or> wpc x = Quitting)
      \<or> tstatus x = Done \<and> (wpc x = WaitIdle True \<or> wpc x = WaitIdle False) \<and> b
      \<or> tstatus x = Init \<and> (wpc x = Leaving \<or> wpc x = Gone) \<and> down)"
| "phase_ok PShut x down \<longleftrightarrow> idle_pc (wpc x) \<and> tstatus x = Idle \<and> down"
| "phase_ok PNone x down \<longleftrightarrow> wpc x \<in> {Absent, NotStarted, Leaving, Gone}
     \<or> wpc x = Push \<and> tstatus x = Idle \<or> wpc x = WaitIdle True \<and> tstatus x = Idle
     \<or> wpc x = WaitInit True \<and> tstatus x = Init \<and> down"

text \<open>The phases of all records agree with the threads of httpd, the queue and the shutdown.\<close>

definition protocol :: "(nat \<Rightarrow> phase) \<Rightarrow> 'p mpm_bridge_status \<Rightarrow> bool" where
  "protocol ph s \<longleftrightarrow> distinct (queue s) \<and> (\<forall>w. w \<in> set (queue s) \<longleftrightarrow> ph w = PQueue)
     \<and> (\<forall>h w. handler_of s h = HLock w \<longleftrightarrow> ph w = PLocked h)
     \<and> (\<forall>h w b. handler_of s h = HWait w b \<longleftrightarrow> ph w = PWait h b)
     \<and> (\<forall>w. (\<exists>n. shutdown_at s = SdSignal w n) \<longleftrightarrow> ph w = PShut)
     \<and> (\<forall>w. phase_ok (ph w) (worker_of s w) (server_shutdown s))
     \<and> (shutdown_at s \<noteq> SdIdle \<longleftrightarrow> server_shutdown s)
     \<and> (\<forall>w. next_thread s \<le> w \<longrightarrow> wpc (worker_of s w) = Absent)"

lemma protocol_frame [simp]:
  "protocol ph (s\<lparr>threads_count := a\<rparr>) = protocol ph s" "protocol ph (s\<lparr>running_threads_count := b\<rparr>) = protocol ph s"
  "protocol ph (s\<lparr>exiting := c\<rparr>) = protocol ph s" 
  "protocol ph (s\<lparr>skip_thread_on_exit := e\<rparr>) = protocol ph s" "protocol ph (s\<lparr>ended := f\<rparr>) = protocol ph s" "protocol ph (s\<lparr>not_to_be_waited := nw\<rparr>) = protocol ph s"
  "protocol ph (s\<lparr>workers := g\<rparr>) = protocol ph s"
  "protocol ph (s\<lparr>exiting := c, threads_count := a\<rparr>) = protocol ph s"
  by (simp_all add: protocol_def)

lemma set_worker_fields [simp]:
  "worker_of (set_worker w x s) = (worker_of s)(w := x)" "handler_of (set_worker w x s) = handler_of s"
  "queue (set_worker w x s) = queue s" "server_shutdown (set_worker w x s) = server_shutdown s"
  "shutdown_at (set_worker w x s) = shutdown_at s" "next_thread (set_worker w x s) = next_thread s"
  "exiting (set_worker w x s) = exiting s"
  "ended (set_worker w x s) = ended s" "workers (set_worker w x s) = workers s"
  "skip_thread_on_exit (set_worker w x s) = skip_thread_on_exit s"
  "threads_count (set_worker w x s) = threads_count s"
  "running_threads_count (set_worker w x s) = running_threads_count s"
  by (simp_all add: set_worker_def)

lemma set_handler_fields [simp]:
  "handler_of (set_handler h pc s) = (handler_of s)(h := pc)" "worker_of (set_handler h pc s) = worker_of s"
  "queue (set_handler h pc s) = queue s" "server_shutdown (set_handler h pc s) = server_shutdown s"
  "shutdown_at (set_handler h pc s) = shutdown_at s" "next_thread (set_handler h pc s) = next_thread s"
  "exiting (set_handler h pc s) = exiting s"
  "ended (set_handler h pc s) = ended s" "workers (set_handler h pc s) = workers s"
  by (simp_all add: set_handler_def)

lemma set_worker_exiting: "set_worker w x (s\<lparr>exiting := ps\<rparr>) = (set_worker w x s)\<lparr>exiting := ps\<rparr>"
  by (cases s) (simp add: set_worker_def)

lemma protocolD:
  assumes "protocol ph s"
  shows "distinct (queue s)" "w \<in> set (queue s) \<longleftrightarrow> ph w = PQueue" "handler_of s h = HLock w \<longleftrightarrow> ph w = PLocked h"
    "handler_of s h = HWait w b \<longleftrightarrow> ph w = PWait h b" "(\<exists>n. shutdown_at s = SdSignal w n) \<longleftrightarrow> ph w = PShut"
    "phase_ok (ph w) (worker_of s w) (server_shutdown s)" "shutdown_at s \<noteq> SdIdle \<longleftrightarrow> server_shutdown s"
    "next_thread s \<le> w \<Longrightarrow> wpc (worker_of s w) = Absent"
  using assms by (simp_all add: protocol_def)

text \<open>A step of a Tcl thread that keeps its phase.\<close>

lemma protocol_worker:
  "protocol ph s \<Longrightarrow> phase_ok (ph w) x (server_shutdown s) \<Longrightarrow> wpc (worker_of s w) \<noteq> Absent \<Longrightarrow>
   protocol ph (set_worker w x s)"
  by (auto simp: protocol_def)

lemma phase_of_pc:
  assumes "phase_ok f x down"
  shows "wpc x = NotStarted \<Longrightarrow> f = PNone" "wpc x = Push \<Longrightarrow> f = PNone \<and> tstatus x = Idle"
    "wpc x = Absent \<Longrightarrow> f = PNone"
    "wpc x = Serving \<Longrightarrow> \<exists>h b. f = PWait h b \<and> treq x = Some h \<and> tstatus x = Request_processing"
  using assms by (cases f; auto simp: idle_pc_def)+

lemma init_check_ok:
  assumes "protocol ph s" "wpc (worker_of s w) = Pushed \<or> wpc (worker_of s w) = WaitInit True"
  shows "protocol ph (init_check w s)"
proof -
  have "phase_ok (ph w) (worker_of s w) (server_shutdown s)" using assms(1) by (rule protocolD)
  then show ?thesis
    using assms by (cases "ph w") (auto simp: init_check_def Let_def idle_pc_def intro!: protocol_worker)
qed

lemma idle_check_ok:
  assumes "protocol ph s" "wpc (worker_of s w) = WaitIdle True"
  shows "protocol ph (idle_check w s)"
proof -
  have "phase_ok (ph w) (worker_of s w) (server_shutdown s)" using assms(1) by (rule protocolD)
  then show ?thesis
    using assms by (cases "ph w") (auto simp: idle_check_def Let_def idle_pc_def intro!: protocol_worker)
qed

text \<open>The one thread of httpd a record is waited for by is the one a signal reaches.\<close>

lemma one_holder:
  assumes "users_agree ph (handler_of s)" "ph w = PWait h b"
  shows "signal_handler w s = set_handler h (HWait w True) s"
  by (simp add: signal_handler_def set_handler_def signal_one [OF assms])

lemma protocol_users: "protocol ph s \<Longrightarrow> users_agree ph (handler_of s)"
  unfolding protocol_def users_agree_def by blast

text \<open>The phase of one record and of the thread of httpd that uses it change together.\<close>

lemma protocol_move:
  assumes p: "protocol ph s" and old: "ph w = PLocked h \<or> ph w = PWait h b0"
    and new: "phase_ok f x (server_shutdown s)" "wpc (worker_of s w) \<noteq> Absent"
    and pc: "f = PNone \<and> pc = HDone c \<or> (\<exists>b. f = PWait h b \<and> pc = HWait w b)"
  shows "protocol (ph(w := f)) (set_handler h pc (set_worker w x s))"
proof -
  note u = users_move [OF protocol_users [OF p] old pc]
  have q: "v \<in> set (queue s) \<longleftrightarrow> (ph(w := f)) v = PQueue" for v
    using old pc protocolD(2) [OF p, of v] by (cases "v = w") auto
  have d: "(\<exists>n. shutdown_at s = SdSignal v n) \<longleftrightarrow> (ph(w := f)) v = PShut" for v
    using old pc protocolD(5) [OF p, of v] by (cases "v = w") auto
  have ok: "phase_ok ((ph(w := f)) v) (((worker_of s)(w := x)) v) (server_shutdown s)" for v
    using new(1) protocolD(6) [OF p, of v] by (cases "v = w") simp_all
  have n: "wpc (((worker_of s)(w := x)) v) = Absent" if "next_thread s \<le> v" for v
    using new(2) protocolD(8) [OF p that] by (cases "v = w") simp_all
  show ?thesis
    unfolding protocol_def set_handler_fields set_worker_fields
    using u [unfolded users_agree_def] q d ok n protocolD(1,7) [OF p] by blast
qed

lemma protocol_wait:
  assumes "protocol ph s" "ph w = PWait h b0" "phase_ok (PWait h b) x (server_shutdown s)"
    "wpc (worker_of s w) \<noteq> Absent"
  shows "protocol (ph(w := PWait h b)) (set_handler h (HWait w b) (set_worker w x s))"
  using assms by (intro protocol_move) auto

lemma answer_ok:
  assumes p: "protocol ph s" and w: "wpc (worker_of s w) = Serving" "treq (worker_of s w) = Some r"
  shows "\<exists>ph'. protocol ph' (answer L w r s)"
proof -
  have ok: "phase_ok (ph w) (worker_of s w) (server_shutdown s)" using p by (rule protocolD)
  obtain b where f: "ph w = PWait r b" "tstatus (worker_of s w) = Request_processing"
    using phase_of_pc(4) [OF ok w(1)] w(2) by auto
  obtain p' code exit where res: "send L r (wpriv (worker_of s w)) = (p', code, exit)" by (metis prod_cases3)
  show ?thesis
  proof (cases "exit \<and> \<not> single_exit L")
    case True
    then have "protocol ph (answer L w r s)"
      using protocol_worker [OF p] f w by (simp add: answer_def res Let_def)
    then show ?thesis by blast
  next
    case False
    let ?x = "(worker_of s w)\<lparr>wpriv := p', tcode := code, tstatus := Done,
      keep_going := keep_going (worker_of s w) \<and> \<not> exit, wpc := WaitIdle False, wlog := wlog (worker_of s w) @ [r]\<rparr>"
    have "signal_handler w (set_worker w ?x s) = set_handler r (HWait w True) (set_worker w ?x s)"
      by (rule one_holder [where ph = ph and b = b]) (use protocol_users [OF p] f(1) in simp_all)
    moreover have "protocol (ph(w := PWait r True)) (set_handler r (HWait w True) (set_worker w ?x s))"
      by (rule protocol_wait [OF p f(1)]) (use w in simp_all)
    ultimately have "protocol (ph(w := PWait r True)) (answer L w r s)"
      unfolding answer_def res Let_def prod.case if_not_P [OF False] by (simp only: protocol_frame)
    then show ?thesis by blast
  qed
qed

lemma phase_ok_down: "phase_ok f x down \<Longrightarrow> phase_ok f x True"
  by (cases f) auto

lemma protocol_handler:
  assumes p: "protocol ph s" and h: "handler_of s h = HStart" and pc: "pc = HRefused \<or> pc = HPop"
  shows "protocol ph (set_handler h pc s)"
proof -
  have "ph w \<noteq> PLocked h" "ph w \<noteq> PWait h b" for w b using protocolD(3,4) [OF p, of h w] h by auto
  then show ?thesis using p pc unfolding protocol_def by auto
qed

lemma protocol_step:
  assumes step: "worker_step L s s'" and p: "protocol ph s"
  shows "\<exists>ph'. protocol ph' s'"
  using step
proof cases
  case (thread_starts w)
  have "ph w = PNone" using phase_of_pc(1) protocolD(6) [OF p] thread_starts(3) by blast
  then have "protocol ph (set_worker w ((worker_of s w)\<lparr>wpc := Push, tstatus := Idle\<rparr>) s)"
    using thread_starts(3) by (intro protocol_worker [OF p]) simp_all
  with thread_starts(1) show ?thesis by auto
next
  case (thread_pushes w)
  have w: "ph w = PNone" "tstatus (worker_of s w) = Idle"
    using phase_of_pc(2) protocolD(6) [OF p] thread_pushes(3) by blast+
  have "protocol (ph(w := PQueue)) s'"
    using p w thread_pushes(3) unfolding thread_pushes(1) protocol_def
    by (intro conjI allI) (auto simp: idle_pc_def split: if_splits)
  then show ?thesis by blast
next
  case (thread_waits w)
  then show ?thesis using init_check_ok [OF p] by blast
next
  case (thread_wakes w)
  then show ?thesis using init_check_ok [OF p] by blast
next
  case (thread_serves w r)
  then show ?thesis using answer_ok [OF p] by blast
next
  case (thread_done w)
  then show ?thesis using idle_check_ok [OF p] by blast
next
  case (thread_leaves w)
  have "phase_ok (ph w) (worker_of s w) (server_shutdown s)" using p by (rule protocolD)
  then have "protocol ph (set_worker w ((worker_of s w)\<lparr>wpc := Gone\<rparr>) s)"
    using thread_leaves(3) by (intro protocol_worker [OF p]; cases "ph w") (auto simp: idle_pc_def)
  with thread_leaves(1) show ?thesis by auto
next
  case (spurious_init w)
  have "phase_ok (ph w) (worker_of s w) (server_shutdown s)" using p by (rule protocolD)
  then have "protocol ph s'"
    using spurious_init(3) unfolding spurious_init(1)
    by (intro protocol_worker [OF p]; cases "ph w") (auto simp: idle_pc_def)
  then show ?thesis by blast
next
  case (spurious_idle w)
  have "phase_ok (ph w) (worker_of s w) (server_shutdown s)" using p by (rule protocolD)
  then have "protocol ph s'"
    using spurious_idle(3) unfolding spurious_idle(1)
    by (intro protocol_worker [OF p]; cases "ph w") (auto simp: idle_pc_def)
  then show ?thesis by blast
next
  case (supervisor ps tid)
  have n: "ph (next_thread s) = PNone"
    using phase_of_pc(3) protocolD(6,8) [OF p] by blast
  have "protocol ph s'"
    using p n unfolding supervisor(1) restart_thread_def protocol_def
    by (auto simp: new_worker_def split: option.split)
  then show ?thesis by blast
next
  case (request_refused h)
  have "protocol ph s'" using protocol_handler [OF p request_refused(3)] by (simp add: request_refused(1))
  then show ?thesis by blast
next
  case (request_arrives h)
  have "protocol ph s'" using protocol_handler [OF p request_arrives(3)] by (simp add: request_arrives(1))
  then show ?thesis by blast
next
  case (request_pops h w ws)
  have "ph w = PQueue" using protocolD(2) [OF p, of w] request_pops(4) by simp
  moreover have "ph v \<noteq> PLocked h" "ph v \<noteq> PWait h b" for v b
    using protocolD(3,4) [OF p, of h v] request_pops(3) by auto
  ultimately have "protocol (ph(w := PLocked h)) s'"
    using protocolD(6) [OF p, of w] p request_pops(3,4) unfolding request_pops(1) protocol_def
    by (intro conjI allI) (auto split: if_splits)
  then show ?thesis by blast
next
  case (request_posted h w)
  have w: "ph w = PLocked h" "idle_pc (wpc (worker_of s w))"
    using protocolD(3,6) [OF p] request_posted(3) phase_ok.simps(2) by metis+
  have "protocol (ph(w := PWait h False)) s'" unfolding request_posted(1)
    by (rule protocol_move [OF p disjI1 [OF w(1)], where c = 0])
      (use w(2) request_posted(4) in \<open>auto simp: idle_pc_def holds_mutex_def signalled_def\<close>)
  then show ?thesis by blast
next
  case (request_wakes h w)
  have w: "ph w = PWait h True" using protocolD(4) [OF p] request_wakes(3) by metis
  have "phase_ok (PWait h True) (worker_of s w) (server_shutdown s)" using protocolD(6) [OF p, of w] w by simp
  then have "phase_ok (PWait h False) (worker_of s w) (server_shutdown s)" "wpc (worker_of s w) \<noteq> Absent"
    using request_wakes(5) by auto
  from protocol_wait [OF p w this] have "protocol (ph(w := PWait h False)) s'"
    by (simp add: request_wakes(1) set_worker_def)
  then show ?thesis by blast
next
  case (request_done h w)
  have w: "ph w = PWait h True" using protocolD(4) [OF p] request_done(3) by metis
  have "phase_ok (PWait h True) (worker_of s w) (server_shutdown s)" using protocolD(6) [OF p, of w] w by simp
  then have x: "wpc (worker_of s w) = WaitIdle True \<or> wpc (worker_of s w) = WaitIdle False"
    using request_done(5) by auto
  have "protocol (ph(w := PNone)) s'" unfolding request_done(1)
    by (rule protocol_move [OF p disjI2 [OF w], where c = "tcode (worker_of s w)"])
      (use x in \<open>auto simp: signalled_def\<close>)
  then show ?thesis by blast
next
  case (request_spurious h w)
  have w: "ph w = PWait h False" using protocolD(4) [OF p] request_spurious(3) by metis
  have "phase_ok (PWait h False) (worker_of s w) (server_shutdown s)" using protocolD(6) [OF p, of w] w by simp
  then have "phase_ok (PWait h True) (worker_of s w) (server_shutdown s)" "wpc (worker_of s w) \<noteq> Absent"
    by auto
  from protocol_wait [OF p w this] have "protocol (ph(w := PWait h True)) s'"
    by (simp add: request_spurious(1) set_worker_def)
  then show ?thesis by blast
next
  case shutdown_starts
  have "phase_ok (ph w) (worker_of s w) True" for w
    using phase_ok_down protocolD(6) [OF p, of w] by blast
  then have "protocol ph s'" using p shutdown_starts(3) unfolding shutdown_starts(1) protocol_def by auto
  then show ?thesis by blast
next
  case (shutdown_empty waits n)
  then have "protocol ph s'" using p unfolding shutdown_empty(1) protocol_def by (auto simp: shutdown_loop_def)
  then show ?thesis by blast
next
  case (shutdown_pops waits n w ws)
  have "ph w = PQueue" using protocolD(2) [OF p, of w] shutdown_pops(4) by simp
  moreover have "ph v \<noteq> PShut" for v using protocolD(5) [OF p, of v] shutdown_pops(3) by auto
  ultimately have "protocol (ph(w := PShut)) s'"
    using protocolD(6) [OF p, of w] protocolD(7) [OF p] p shutdown_pops(3,4) unfolding shutdown_pops(1) protocol_def
    by (intro conjI allI) (auto split: if_splits)
  then show ?thesis by blast
next
  case (shutdown_signals w waits)
  have w: "ph w = PShut" using protocolD(5) [OF p] shutdown_signals(3) by blast
  have "idle_pc (wpc (worker_of s w))" "server_shutdown s" using protocolD(6) [OF p, of w] w by simp_all
  then have "protocol (ph(w := PNone)) s'"
    using p w shutdown_signals(3,4) unfolding shutdown_signals(1) protocol_def
    by (intro conjI allI) (auto simp: signalled_def idle_pc_def holds_mutex_def shutdown_loop_def split: if_splits)
  then show ?thesis by blast
next
  case (process_ends w)
  have "protocol ph s'" using p unfolding process_ends(1) by simp
  then show ?thesis by blast
qed

lemma protocol_start: "protocol (\<lambda>_. PNone) (WorkerBridge_ChildInit L n)"
  by (auto simp: WorkerBridge_ChildInit_def protocol_def new_worker_def)

section \<open>Who answers a request\<close>

text \<open>The private data of a Tcl thread after the requests of a list, and the status it then gives to one.\<close>

definition state_after :: "'p worker_lib \<Rightarrow> nat list \<Rightarrow> 'p" where
  "state_after L hs = foldl (\<lambda>p h. fst (send L h p)) (fresh L) hs"

definition code_after :: "'p worker_lib \<Rightarrow> nat list \<Rightarrow> nat \<Rightarrow> int" where
  "code_after L hs h = fst (snd (send L h (state_after L hs)))"

text \<open>The answers given, those posted in a record included.\<close>

definition posted :: "'p mpm_bridge_status \<Rightarrow> nat \<Rightarrow> int option" where
  "posted s w = (if tstatus (worker_of s w) = Done then Some (tcode (worker_of s w)) else None)"

definition answered :: "'p mpm_bridge_status \<Rightarrow> nat \<Rightarrow> int option" where
  "answered s = answer_seen (handler_of s) (posted s)"

definition log_ok :: "'p worker_lib \<Rightarrow> 'p worker \<Rightarrow> bool" where
  "log_ok L x \<longleftrightarrow> (wpc x \<noteq> Quitting \<longrightarrow> wpriv x = state_after L (wlog x)) \<and> (wpc x = Absent \<longrightarrow> wlog x = [])"

definition logs :: "'p mpm_bridge_status \<Rightarrow> nat \<Rightarrow> nat list" where
  "logs s w = wlog (worker_of s w)"

text \<open>Steps that serve nobody.\<close>

definition quiet :: "'p worker_lib \<Rightarrow> 'p mpm_bridge_status \<Rightarrow> 'p mpm_bridge_status \<Rightarrow> bool" where
  "quiet L s s' \<longleftrightarrow> answered s' = answered s \<and> logs s' = logs s \<and> (\<forall>w. log_ok L (worker_of s' w))"

lemma answered_cong: "worker_of s' = worker_of s \<Longrightarrow> handler_of s' = handler_of s \<Longrightarrow> answered s' = answered s"
  unfolding answered_def answer_seen_def posted_def by (simp only:)

lemma answered_frame [simp]:
  "answered (s\<lparr>threads_count := a\<rparr>) = answered s" "answered (s\<lparr>running_threads_count := a\<rparr>) = answered s"
  "answered (s\<lparr>exiting := c\<rparr>) = answered s"
  "answered (s\<lparr>skip_thread_on_exit := a\<rparr>) = answered s" "answered (s\<lparr>ended := f\<rparr>) = answered s"
  "answered (s\<lparr>workers := g\<rparr>) = answered s" "answered (s\<lparr>queue := q\<rparr>) = answered s"
  "answered (s\<lparr>shutdown_at := u\<rparr>) = answered s" "answered (s\<lparr>server_shutdown := f\<rparr>) = answered s"
  "answered (s\<lparr>next_thread := a\<rparr>) = answered s" "answered (s\<lparr>not_to_be_waited := a\<rparr>) = answered s"
  by (rule answered_cong; simp)+

lemma logs_frame [simp]:
  "logs (s\<lparr>threads_count := a\<rparr>) = logs s" "logs (s\<lparr>running_threads_count := a\<rparr>) = logs s"
  "logs (s\<lparr>exiting := c\<rparr>) = logs s"
  "logs (s\<lparr>skip_thread_on_exit := a\<rparr>) = logs s" "logs (s\<lparr>ended := f\<rparr>) = logs s"
  "logs (s\<lparr>workers := g\<rparr>) = logs s" "logs (s\<lparr>queue := q\<rparr>) = logs s"
  "logs (s\<lparr>shutdown_at := u\<rparr>) = logs s" "logs (s\<lparr>server_shutdown := f\<rparr>) = logs s"
  "logs (s\<lparr>next_thread := a\<rparr>) = logs s" "logs (s\<lparr>not_to_be_waited := a\<rparr>) = logs s" "logs (set_handler h pc s) = logs s"
  by (simp_all add: logs_def fun_eq_iff)

lemma logs_set_worker: "wlog x = logs s w \<Longrightarrow> logs (set_worker w x s) = logs s"
  by (simp add: logs_def fun_eq_iff)

lemma answered_set_worker:
  assumes "\<And>h b. handler_of s h = HWait w b \<Longrightarrow>
    (if tstatus x = Done then Some (tcode x) else None)
      = (if tstatus (worker_of s w) = Done then Some (tcode (worker_of s w)) else None)"
  shows "answered (set_worker w x s) = answered s"
proof
  fix h
  show "answered (set_worker w x s) h = answered s h"
  proof (cases "handler_of s h")
    case (HWait v b)
    then show ?thesis using assms [of h b] by (cases "v = w") (simp_all add: answered_def answer_seen_def posted_def split: if_splits)
  qed (simp_all add: answered_def answer_seen_def posted_def)
qed

lemma answered_set_handler:
  assumes "(case pc of HDone c \<Rightarrow> Some c
    | HWait v b \<Rightarrow> if tstatus (worker_of s v) = Done then Some (tcode (worker_of s v)) else None | _ \<Rightarrow> None) = answered s h"
  shows "answered (set_handler h pc s) = answered s"
proof
  fix k
  show "answered (set_handler h pc s) k = answered s k"
    using assms unfolding answered_def answer_seen_def posted_def set_handler_fields by (cases "k = h") simp_all
qed

text \<open>A Tcl thread that moves without a change of the answer it holds.\<close>

lemma quiet_worker:
  assumes r: "\<forall>w. log_ok L (worker_of s w)" and log: "wlog x = wlog (worker_of s w)"
    and ok: "wpc x \<noteq> Quitting \<longrightarrow> wpc (worker_of s w) \<noteq> Quitting \<and> wpriv x = wpriv (worker_of s w)" "wpc x \<noteq> Absent"
    and ans: "\<And>h b. handler_of s h = HWait w b \<Longrightarrow>
      (if tstatus x = Done then Some (tcode x) else None)
        = (if tstatus (worker_of s w) = Done then Some (tcode (worker_of s w)) else None)"
  shows "quiet L s (set_worker w x s)"
proof -
  have "log_ok L (worker_of (set_worker w x s) v)" for v
    using r ok log by (cases "v = w") (auto simp: log_ok_def)
  then show ?thesis
    using answered_set_worker [OF ans] log by (simp add: quiet_def logs_set_worker logs_def)
qed

lemma quiet_frame [simp]:
  "quiet L s (s'\<lparr>threads_count := a\<rparr>) = quiet L s s'" "quiet L s (s'\<lparr>running_threads_count := a\<rparr>) = quiet L s s'"
  "quiet L s (s'\<lparr>exiting := c\<rparr>) = quiet L s s'" "quiet L s (s'\<lparr>skip_thread_on_exit := a\<rparr>) = quiet L s s'"
  "quiet L s (s'\<lparr>ended := f\<rparr>) = quiet L s s'" "quiet L s (s'\<lparr>workers := g\<rparr>) = quiet L s s'"
  "quiet L s (s'\<lparr>queue := q\<rparr>) = quiet L s s'" "quiet L s (s'\<lparr>shutdown_at := u\<rparr>) = quiet L s s'"
  "quiet L s (s'\<lparr>server_shutdown := f\<rparr>) = quiet L s s'" "quiet L s (s'\<lparr>next_thread := a\<rparr>) = quiet L s s'"
  by (simp_all add: quiet_def)

text \<open>The step that serves a request.\<close>

definition serves :: "'p worker_lib \<Rightarrow> 'p mpm_bridge_status \<Rightarrow> 'p mpm_bridge_status \<Rightarrow> bool" where
  "serves L s s' \<longleftrightarrow> (\<exists>h w. answered s h = None \<and> answered s' = (answered s)(h \<mapsto> code_after L (logs s w) h)
     \<and> logs s' = (logs s)(w := logs s w @ [h])) \<and> (\<forall>w. log_ok L (worker_of s' w))"

lemma answer_serves:
  assumes p: "protocol ph s" and ok: "\<forall>w. log_ok L (worker_of s w)"
    and w: "wpc (worker_of s w) = Serving" "treq (worker_of s w) = Some h"
  shows "quiet L s (answer L w h s) \<or> serves L s (answer L w h s)"
proof -
  let ?x = "worker_of s w"
  obtain p' code exit where res: "send L h (wpriv ?x) = (p', code, exit)" by (metis prod_cases3)
  obtain b where f: "ph w = PWait h b" "tstatus ?x = Request_processing"
    using phase_of_pc(4) [OF protocolD(6) [OF p] w(1)] w(2) by auto
  have hw: "handler_of s k = HWait w b' \<longleftrightarrow> k = h \<and> b' = b" for k b'
    using protocolD(4) [OF p, of k w b'] f(1) by auto
  show ?thesis
  proof (cases "exit \<and> \<not> single_exit L")
    case True
    have "quiet L s (set_worker w (?x\<lparr>wpriv := p', keep_going := False, wpc := Quitting\<rparr>) s)"
      using ok f(2) by (intro quiet_worker) simp_all
    then show ?thesis using True by (simp add: answer_def res Let_def)
  next
    case False
    let ?y = "?x\<lparr>wpriv := p', tcode := code, tstatus := Done,
      keep_going := keep_going ?x \<and> \<not> exit, wpc := WaitIdle False, wlog := wlog ?x @ [h]\<rparr>"
    let ?t = "set_handler h (HWait w True) (set_worker w ?y s)"
    have "signal_handler w (set_worker w ?y s) = ?t"
      by (rule one_holder [where ph = ph and b = b]) (use protocol_users [OF p] f(1) in simp_all)
    then have s': "answer L w h s = ?t"
      unfolding answer_def res Let_def prod.case if_not_P [OF False] by simp
    have none: "answered s h = None" using hw [of h b] f(2) by (simp add: answered_def answer_seen_def posted_def)
    have code: "code = code_after L (logs s w) h"
      using ok [THEN spec, of w] w(1) res by (simp add: log_ok_def code_after_def logs_def)
    have ans: "answered ?t = (answered s)(h \<mapsto> code)"
    proof
      fix k
      show "answered ?t k = ((answered s)(h \<mapsto> code)) k"
      proof (cases "handler_of s k")
        case (HWait v c)
        then show ?thesis using hw [of k c] by (cases "k = h"; cases "v = w") (simp_all add: answered_def answer_seen_def posted_def)
      qed (simp_all add: answered_def answer_seen_def posted_def)
    qed
    have lg: "logs ?t = (logs s)(w := logs s w @ [h])" by (auto simp: logs_def fun_eq_iff)
    have "log_ok L (worker_of ?t v)" for v
      using ok [THEN spec, of v] ok [THEN spec, of w] w(1) res
      by (cases "v = w") (simp_all add: log_ok_def state_after_def)
    then show ?thesis using none ans lg code unfolding s' serves_def by blast
  qed
qed

text \<open>The status of a record while its Tcl thread is at a given point: no answer is read there.\<close>

lemma no_answer:
  assumes p: "protocol ph s" and pc: "wpc (worker_of s w) \<notin> {WaitIdle True, WaitIdle False}"
  shows "handler_of s h = HWait w b \<Longrightarrow> tstatus (worker_of s w) \<noteq> Done"
proof -
  assume "handler_of s h = HWait w b"
  then have "phase_ok (PWait h b) (worker_of s w) (server_shutdown s)"
    using protocolD(4) [OF p] protocolD(6) [OF p, of w] by metis
  then show ?thesis using pc by auto
qed

lemma quiet_init_check:
  assumes "protocol ph s" "\<forall>w. log_ok L (worker_of s w)" "wpc (worker_of s w) = Pushed \<or> wpc (worker_of s w) = WaitInit True"
  shows "quiet L s (init_check w s)"
proof -
  have n: "handler_of s h = HWait w b \<Longrightarrow> tstatus (worker_of s w) \<noteq> Done" for h b
    using no_answer [OF assms(1)] assms(3) by auto
  note q = quiet_worker [where s = s and L = L and w = w]
  show ?thesis
    using assms(2,3) n by (auto simp: init_check_def Let_def intro!: q)
qed

lemma quiet_or_serves:
  assumes step: "worker_step L s s'" and p: "protocol ph s" and ok: "\<forall>w. log_ok L (worker_of s w)"
  shows "quiet L s s' \<or> serves L s s'"
proof -
  note q = quiet_worker [OF ok]
  show ?thesis
    using step
  proof cases
    case (thread_starts w)
    with no_answer [OF p, of w] show ?thesis by (auto intro!: q)
  next
    case (thread_pushes w)
    then show ?thesis by (auto intro!: q)
  next
    case (thread_waits w)
    then show ?thesis using quiet_init_check [OF p ok] by blast
  next
    case (thread_wakes w)
    then show ?thesis using quiet_init_check [OF p ok] by blast
  next
    case (thread_serves w h)
    then show ?thesis using answer_serves [OF p ok] by blast
  next
    case (thread_done w)
    then show ?thesis by (auto simp: idle_check_def Let_def intro!: q)
  next
    case (thread_leaves w)
    then show ?thesis by (auto intro!: q)
  next
    case (spurious_init w)
    then show ?thesis by (auto intro!: q)
  next
    case (spurious_idle w)
    then show ?thesis by (auto intro!: q)
  next
    case (supervisor ps tid)
    let ?n = "next_thread s"
    have n: "ph ?n = PNone" "wpc (worker_of s ?n) = Absent"
      using phase_of_pc(3) protocolD(6,8) [OF p] by blast+
    have log: "wlog (worker_of s ?n) = []" using ok n(2) by (simp add: log_ok_def)
    have h: "handler_of s h \<noteq> HWait ?n b" for h b using protocolD(4) [OF p, of h ?n b] n(1) by simp
    have "quiet L s (set_worker ?n (new_worker L NotStarted) s)"
      using ok log answered_set_worker [of s ?n "new_worker L NotStarted"] h
      by (auto simp: quiet_def logs_set_worker logs_def new_worker_def log_ok_def state_after_def)
    moreover have "quiet L s s" using ok by (simp add: quiet_def)
    ultimately have "quiet L s s'"
      unfolding supervisor(1) restart_thread_def by (simp add: set_worker_exiting split: option.split)
    then show ?thesis ..
  next
    case (request_refused h)
    have "answered s h = None" using request_refused(3) by (simp add: answered_def answer_seen_def posted_def)
    then have "answered s' = answered s" unfolding request_refused(1) by (intro answered_set_handler) simp
    then show ?thesis using ok by (simp add: quiet_def request_refused(1))
  next
    case (request_arrives h)
    have "answered s h = None" using request_arrives(3) by (simp add: answered_def answer_seen_def posted_def)
    then have "answered s' = answered s" unfolding request_arrives(1) by (intro answered_set_handler) simp
    then show ?thesis using ok by (simp add: quiet_def request_arrives(1))
  next
    case (request_pops h w ws)
    have "answered s h = None" using request_pops(3) by (simp add: answered_def answer_seen_def posted_def)
    then have "answered s' = answered s" unfolding request_pops(1) answered_frame by (intro answered_set_handler) simp
    then show ?thesis using ok by (simp add: quiet_def request_pops(1))
  next
    case (request_posted h w)
    let ?x = "signalled ((worker_of s w)\<lparr>treq := Some h, tstatus := Init, tcode := 0\<rparr>)"
    have w: "ph w = PLocked h" "idle_pc (wpc (worker_of s w))"
      using protocolD(3,6) [OF p] request_posted(3) phase_ok.simps(2) by metis+
    have n: "handler_of s k \<noteq> HWait w b" for k b using protocolD(4) [OF p, of k w b] w(1) by simp
    have q': "quiet L s (set_worker w ?x s)"
      by (rule q) (use w(2) n in \<open>auto simp: signalled_def idle_pc_def\<close>)
    have "answered (set_handler h (HWait w False) (set_worker w ?x s)) = answered (set_worker w ?x s)"
      by (rule answered_set_handler) (use request_posted(3) in \<open>simp add: answered_def answer_seen_def posted_def signalled_def\<close>)
    with q' have "quiet L s s'" unfolding request_posted(1) by (simp add: quiet_def)
    then show ?thesis ..
  next
    case (request_wakes h w)
    have "answered s' = answered s"
      unfolding request_wakes(1) by (rule answered_set_handler) (use request_wakes(3) in \<open>simp add: answered_def answer_seen_def posted_def\<close>)
    then show ?thesis using ok by (simp add: quiet_def request_wakes(1))
  next
    case (request_done h w)
    let ?x = "signalled ((worker_of s w)\<lparr>tstatus := Idle\<rparr>)" and ?c = "tcode (worker_of s w)"
    have w: "ph w = PWait h True" using protocolD(4) [OF p] request_done(3) by metis
    then have x: "wpc (worker_of s w) = WaitIdle True \<or> wpc (worker_of s w) = WaitIdle False"
      using protocolD(6) [OF p, of w] request_done(5) by auto
    let ?t = "set_handler h (HDone ?c) s"
    have a: "answered ?t = answered s"
      by (rule answered_set_handler) (use request_done(3,5) in \<open>simp add: answered_def answer_seen_def posted_def\<close>)
    have n: "handler_of ?t k \<noteq> HWait w b" for k b using protocolD(4) [OF p, of k w b] w by auto
    have "answered (set_worker w ?x ?t) = answered ?t" by (rule answered_set_worker) (use n in blast)
    moreover have "s' = set_worker w ?x ?t" by (simp add: request_done(1) set_worker_def set_handler_def)
    moreover have "log_ok L ?x" using ok [THEN spec, of w] x by (auto simp: log_ok_def signalled_def)
    ultimately have "quiet L s s'"
      using a ok by (auto simp: quiet_def logs_set_worker logs_def signalled_def)
    then show ?thesis ..
  next
    case (request_spurious h w)
    have "answered s' = answered s"
      unfolding request_spurious(1) by (rule answered_set_handler) (use request_spurious(3) in \<open>simp add: answered_def answer_seen_def posted_def\<close>)
    then show ?thesis using ok by (simp add: quiet_def request_spurious(1))
  next
    case shutdown_starts
    then show ?thesis using ok by (auto simp: quiet_def)
  next
    case (shutdown_empty waits n)
    then show ?thesis using ok by (auto simp: quiet_def)
  next
    case (shutdown_pops waits n w ws)
    then show ?thesis using ok by (auto simp: quiet_def)
  next
    case (shutdown_signals w waits)
    let ?x = "signalled ((worker_of s w)\<lparr>tstatus := Init\<rparr>)"
    have w: "ph w = PShut" using protocolD(5) [OF p] shutdown_signals(3) by blast
    then have i: "idle_pc (wpc (worker_of s w))" using protocolD(6) [OF p, of w] by simp
    have n: "handler_of s k \<noteq> HWait w b" for k b using protocolD(4) [OF p, of k w b] w(1) by simp
    have "quiet L s (set_worker w ?x s)" by (rule q) (use i n in \<open>auto simp: signalled_def idle_pc_def\<close>)
    then show ?thesis by (simp add: shutdown_signals(1))
  next
    case (process_ends w)
    then show ?thesis using ok by (auto simp: quiet_def)
  qed
qed

definition bridge_inv :: "'p worker_lib \<Rightarrow> 'p mpm_bridge_status \<Rightarrow> bool" where
  "bridge_inv L s \<longleftrightarrow> (\<exists>ph. protocol ph s) \<and> (\<forall>w. log_ok L (worker_of s w))
     \<and> (ended s \<longrightarrow> server_shutdown s)"

lemma ended_down:
  assumes "protocol ph s" "ended s \<longrightarrow> server_shutdown s" "worker_step L s s'"
  shows "ended s' \<longrightarrow> server_shutdown s'"
  using assms(3) protocolD(7) [OF assms(1)] assms(2)
  by cases (auto simp: init_check_def idle_check_def answer_def restart_thread_def signal_handler_def signal_waiting_def Let_def
    set_worker_def set_handler_def split: if_splits option.splits prod.splits)

lemma bridge_inv_step:
  assumes i: "bridge_inv L s" and step: "worker_step L s s'"
  shows "bridge_inv L s'" "answered s' = answered s \<and> logs s' = logs s
      \<or> (\<exists>h w. answered s h = None \<and> answered s' = (answered s)(h \<mapsto> code_after L (logs s w) h)
           \<and> logs s' = (logs s)(w := logs s w @ [h]))"
proof -
  obtain ph where p: "protocol ph s" and ok: "\<forall>w. log_ok L (worker_of s w)" and e: "ended s \<longrightarrow> server_shutdown s"
    using i unfolding bridge_inv_def by blast
  have q: "quiet L s s' \<or> serves L s s'" by (rule quiet_or_serves [OF step p ok])
  then have "\<forall>w. log_ok L (worker_of s' w)" unfolding quiet_def serves_def by blast
  then show "bridge_inv L s'"
    unfolding bridge_inv_def using protocol_step [OF step p] ended_down [OF p e step] by blast
  show "answered s' = answered s \<and> logs s' = logs s
      \<or> (\<exists>h w. answered s h = None \<and> answered s' = (answered s)(h \<mapsto> code_after L (logs s w) h)
           \<and> logs s' = (logs s)(w := logs s w @ [h]))"
    using q unfolding quiet_def serves_def by blast
qed

interpretation wk: answering "worker_step L" "WorkerBridge_ChildInit L n" "bridge_inv L" answered logs "code_after L"
  for L n
proof
  show "bridge_inv L (WorkerBridge_ChildInit L n)"
    unfolding bridge_inv_def using protocol_start
    by (auto simp: WorkerBridge_ChildInit_def new_worker_def log_ok_def state_after_def)
  show "answered (WorkerBridge_ChildInit L n) h = None" "logs (WorkerBridge_ChildInit L n) w = []" for h w
    by (simp_all add: WorkerBridge_ChildInit_def answered_def answer_seen_def posted_def logs_def new_worker_def)
qed (rule bridge_inv_step; assumption)+

lemma reach_protocol: "reach L n s \<Longrightarrow> \<exists>ph. protocol ph s"
  using wk.reachable_inv unfolding bridge_inv_def by blast

section \<open>Requests are answered\<close>

text \<open>What a Tcl thread and a thread of httpd do next, a wait that is over included.\<close>

definition thread_turn :: "'p worker_lib \<Rightarrow> nat \<Rightarrow> 'p mpm_bridge_status \<Rightarrow> 'p mpm_bridge_status option" where
  "thread_turn L w s =
     (let x = worker_of s w in
      if ended s then None
      else case wpc x of
        NotStarted \<Rightarrow> Some ((set_worker w (x\<lparr>wpc := Push, tstatus := Idle\<rparr>) s)\<lparr>threads_count := threads_count s + 1\<rparr>)
      | Push \<Rightarrow> if length (queue s) < MOD_RIVET_QUEUE_SIZE
                then Some ((set_worker w (x\<lparr>wpc := Pushed\<rparr>) s)\<lparr>queue := queue s @ [w]\<rparr>) else None
      | Pushed \<Rightarrow> Some (init_check w s)
      | WaitInit b \<Rightarrow> if b then Some (init_check w s) else None
      | Serving \<Rightarrow> map_option (\<lambda>r. answer L w r s) (treq x)
      | WaitIdle b \<Rightarrow> if b then Some (idle_check w s) else None
      | Leaving \<Rightarrow> Some ((set_worker w (x\<lparr>wpc := Gone\<rparr>) s)
                     \<lparr>exiting := exiting s @ [w], threads_count := threads_count s - 1\<rparr>)
      | _ \<Rightarrow> None)"

definition handler_turn :: "nat \<Rightarrow> 'p mpm_bridge_status \<Rightarrow> 'p mpm_bridge_status option" where
  "handler_turn h s =
     (if ended s then None
      else case handler_of s h of
        HPop \<Rightarrow> (case queue s of [] \<Rightarrow> None | w # ws \<Rightarrow> Some ((set_handler h (HLock w) s)\<lparr>queue := ws\<rparr>))
      | HLock w \<Rightarrow> if holds_mutex (wpc (worker_of s w)) then None
          else Some (set_handler h (HWait w False)
                 (set_worker w (signalled ((worker_of s w)\<lparr>treq := Some h, tstatus := Init, tcode := 0\<rparr>)) s))
      | HWait w b \<Rightarrow> if \<not> b \<or> holds_mutex (wpc (worker_of s w)) then None
          else if tstatus (worker_of s w) = Done
          then Some (set_handler h (HDone (tcode (worker_of s w)))
                 (set_worker w (signalled ((worker_of s w)\<lparr>tstatus := Idle\<rparr>)) s))
          else Some (set_handler h (HWait w False) s)
      | _ \<Rightarrow> None)"

text \<open>A request arrives when its client likes.\<close>

definition request_turn :: "nat \<Rightarrow> 'p mpm_bridge_status \<Rightarrow> 'p mpm_bridge_status option" where
  "request_turn h s =
     (if ended s \<or> handler_of s h \<noteq> HStart then None
      else Some (set_handler h (if server_shutdown s then HRefused else HPop) s))"

lemma request_turn_step: "request_turn h s = Some s' \<Longrightarrow> worker_step L s s'"
  by (auto simp: request_turn_def split: if_splits intro: worker_step.intros)

lemma thread_turn_step: "thread_turn L w s = Some s' \<Longrightarrow> worker_step L s s'"
  unfolding thread_turn_def Let_def
  by (cases "wpc (worker_of s w)") (auto simp del: One_nat_def split: if_splits intro: worker_step.intros)

lemma handler_turn_step: "handler_turn h s = Some s' \<Longrightarrow> worker_step L s s'"
  unfolding handler_turn_def
  by (cases "handler_of s h"; cases "queue s") (auto simp del: One_nat_def split: if_splits intro: worker_step.intros)

text \<open>The way of a request from the record its thread popped to the answer.\<close>

fun stage :: "nat \<Rightarrow> nat \<Rightarrow> nat \<Rightarrow> 'p mpm_bridge_status \<Rightarrow> bool" where
  "stage w h 0 s \<longleftrightarrow> (\<exists>c. handler_of s h = HDone c)"
| "stage w h (Suc 0) s \<longleftrightarrow> handler_of s h = HWait w True \<and> tstatus (worker_of s w) = Done
     \<and> wpc (worker_of s w) \<in> {WaitIdle True, WaitIdle False}"
| "stage w h (Suc (Suc 0)) s \<longleftrightarrow> (\<exists>b. handler_of s h = HWait w b) \<and> wpc (worker_of s w) = Serving
     \<and> treq (worker_of s w) = Some h"
| "stage w h (Suc (Suc (Suc 0))) s \<longleftrightarrow> (\<exists>b. handler_of s h = HWait w b) \<and> wpc (worker_of s w) = WaitInit True
     \<and> tstatus (worker_of s w) = Init \<and> treq (worker_of s w) = Some h"
| "stage w h (Suc (Suc (Suc (Suc 0)))) s \<longleftrightarrow> handler_of s h = HLock w
     \<and> wpc (worker_of s w) \<in> {WaitInit True, WaitInit False} \<and> tstatus (worker_of s w) = Idle"
| "stage w h (Suc (Suc (Suc (Suc (Suc 0))))) s \<longleftrightarrow> handler_of s h = HLock w
     \<and> wpc (worker_of s w) = Pushed \<and> tstatus (worker_of s w) = Idle"
| "stage w h _ s \<longleftrightarrow> False"

text \<open>What other threads do leaves a stage alone.\<close>

definition same_view :: "nat \<Rightarrow> nat \<Rightarrow> 'p mpm_bridge_status \<Rightarrow> 'p mpm_bridge_status \<Rightarrow> bool" where
  "same_view w h s s' \<longleftrightarrow> worker_of s' w = worker_of s w \<and> handler_of s' h = handler_of s h"

lemma stage_same: "same_view w h s s' \<Longrightarrow> stage w h k s = stage w h k s'"
  by (cases "(w, h, k, s)" rule: stage.cases) (simp_all add: same_view_def)

lemma stage_phase:
  assumes "protocol ph s" "stage w h (Suc k) s"
  shows "ph w = PLocked h \<or> (\<exists>b. ph w = PWait h b)" "wpc (worker_of s w) \<noteq> Absent"
    "wpc (worker_of s w) \<in> {Pushed, WaitInit True, WaitInit False, Serving, WaitIdle True, WaitIdle False}"
    "(\<exists>b. handler_of s h = HWait w b) \<or> handler_of s h = HLock w"
  using assms(2) protocolD(3,4) [OF assms(1)]
  by (cases "(w, h, Suc k, s)" rule: stage.cases; fastforce)+

lemma stage_other_handler:
  assumes "protocol ph s" "stage w h (Suc k) s" "handler_of s g = HLock w \<or> handler_of s g = HWait w b"
  shows "g = h"
  using stage_phase(1) [OF assms(1,2)] assms(3) protocolD(3,4) [OF assms(1), of g w] by auto

lemma stage_lower: "stage w h k s \<or> (\<exists>j. k = Suc j \<and> stage w h j s) \<Longrightarrow> \<exists>m\<le>k. stage w h m s"
  by (metis le_SucI order_refl)

text \<open>The Tcl thread of the record.\<close>

lemma stage_thread:
  assumes s: "stage w h (Suc k) s" and down: "\<not> server_shutdown s" and L: "single_exit L"
    and s': "wpc (worker_of s w) = Pushed \<and> s' = init_check w s \<or> wpc (worker_of s w) = WaitInit True \<and> s' = init_check w s
      \<or> (\<exists>r. wpc (worker_of s w) = Serving \<and> treq (worker_of s w) = Some r \<and> s' = answer L w r s)
      \<or> wpc (worker_of s w) = WaitIdle True \<and> s' = idle_check w s"
  shows "\<exists>m\<le>Suc k. stage w h m s'"
proof -
  have "stage w h (Suc k) s' \<or> (\<exists>j. Suc k = Suc j \<and> stage w h j s')"
  proof (cases "(w, h, Suc k, s)" rule: stage.cases)
  case (2 w h s)
  then show ?thesis
    using s s' by (auto simp: idle_check_def Let_def)
next
  case (3 w h s)
  then have x: "wpc (worker_of s w) = Serving" "treq (worker_of s w) = Some h" using s by simp_all
  obtain b where h: "handler_of s h = HWait w b" using 3 s by auto
  obtain p' code exit where res: "send L h (wpriv (worker_of s w)) = (p', code, exit)" by (metis prod_cases3)
  have "s' = answer L w h s" using s' x 3 by auto
  then have "stage w h (Suc 0) s'" using h L by (simp add: answer_def res Let_def signal_handler_def signal_waiting_def)
  then show ?thesis using 3 by simp
next
  case (4 w h s)
  then show ?thesis
    using s s' down by (auto simp: init_check_def Let_def)
next
  case (5 w h s)
  then show ?thesis
    using s s' down by (auto simp: init_check_def Let_def)
next
  case (6 w h s)
  then show ?thesis
    using s s' down by (auto simp: init_check_def Let_def)
qed (use s in auto)
  then show ?thesis by (rule stage_lower)
qed

text \<open>The thread of httpd.\<close>

lemma stage_handler:
  assumes s: "stage w h (Suc k) s" and free: "\<not> holds_mutex (wpc (worker_of s w))"
    and s': "handler_of s h = HLock w \<and> s' = set_handler h (HWait w False)
        (set_worker w (signalled ((worker_of s w)\<lparr>treq := Some h, tstatus := Init, tcode := 0\<rparr>)) s)
      \<or> handler_of s h = HWait w True \<and> tstatus (worker_of s w) \<noteq> Done \<and> s' = set_handler h (HWait w False) s
      \<or> handler_of s h = HWait w True \<and> tstatus (worker_of s w) = Done \<and> s' = set_handler h (HDone (tcode (worker_of s w)))
          (set_worker w (signalled ((worker_of s w)\<lparr>tstatus := Idle\<rparr>)) s)"
  shows "\<exists>m\<le>Suc k. stage w h m s'"
  using s s' free
  by (intro stage_lower, cases "(w, h, Suc k, s)" rule: stage.cases) (auto simp: holds_mutex_def signalled_def)

lemma done_stays:
  assumes "worker_step L s s'" "handler_of s h = HDone c"
  shows "handler_of s' h = HDone c"
  using assms(1)
proof cases
  case (thread_serves w r)
  then show ?thesis using assms(2)
    by (auto simp: answer_def Let_def signal_handler_def signal_waiting_def split: prod.split)
next
  case (supervisor ps tid)
  then show ?thesis using assms(2) by (auto simp: restart_thread_def split: option.split)
qed (use assms(2) in \<open>auto simp: init_check_def idle_check_def Let_def\<close>)

lemma stage_step:
  assumes step: "worker_step L s s'" and p: "protocol ph s" and st: "stage w h (Suc k) s"
    and L: "single_exit L" and down: "\<not> server_shutdown s"
  shows "\<exists>m\<le>Suc k. stage w h m s'"
proof -
  have same: ?thesis if "same_view w h s s'" using st stage_same [OF that] by blast
  have pcs: "wpc (worker_of s w) \<in> {Pushed, WaitInit True, WaitInit False, Serving, WaitIdle True, WaitIdle False}"
    using stage_phase(3) [OF p st] .
  have busy: "(\<exists>b. handler_of s h = HWait w b) \<or> handler_of s h = HLock w"
    using stage_phase(4) [OF p st] .
  note thread = stage_thread [OF st down L, of s']
  note other = stage_other_handler [OF p st]
  show ?thesis
    using step
  proof cases
    case (thread_starts v)
    then show ?thesis using pcs by (intro same) (auto simp: same_view_def)
  next
    case (thread_pushes v)
    then show ?thesis using pcs by (intro same) (auto simp: same_view_def)
  next
    case (thread_waits v)
    then show ?thesis using thread
      by (cases "v = w") (blast, intro same, simp add: same_view_def init_check_def Let_def)
  next
    case (thread_wakes v)
    then show ?thesis using thread
      by (cases "v = w") (blast, intro same, simp add: same_view_def init_check_def Let_def)
  next
    case (thread_serves v r)
    show ?thesis
    proof (cases "v = w")
      case False
      obtain p' code exit where res: "send L r (wpriv (worker_of s v)) = (p', code, exit)" by (metis prod_cases3)
      have "handler_of s h \<noteq> HWait v b" for b using busy False by auto
      then have "(case handler_of s h of HWait w' b \<Rightarrow> HWait w' (b \<or> w' = v) | pc \<Rightarrow> pc) = handler_of s h"
        by (cases "handler_of s h") auto
      then have "same_view w h s s'" using False
        by (simp add: same_view_def thread_serves(1) answer_def res Let_def signal_handler_def signal_waiting_def)
      then show ?thesis by (rule same)
    qed (use thread thread_serves in blast)
  next
    case (thread_done v)
    then show ?thesis using thread
      by (cases "v = w") (blast, intro same, simp add: same_view_def idle_check_def Let_def)
  next
    case (thread_leaves v)
    then show ?thesis using pcs by (intro same) (auto simp: same_view_def)
  next
    case (spurious_init v)
    then show ?thesis using st
      by (intro exI [of _ "Suc k"]; cases "v = w"; cases "(w, h, Suc k, s)" rule: stage.cases) auto
  next
    case (spurious_idle v)
    then show ?thesis using st
      by (intro exI [of _ "Suc k"]; cases "v = w"; cases "(w, h, Suc k, s)" rule: stage.cases) auto
  next
    case (supervisor ps tid)
    have "next_thread s \<noteq> w" using protocolD(8) [OF p, of w] stage_phase(2) [OF p st] by auto
    then show ?thesis
      by (intro same) (simp add: same_view_def supervisor(1) restart_thread_def split: option.split)
  next
    case (request_refused g)
    then show ?thesis using busy by (intro same) (auto simp: same_view_def)
  next
    case (request_arrives g)
    then show ?thesis using busy by (intro same) (auto simp: same_view_def)
  next
    case (request_pops g v ws)
    then show ?thesis using busy by (intro same) (auto simp: same_view_def)
  next
    case (request_posted g v)
    show ?thesis
    proof (cases "v = w")
      case True
      then have "g = h" using other request_posted(3) by blast
      then show ?thesis using stage_handler [OF st] request_posted True by blast
    next
      case False
      then have "g \<noteq> h" using busy request_posted(3) by auto
      then show ?thesis using False by (intro same) (simp add: same_view_def request_posted(1))
    qed
  next
    case (request_wakes g v)
    show ?thesis
    proof (cases "v = w")
      case True
      then have "g = h" using other request_wakes(3) by blast
      then show ?thesis using stage_handler [OF st] request_wakes True by blast
    next
      case False
      then have "g \<noteq> h" using busy request_wakes(3) by auto
      then show ?thesis using False by (intro same) (simp add: same_view_def request_wakes(1))
    qed
  next
    case (request_done g v)
    show ?thesis
    proof (cases "v = w")
      case True
      then have "g = h" using other request_done(3) by blast
      then show ?thesis using stage_handler [OF st] request_done True by blast
    next
      case False
      then have "g \<noteq> h" using busy request_done(3) by auto
      then show ?thesis using False by (intro same) (simp add: same_view_def request_done(1))
    qed
  next
    case (request_spurious g v)
    show ?thesis
    proof (cases "g = h")
      case True
      then show ?thesis using st request_spurious busy
        by (intro exI [of _ "Suc k"]; cases "(w, h, Suc k, s)" rule: stage.cases) auto
    qed (intro same, simp add: same_view_def request_spurious(1))
  next
    case shutdown_starts
    then show ?thesis by (intro same) (simp add: same_view_def)
  next
    case (shutdown_empty waits n)
    then show ?thesis by (intro same) (simp add: same_view_def)
  next
    case (shutdown_pops waits n v ws)
    then show ?thesis by (intro same) (simp add: same_view_def)
  next
    case (shutdown_signals v waits)
    then have "v \<noteq> w" using protocolD(5) [OF p] stage_phase(1) [OF p st] by force
    then show ?thesis by (intro same) (simp add: same_view_def shutdown_signals(1))
  next
    case (process_ends v)
    then show ?thesis by (intro same) (simp add: same_view_def)
  qed
qed


lemma stage_thread_turn:
  assumes "stage w h k s" "k \<in> {2, 3, 5}" "\<not> ended s" "\<not> server_shutdown s" "single_exit L"
  shows "\<exists>s'. thread_turn L w s = Some s' \<and> stage w h (k - 1) s'"
proof (cases "(w, h, k, s)" rule: stage.cases)
  case (3 w h s)
  then obtain b where h: "handler_of s h = HWait w b" using assms by auto
  obtain p' code exit where res: "send L h (wpriv (worker_of s w)) = (p', code, exit)" by (metis prod_cases3)
  show ?thesis using 3 assms h by (simp add: thread_turn_def Let_def answer_def res signal_handler_def signal_waiting_def)
next
  case (4 w h s)
  then show ?thesis using assms by (auto simp: thread_turn_def init_check_def Let_def numeral_2_eq_2)
next
  case (6 w h s)
  then show ?thesis using assms by (auto simp: thread_turn_def init_check_def Let_def eval_nat_numeral)
qed (use assms in auto)

lemma stage_handler_turn:
  assumes "stage w h k s" "k \<in> {1, 4}" "\<not> ended s"
  shows "\<exists>s'. handler_turn h s = Some s' \<and> stage w h (k - 1) s'"
  using assms
  by (cases "(w, h, k, s)" rule: stage.cases)
    (auto simp: handler_turn_def holds_mutex_def signalled_def eval_nat_numeral)

definition worker_turn :: "'p worker_lib \<Rightarrow> actor \<Rightarrow> 'p mpm_bridge_status \<Rightarrow> 'p mpm_bridge_status option" where
  "worker_turn L a s = (case a of Tcl w \<Rightarrow> thread_turn L w s | Httpd h \<Rightarrow> handler_turn h s | Arrives h \<Rightarrow> request_turn h s)"

text \<open>Nobody has to send a request.\<close>

definition due_turn :: "'p worker_lib \<Rightarrow> actor \<Rightarrow> 'p mpm_bridge_status \<Rightarrow> 'p mpm_bridge_status option" where
  "due_turn L a s = (case a of Arrives h \<Rightarrow> None | _ \<Rightarrow> worker_turn L a s)"

lemma worker_turn_step: "worker_turn L a s = Some s' \<Longrightarrow> worker_step L s s'"
  by (cases a) (auto simp: worker_turn_def intro: thread_turn_step handler_turn_step request_turn_step)

definition stage_actor :: "nat \<Rightarrow> nat \<Rightarrow> nat \<Rightarrow> actor" where
  "stage_actor w h k = (if k = 1 \<or> k = 4 then Httpd h else Tcl w)"

definition serving :: "'p worker_lib \<Rightarrow> 'p mpm_bridge_status \<Rightarrow> bool" where
  "serving L s \<longleftrightarrow> bridge_inv L s \<and> \<not> server_shutdown s \<and> single_exit L"

lemma stage_advances:
  assumes "serving L s" "stage w h (Suc k) s"
  shows "\<exists>s'. due_turn L (stage_actor w h (Suc k)) s = Some s' \<and> (\<exists>m\<le>k. stage w h m s')"
proof -
  have up: "\<not> ended s" "\<not> server_shutdown s" "single_exit L"
    using assms(1) by (auto simp: serving_def bridge_inv_def)
  have "Suc k \<in> {1, 4} \<or> Suc k \<in> {2, 3, 5}" using assms(2) by (cases "(w, h, Suc k, s)" rule: stage.cases) auto
  then show ?thesis
  proof
    assume k: "Suc k \<in> {1, 4}"
    from stage_handler_turn [OF assms(2) k up(1)] k show ?thesis
      by (auto simp: due_turn_def worker_turn_def stage_actor_def)
  next
    assume k: "Suc k \<in> {2, 3, 5}"
    from stage_thread_turn [OF assms(2) k up] k show ?thesis
      by (auto simp: due_turn_def worker_turn_def stage_actor_def)
  qed
qed

interpretation wk: fair_progress "worker_step L" "due_turn L" "serving L" "stage w h" "stage_actor w h"
  for L w h
proof
  fix s s' :: "'a mpm_bridge_status" and k
  assume s: "serving L s" "worker_step L s s'" "stage w h k s"
  then obtain ph where "protocol ph s" "single_exit L" "\<not> server_shutdown s"
    unfolding serving_def bridge_inv_def by blast
  then show "\<exists>m\<le>k. stage w h m s'"
  proof (cases k)
    case 0
    then show ?thesis using s(3) done_stays [OF s(2)] by auto
  next
    case (Suc j)
    then show ?thesis using stage_step [OF s(2) \<open>protocol ph s\<close>] s(3) \<open>single_exit L\<close> \<open>\<not> server_shutdown s\<close> by blast
  qed
qed (rule stage_advances)

section \<open>One Tcl thread and one request\<close>

definition sample_lib :: "nat worker_lib" where
  "sample_lib = \<lparr> send = (\<lambda>h p. (p + 1, 200, False)), fresh = 0, single_exit = True \<rparr>"

definition sample_schedule :: "actor list" where
  "sample_schedule = [Tcl 0, Tcl 0, Tcl 0, Arrives 0, Httpd 0, Httpd 0, Tcl 0, Tcl 0, Httpd 0, Tcl 0, Tcl 0, Tcl 0]"

definition sample_run :: "nat \<Rightarrow> nat mpm_bridge_status" where
  "sample_run i = play (worker_turn sample_lib) (take i sample_schedule) (WorkerBridge_ChildInit sample_lib 1)"

lemmas sample_eval = sample_schedule_def play_def due_turn_def worker_turn_def thread_turn_def handler_turn_def
  request_turn_def WorkerBridge_ChildInit_def init_check_def idle_check_def answer_def sample_lib_def Let_def
  new_worker_def MOD_RIVET_QUEUE_SIZE_def set_worker_def set_handler_def signalled_def signal_handler_def signal_waiting_def
  holds_mutex_def

lemma sample_reach: "reach sample_lib 1 (sample_run i)"
  unfolding sample_run_def by (intro play_reach [OF worker_turn_step] reachable.start)

lemma sample_fair: "fair_run (worker_step sample_lib) (due_turn sample_lib) sample_run"
proof -
  have rest: "due_turn sample_lib a (play (worker_turn sample_lib) sample_schedule (WorkerBridge_ChildInit sample_lib 1)) = None" for a
    by (cases a) (simp_all add: sample_eval)
  show ?thesis unfolding sample_run_def [abs_def]
    by (rule play_fair) (erule worker_turn_step, rule rest)
qed

section \<open>The bridge\<close>

lemma one_thread_per_record:
  assumes "reach L n s" "handler_of s h = HLock w \<or> handler_of s h = HWait w b"
    "handler_of s k = HLock w \<or> handler_of s k = HWait w c"
  shows "h = k" "w \<notin> set (queue s)"
proof -
  obtain ph where p: "protocol ph s" using reach_protocol [OF assms(1)] by blast
  have "ph w = PLocked h \<or> ph w = PWait h b" "ph w = PLocked k \<or> ph w = PWait k c"
    using assms(2,3) protocolD(3,4) [OF p] by blast+
  then show "h = k" "w \<notin> set (queue s)" using protocolD(2) [OF p, of w] by auto
qed

lemma answer_of_record:
  assumes "reach L n s" "handler_of s h = HDone c"
  obtains w pre post where "wlog (worker_of s w) = pre @ h # post" "c = code_after L pre h"
    "h \<notin> set pre" "h \<notin> set post" "\<And>v. h \<in> set (wlog (worker_of s v)) \<Longrightarrow> v = w"
proof -
  have "answered s h = Some c" using assms(2) by (simp add: answered_def answer_seen_def posted_def)
  from wk.answered_once [OF assms(1) this] show thesis using that unfolding logs_def by blast
qed

lemma record_stage:
  assumes "reach L n s" "handler_of s h = HLock w"
  shows "\<exists>k. stage w h k s"
proof -
  obtain ph where p: "protocol ph s" using reach_protocol [OF assms(1)] by blast
  then have "phase_ok (PLocked h) (worker_of s w) (server_shutdown s)"
    using protocolD(3) [OF p] protocolD(6) [OF p, of w] assms(2) by metis
  then have "stage w h (Suc (Suc (Suc (Suc 0)))) s \<or> stage w h (Suc (Suc (Suc (Suc (Suc 0))))) s"
    using assms(2) by (auto simp: idle_pc_def)
  then show ?thesis by blast
qed

text \<open>C2: in every state the bridge can reach, two threads of httpd never use the record of the same Tcl
  thread, and a request that was answered was served exactly once, by one Tcl thread, with the status that
  serving it after the earlier requests of that thread gives.\<close>

theorem worker_answers:
  assumes "reach L n s"
  shows "(\<forall>w b c. (handler_of s h = HLock w \<or> handler_of s h = HWait w b) \<and>
      (handler_of s k = HLock w \<or> handler_of s k = HWait w c) \<longrightarrow> h = k \<and> w \<notin> set (queue s))
    \<and> (\<forall>c. handler_of s h = HDone c \<longrightarrow> (\<exists>w pre post. wlog (worker_of s w) = pre @ h # post
      \<and> c = code_after L pre h \<and> h \<notin> set pre \<and> h \<notin> set post
      \<and> (\<forall>v. h \<in> set (wlog (worker_of s v)) \<longrightarrow> v = w)))"
proof (intro conjI allI impI)
  fix w b c
  assume "(handler_of s h = HLock w \<or> handler_of s h = HWait w b) \<and> (handler_of s k = HLock w \<or> handler_of s k = HWait w c)"
  then show "h = k" "w \<notin> set (queue s)" using one_thread_per_record [OF assms] by blast+
next
  fix c
  assume c: "handler_of s h = HDone c"
  show "\<exists>w pre post. wlog (worker_of s w) = pre @ h # post
      \<and> c = code_after L pre h \<and> h \<notin> set pre \<and> h \<notin> set post \<and> (\<forall>v. h \<in> set (wlog (worker_of s v)) \<longrightarrow> v = w)"
  proof (rule answer_of_record [OF assms c])
    fix w pre post
    assume "wlog (worker_of s w) = pre @ h # post" "c = code_after L pre h" "h \<notin> set pre" "h \<notin> set post"
      and "\<And>v. h \<in> set (wlog (worker_of s v)) \<Longrightarrow> v = w"
    then show ?thesis by (intro exI conjI allI impI) assumption+
  qed
qed

theorem worker_answers_witness:
  "handler_of (sample_run 9) 0 = HDone 200 \<and> (\<exists>w pre post. wlog (worker_of (sample_run 9) w) = pre @ 0 # post
     \<and> 200 = code_after sample_lib pre 0)"
proof -
  have h: "handler_of (sample_run 9) 0 = HDone 200" by (simp add: sample_run_def sample_eval)
  from worker_answers [OF sample_reach, of 9 0 0] h show ?thesis by blast
qed

text \<open>C12: while the server is not shut down, every request whose thread got a Tcl thread from the queue is
  answered in every fair run.\<close>

theorem worker_request_answered:
  assumes "fair_run (worker_step L) (due_turn L) \<sigma>" "reach L n (\<sigma> 0)" "\<And>i. \<not> server_shutdown (\<sigma> i)" "single_exit L"
    and "handler_of (\<sigma> i) h = HLock w"
  shows "\<exists>j\<ge>i. \<exists>c. handler_of (\<sigma> j) h = HDone c"
proof -
  have r: "reach L n (\<sigma> j)" for j using fair_run_reach [OF assms(1,2)] .
  obtain k where k: "stage w h k (\<sigma> i)" using record_stage [OF r assms(5)] by blast
  have "serving L (\<sigma> j)" for j using wk.reachable_inv [OF r] assms(3,4) by (simp add: serving_def)
  from wk.stage_ends [OF assms(1) this k] show ?thesis by simp
qed

theorem worker_request_answered_witness:
  "handler_of (sample_run 5) 0 = HLock 0 \<and> (\<exists>j\<ge>5. \<exists>c. handler_of (sample_run j) 0 = HDone c)"
proof -
  have up: "\<not> server_shutdown (sample_run i)" for i
  proof -
    have "i \<in> {0, 1, 2, 3, 4, 5, 6, 7, 8, 9, 10, 11} \<or> 12 \<le> i" unfolding insert_iff empty_iff by arith
    then show ?thesis by (auto simp: sample_run_def sample_eval)
  qed
  have h: "handler_of (sample_run 5) 0 = HLock 0" by (simp add: sample_run_def sample_eval)
  have "single_exit sample_lib" by (simp add: sample_lib_def)
  from worker_request_answered [OF sample_fair sample_reach up this h] h show ?thesis by blast
qed

section \<open>The shutdown\<close>

text \<open>\<open>WorkerBridge_Shutdown\<close> is to wait up to one second for Tcl threads that are still serving. Its count
  of the threads to stop is zero until it has popped one, so an empty queue ends its loop at once, however
  many threads are counted.\<close>

lemma shutdown_gives_up:
  assumes "shutdown_at s = SdIdle" "queue s = []" "\<not> ended s"
  obtains s1 s2 where "worker_step L s s1" "worker_step L s1 s2" "shutdown_at s2 = SdEnd"
    "threads_count s2 = threads_count s" "server_shutdown s2"
proof
  let ?s1 = "s\<lparr>not_to_be_waited := skip_thread_on_exit s, server_shutdown := True, shutdown_at := SdPop 5 0\<rparr>"
  show "worker_step L s ?s1" using assms by (intro worker_step.shutdown_starts)
  show "worker_step L ?s1 (?s1\<lparr>shutdown_at := shutdown_loop (not_to_be_waited ?s1) (5 - 1) 0\<rparr>)"
    by (rule worker_step.shutdown_empty) (use assms in simp_all)
qed (simp_all add: shutdown_loop_def)

text \<open>A request posted just before the shutdown: its Tcl thread wakes, sees the shutdown and leaves without
  an answer.\<close>

definition abandoned :: "nat \<Rightarrow> nat \<Rightarrow> 'p mpm_bridge_status \<Rightarrow> bool" where
  "abandoned h w s \<longleftrightarrow> (\<exists>b. handler_of s h = HWait w b) \<and> tstatus (worker_of s w) = Init
     \<and> (wpc (worker_of s w) = Leaving \<or> wpc (worker_of s w) = Gone)"

lemma shutdown_abandons:
  assumes "\<not> ended s" "server_shutdown s" "handler_of s h = HWait w b" "tstatus (worker_of s w) = Init"
    "wpc (worker_of s w) = WaitInit True"
  shows "worker_step L s (init_check w s)" "abandoned h w (init_check w s)"
  using assms worker_step.thread_wakes by (blast, simp add: abandoned_def init_check_def Let_def)

text \<open>The thread of httpd then waits for ever: no step of anyone changes that.\<close>

lemma abandoned_for_ever:
  assumes r: "reach L n s" and a: "abandoned h w s" and step: "worker_step L s s'"
  shows "abandoned h w s'"
proof -
  obtain ph where p: "protocol ph s" using reach_protocol [OF r] by blast
  obtain b where h: "handler_of s h = HWait w b" using a by (auto simp: abandoned_def)
  then have ph: "ph w = PWait h b" using protocolD(4) [OF p] by blast
  have x: "tstatus (worker_of s w) = Init" "wpc (worker_of s w) = Leaving \<or> wpc (worker_of s w) = Gone"
    using a by (auto simp: abandoned_def)
  have other: "g = h" if "handler_of s g = HLock w \<or> handler_of s g = HWait w c" for g c
    using that ph protocolD(3,4) [OF p, of g w] by auto
  have keep: ?thesis if "worker_of s' w = worker_of s w" "\<exists>b. handler_of s' h = HWait w b"
    using that x by (simp add: abandoned_def)
  from step show ?thesis
  proof cases
    case (thread_serves v r)
    obtain p' code exit where res: "send L r (wpriv (worker_of s v)) = (p', code, exit)" by (metis prod_cases3)
    show ?thesis using thread_serves x h
      by (intro keep) (auto simp: answer_def res Let_def signal_handler_def signal_waiting_def)
  next
    case (supervisor ps tid)
    have "next_thread s \<noteq> w" using protocolD(8) [OF p, of w] x by auto
    then show ?thesis using h
      by (intro keep) (simp_all add: supervisor(1) restart_thread_def split: option.split)
  next
    case (request_posted g v)
    then have "v \<noteq> w" using other [of g] h by force
    moreover have "g \<noteq> h" using request_posted(3) h by auto
    ultimately show ?thesis using h by (intro keep) (simp_all add: request_posted(1))
  next
    case (request_done g v)
    then have "v \<noteq> w \<and> g \<noteq> h" using other [of g True] h x by auto
    then show ?thesis using h by (intro keep) (simp_all add: request_done(1))
  next
    case (shutdown_signals v waits)
    then have "v \<noteq> w" using protocolD(5) [OF p] ph by force
    then show ?thesis using h by (intro keep) (simp_all add: shutdown_signals(1))
  qed (use x h in \<open>auto simp: abandoned_def init_check_def idle_check_def Let_def\<close>)
qed

end
