(* ===== verification/Rivet_Lazy.thy ===== *)
theory Rivet_Lazy
  imports Rivet_Bridge
begin

text \<open>
  src/src/mod_rivet_ng/rivet_lazy_mpm.c: the bridge that makes Tcl threads when they are needed, as a step
  relation. Each virtual host has an array of idle Tcl threads of its own; a thread of httpd
  (\<open>LazyBridge_Request\<close>) takes the last one of the array of its host or creates one, hands it the request
  through its \<open>lazy_tcl_worker\<close> record and waits; the Tcl thread (\<open>request_processor\<close>) serves, waits until
  its answer was read and puts itself back. \<open>LazyBridge_Finalize\<close> tells the idle threads to exit.

  Every rule is one stretch of code between two points where a thread can block, with the conventions of
  Rivet_Worker. The mutex of a record is held by its Tcl thread in the states \<open>lazy_holds\<close> names. The
  mutexes of the hosts are only held inside a rule. Requests are numbered; their hosts and what serving
  them does to a Tcl thread are parameters.
\<close>

section \<open>Setting up a Tcl thread\<close>

datatype lazy_script = Child_global | Child_init | Child_exit_script

text \<open>\<open>conf\<close> is \<open>w->conf\<close>, which may still be NULL; the record of the server goes into the globals of the
  interpreter before the script runs.\<close>

definition Lazy_RunConfScript ::
    "init_lib \<Rightarrow> rivet_server_conf option \<Rightarrow> server_rec \<Rightarrow> lazy_script \<Rightarrow> rivet_thread_interp \<Rightarrow> child \<Rightarrow> child outcome" where
  "Lazy_RunConfScript lib conf server which ri ch =
     (case conf of
        None \<Rightarrow> Fault NullDeref
      | Some c \<Rightarrow>
          (case (case which of Child_global \<Rightarrow> rivet_global_init_script c | Child_init \<Rightarrow> rivet_child_init_script c
                 | Child_exit_script \<Rightarrow> rivet_child_exit_script c) of
             None \<Rightarrow> Ret ch
           | Some function \<Rightarrow>
               if interp_server ch (interp ri) = None then Fault NullDeref
               else
                 let (pd, tcl_ok) = eval_child lib (interp ri) (cstr function) (pdata ch)
                 in Ret (ch\<lparr>interp_server := (interp_server ch)(interp ri \<mapsto> server), pdata := pd,
                            evals := evals ch @ [(interp ri, cstr function)]\<rparr>)))"

definition lazy_thread_init ::
    "init_lib \<Rightarrow> tclweb \<Rightarrow> rivet_server_conf option \<Rightarrow> server_rec \<Rightarrow> child \<Rightarrow> (rivet_thread_interp \<times> child) outcome" where
  "lazy_thread_init lib new_request conf server ch =
     (let rsc = module_config server; ch = Rivet_ExecutionThreadInit new_request ch in
      case Rivet_NewVHostInterp (init_pool lib) (max_requests lib) (tcl_count ch) (default_cache_size rsc) of
        None \<Rightarrow> Fault NullDeref
      | Some ri \<Rightarrow>
          let ch = ch\<lparr>tcl_count := tcl_count ch + 1\<rparr>; ri = ri\<lparr>channel := Some (thread_channel ch)\<rparr> in
          bindO (Rivet_RunningScripts (init_files lib) (init_handler lib) rsc)
            (\<lambda>scr. bindO (Rivet_PerInterpInit lib server (ri\<lparr>scripts := scr\<rparr>) ch)
               (\<lambda>(ri, ch). bindO (Lazy_RunConfScript lib conf server Child_init ri ch) (\<lambda>ch. Ret (ri, ch)))))"

text \<open>A thread that gets that far has an interpreter of its own for its host, initialized, with the scripts
  of the host, its own channel and an empty cache, and has evaluated the child script of the host, once. It
  never gets that far before its record has a configuration.\<close>

lemma new_interp_cached:
  "Rivet_NewVHostInterp b m i sz = Some ri \<Longrightarrow> interp ri = i \<and> (sz \<noteq> 0 \<longrightarrow> cache_rep ri [] Map.empty)"
  using NewVHostInterp_ok [of m i sz ri]
  by (cases b) (auto simp: Rivet_NewVHostInterp_def Let_def RivetCache_Create_def zeroed_interp_def split: if_splits)

lemma lazy_thread_ready:
  assumes "lazy_thread_init lib tw conf server ch = Ret (ri, ch')"
  shows "interp ri = tcl_count ch \<and> channel ri = Some (chan_count ch) \<and> flags ri AND RIVET_INTERP_INITIALIZED \<noteq> 0
    \<and> Rivet_RunningScripts (init_files lib) (init_handler lib) (module_config server) = Ret (scripts ri)
    \<and> (default_cache_size (module_config server) \<noteq> 0 \<longrightarrow> cache_rep ri [] Map.empty)
    \<and> interp_server ch' (interp ri) = Some server
    \<and> (\<exists>c. conf = Some c \<and> evals ch' = evals ch @ (case rivet_child_init_script c of None \<Rightarrow> []
         | Some function \<Rightarrow> [(tcl_count ch, cstr function)]))"
proof -
  obtain ri0 where new: "Rivet_NewVHostInterp (init_pool lib) (max_requests lib) (tcl_count ch)
      (default_cache_size (module_config server)) = Some ri0"
    using assms by (auto simp: lazy_thread_init_def Rivet_ExecutionThreadInit_def Let_def split: option.splits)
  note fields = new_interp_cached [OF new]
  show ?thesis
  proof (cases conf)
    case None
    then show ?thesis using assms new
      by (auto simp: lazy_thread_init_def Rivet_ExecutionThreadInit_def Let_def Lazy_RunConfScript_def
        Rivet_PerInterpInit_def bindO_Ret_iff split: if_splits)
  next
    case (Some c)
    then show ?thesis using assms new fields initialized_flag
      by (auto simp: lazy_thread_init_def Rivet_ExecutionThreadInit_def Let_def Lazy_RunConfScript_def
        Rivet_PerInterpInit_def bindO_Ret_iff split: if_splits option.splits prod.splits)
  qed
qed

section \<open>State\<close>

datatype lazy_thr_status = LzInit | LzIdle | LzProcessing | LzThreadExit | LzDone

text \<open>A Tcl thread: not created, created, set up, in the loop that waits for work with the mutex held,
  waiting in it (the flag says it was signalled), serving, in \<open>exit\<close> until the clean-up is over, waiting
  until the answer was read, out of the loop, ended.\<close>

datatype lazy_pc = LzUnborn | LzCreated | LzEnter | LzCheck | LzWait bool | LzServe | LzExiting | LzPosted bool
  | LzLeave | LzGone

record 'p lazy_tcl_worker =
  lpc :: lazy_pc
  lstatus :: lazy_thr_status
  lserver :: nat
  lconf :: "nat option"
  lreq :: "nat option"
  ap_sts :: int
  lkeep_going :: bool
  lpriv :: 'p
  llog :: "nat list"

text \<open>The clean-up: not started, at a host, about to look at the threads of a host (\<open>try\<close>, \<open>count\<close>), emptying
  its array, locking a popped record, over.\<close>

datatype finalize_pc = FnIdle | FnHost nat | FnTry nat nat nat | FnDrain nat nat | FnSignal nat nat nat | FnEnd

record 'p lazy_bridge_status =
  lworker :: "nat \<Rightarrow> 'p lazy_tcl_worker"
  lhandler :: "nat \<Rightarrow> handler_pc"
  larray :: "nat \<Rightarrow> nat list"
  lthreads_count :: "nat \<Rightarrow> nat"
  lshutdown :: bool
  lnext :: nat
  lfinal :: finalize_pc
  lowner :: nat
  lcrashed :: bool

text \<open>What serving a request does to the data of a thread, its status and whether the request calls
  \<open>exit\<close>; the data of a new thread of a host; the option; the host of a request; the number of hosts.\<close>

record 'p lazy_lib =
  lsend :: "nat \<Rightarrow> 'p \<Rightarrow> 'p \<times> int \<times> bool"
  lfresh :: "nat \<Rightarrow> 'p"
  lsingle_exit :: bool
  lhost :: "nat \<Rightarrow> nat"
  lvhosts_count :: nat

definition LazyBridge_ServerInit :: "mod_rivet_globals \<Rightarrow> mod_rivet_globals" where
  "LazyBridge_ServerInit g =
     (if single_thread_exit g = SINGLE_THREAD_EXIT_UNDEF then g\<lparr>single_thread_exit := 1\<rparr> else g)"

definition LazyBridge_ChildInit :: "'p lazy_lib \<Rightarrow> 'p lazy_bridge_status" where
  "LazyBridge_ChildInit L =
     \<lparr> lworker = (\<lambda>w. \<lparr> lpc = LzUnborn, lstatus = LzIdle, lserver = 0, lconf = None, lreq = None, ap_sts = 0,
         lkeep_going = True, lpriv = lfresh L 0, llog = [] \<rparr>),
       lhandler = (\<lambda>_. HStart), larray = (\<lambda>_. []), lthreads_count = (\<lambda>_. 0), lshutdown = False, lnext = 0,
       lfinal = FnIdle, lowner = 0, lcrashed = False \<rparr>"

definition lazy_holds :: "lazy_pc \<Rightarrow> bool" where
  "lazy_holds pc \<longleftrightarrow> pc \<in> {LzCheck, LzServe, LzExiting}"

section \<open>Pieces of the steps\<close>

definition put_worker :: "nat \<Rightarrow> 'p lazy_tcl_worker \<Rightarrow> 'p lazy_bridge_status \<Rightarrow> 'p lazy_bridge_status" where
  "put_worker w x s = s\<lparr>lworker := (lworker s)(w := x)\<rparr>"

definition put_handler :: "nat \<Rightarrow> handler_pc \<Rightarrow> 'p lazy_bridge_status \<Rightarrow> 'p lazy_bridge_status" where
  "put_handler h pc s = s\<lparr>lhandler := (lhandler s)(h := pc)\<rparr>"

definition lazy_signalled :: "'p lazy_tcl_worker \<Rightarrow> 'p lazy_tcl_worker" where
  "lazy_signalled x = x\<lparr>lpc := (case lpc x of LzWait _ \<Rightarrow> LzWait True | LzPosted _ \<Rightarrow> LzPosted True | pc \<Rightarrow> pc)\<rparr>"

definition create_worker :: "'p lazy_lib \<Rightarrow> nat \<Rightarrow> 'p lazy_tcl_worker" where
  "create_worker L server = \<lparr> lpc = LzCreated, lstatus = LzIdle, lserver = server, lconf = None, lreq = None,
     ap_sts = 0, lkeep_going = True, lpriv = lfresh L server, llog = [] \<rparr>"

text \<open>The initialization of the thread: the child script and the index come from \<open>w->conf\<close>, which the
  thread of httpd sets.\<close>

definition lazy_start :: "nat \<Rightarrow> 'p lazy_bridge_status \<Rightarrow> 'p lazy_bridge_status" where
  "lazy_start w s =
     (case lconf (lworker s w) of
        None \<Rightarrow> s\<lparr>lcrashed := True\<rparr>
      | Some i \<Rightarrow> (put_worker w ((lworker s w)\<lparr>lpc := LzEnter\<rparr>) s)
          \<lparr>lthreads_count := (lthreads_count s)(i := lthreads_count s i + 1)\<rparr>)"

text \<open>The loop that waits for work, and what follows it.\<close>

definition lazy_check :: "nat \<Rightarrow> 'p lazy_bridge_status \<Rightarrow> 'p lazy_bridge_status" where
  "lazy_check w s =
     (let x = lworker s w in
      if lstatus x \<noteq> LzInit \<and> lstatus x \<noteq> LzThreadExit then put_worker w (x\<lparr>lpc := LzWait False\<rparr>) s
      else if lstatus x = LzThreadExit then put_worker w (x\<lparr>lkeep_going := False, lpc := LzLeave\<rparr>) s
      else put_worker w (x\<lparr>lstatus := LzProcessing, lpc := LzServe\<rparr>) s)"

text \<open>The end of \<open>Rivet_SendContent\<close> and the answer.\<close>

definition lazy_answer :: "'p lazy_lib \<Rightarrow> nat \<Rightarrow> nat \<Rightarrow> 'p lazy_bridge_status \<Rightarrow> 'p lazy_bridge_status" where
  "lazy_answer L w r s =
     (let x = lworker s w in
      case lsend L r (lpriv x) of
        (p', code, ex) \<Rightarrow>
          (put_worker w (x\<lparr>lpriv := p', ap_sts := code, lstatus := LzDone, lkeep_going := lkeep_going x \<and> \<not> ex,
             lpc := LzPosted False, llog := llog x @ [r]\<rparr>) s)\<lparr>lhandler := signal_waiting w (lhandler s)\<rparr>)"

text \<open>\<open>LazyBridge_ExitHandler\<close> inside a request: unless the thread is to exit alone it runs
  \<open>LazyBridge_Finalize\<close> for the host of the request, and goes on. One clean-up runs at a time here.\<close>

definition lazy_serve :: "'p lazy_lib \<Rightarrow> nat \<Rightarrow> nat \<Rightarrow> 'p lazy_bridge_status \<Rightarrow> 'p lazy_bridge_status option" where
  "lazy_serve L w r s =
     (if snd (snd (lsend L r (lpriv (lworker s w)))) \<and> \<not> lsingle_exit L then
        if lfinal s = FnIdle \<or> lfinal s = FnEnd
        then Some ((put_worker w ((lworker s w)\<lparr>lpc := LzExiting\<rparr>) s)
                     \<lparr>lshutdown := True, lfinal := FnHost 0, lowner := lhost L r\<rparr>)
        else None
      else Some (lazy_answer L w r s))"

text \<open>Woken while the answer is not read, or back to the array: a thread that is to end goes there too.\<close>

definition lazy_reschedule :: "nat \<Rightarrow> 'p lazy_bridge_status \<Rightarrow> 'p lazy_bridge_status" where
  "lazy_reschedule w s =
     (let x = lworker s w in
      if lstatus x = LzDone then put_worker w (x\<lparr>lpc := LzPosted False\<rparr>) s
      else (put_worker w (x\<lparr>lpc := (if lkeep_going x then LzCheck else LzLeave)\<rparr>) s)
             \<lparr>larray := (larray s)(lserver x := larray s (lserver x) @ [w])\<rparr>)"

text \<open>Out of the loop: the child exit script and the count.\<close>

definition lazy_leave :: "nat \<Rightarrow> 'p lazy_bridge_status \<Rightarrow> 'p lazy_bridge_status" where
  "lazy_leave w s = (put_worker w ((lworker s w)\<lparr>lpc := LzGone\<rparr>) s)
     \<lparr>lthreads_count := (lthreads_count s)(lserver (lworker s w) := lthreads_count s (lserver (lworker s w)) - 1)\<rparr>"

text \<open>The start of \<open>LazyBridge_Request\<close>, under the mutex of the host, and its two other stretches.\<close>

definition lazy_take :: "'p lazy_lib \<Rightarrow> nat \<Rightarrow> 'p lazy_bridge_status \<Rightarrow> 'p lazy_bridge_status" where
  "lazy_take L h s =
     (let i = lhost L h in
      if lshutdown s then put_handler h HRefused s
      else if larray s i = [] then
        (put_handler h (HLock (lnext s)) (put_worker (lnext s) (create_worker L i) s))\<lparr>lnext := lnext s + 1\<rparr>
      else (put_handler h (HLock (last (larray s i))) s)\<lparr>larray := (larray s)(i := butlast (larray s i))\<rparr>)"

definition lazy_post :: "'p lazy_lib \<Rightarrow> nat \<Rightarrow> nat \<Rightarrow> 'p lazy_bridge_status \<Rightarrow> 'p lazy_bridge_status" where
  "lazy_post L h w s = put_handler h (HWait w False)
     (put_worker w (lazy_signalled ((lworker s w)\<lparr>lreq := Some h, lstatus := LzInit, lconf := Some (lhost L h)\<rparr>)) s)"

definition lazy_collect :: "nat \<Rightarrow> nat \<Rightarrow> 'p lazy_bridge_status \<Rightarrow> 'p lazy_bridge_status" where
  "lazy_collect h w s =
     (if lstatus (lworker s w) \<noteq> LzDone then put_handler h (HWait w False) s
      else put_handler h (HDone (ap_sts (lworker s w)))
             (put_worker w (lazy_signalled ((lworker s w)\<lparr>lstatus := LzIdle, lreq := None\<rparr>)) s))"

text \<open>The loops of \<open>LazyBridge_Finalize\<close>.\<close>

definition finalize_try :: "nat \<Rightarrow> nat \<Rightarrow> nat \<Rightarrow> nat \<Rightarrow> finalize_pc" where
  "finalize_try own i try count =
     (if try < 3 \<and> count > 0 \<and> \<not> (own = i \<and> count = 1) then FnDrain i (try + 1) else FnHost (i + 1))"

section \<open>The step relation\<close>

inductive lazy_step :: "'p lazy_lib \<Rightarrow> 'p lazy_bridge_status \<Rightarrow> 'p lazy_bridge_status \<Rightarrow> bool" for L where
  lz_starts: "\<not> lcrashed s \<Longrightarrow> lpc (lworker s w) = LzCreated \<Longrightarrow> lazy_step L s (lazy_start w s)"
| lz_checks: "\<not> lcrashed s \<Longrightarrow> lpc (lworker s w) \<in> {LzEnter, LzCheck, LzWait True} \<Longrightarrow> lazy_step L s (lazy_check w s)"
| lz_serves: "\<not> lcrashed s \<Longrightarrow> lpc (lworker s w) = LzServe \<Longrightarrow> lreq (lworker s w) = Some r \<Longrightarrow>
    lazy_serve L w r s = Some s' \<Longrightarrow> lazy_step L s s'"
| lz_exits: "\<not> lcrashed s \<Longrightarrow> lpc (lworker s w) = LzExiting \<Longrightarrow> lreq (lworker s w) = Some r \<Longrightarrow> lfinal s = FnEnd \<Longrightarrow>
    lazy_step L s (lazy_answer L w r s)"
| lz_reschedules: "\<not> lcrashed s \<Longrightarrow> lpc (lworker s w) = LzPosted True \<Longrightarrow> lazy_step L s (lazy_reschedule w s)"
| lz_leaves: "\<not> lcrashed s \<Longrightarrow> lpc (lworker s w) = LzLeave \<Longrightarrow> lazy_step L s (lazy_leave w s)"
| lz_spurious_wait: "\<not> lcrashed s \<Longrightarrow> lpc (lworker s w) = LzWait False \<Longrightarrow>
    lazy_step L s (put_worker w ((lworker s w)\<lparr>lpc := LzWait True\<rparr>) s)"
| lz_spurious_posted: "\<not> lcrashed s \<Longrightarrow> lpc (lworker s w) = LzPosted False \<Longrightarrow>
    lazy_step L s (put_worker w ((lworker s w)\<lparr>lpc := LzPosted True\<rparr>) s)"
| lz_takes: "\<not> lcrashed s \<Longrightarrow> lhandler s h = HStart \<Longrightarrow> lazy_step L s (lazy_take L h s)"
| lz_posts: "\<not> lcrashed s \<Longrightarrow> lhandler s h = HLock w \<Longrightarrow> \<not> lazy_holds (lpc (lworker s w)) \<Longrightarrow>
    lazy_step L s (lazy_post L h w s)"
| lz_collects: "\<not> lcrashed s \<Longrightarrow> lhandler s h = HWait w True \<Longrightarrow> \<not> lazy_holds (lpc (lworker s w)) \<Longrightarrow>
    lazy_step L s (lazy_collect h w s)"
| lz_spurious_request: "\<not> lcrashed s \<Longrightarrow> lhandler s h = HWait w False \<Longrightarrow>
    lazy_step L s (put_handler h (HWait w True) s)"
| lz_finalizes: "\<not> lcrashed s \<Longrightarrow> lfinal s = FnIdle \<or> lfinal s = FnEnd \<Longrightarrow>
    lazy_step L s (s\<lparr>lshutdown := True, lfinal := FnHost 0, lowner := 0\<rparr>)"
| lz_host: "\<not> lcrashed s \<Longrightarrow> lfinal s = FnHost i \<Longrightarrow>
    lazy_step L s (s\<lparr>lfinal := (if i < lvhosts_count L then FnTry i 0 (lthreads_count s i) else FnEnd)\<rparr>)"
| lz_tries: "\<not> lcrashed s \<Longrightarrow> lfinal s = FnTry i t c \<Longrightarrow>
    lazy_step L s (s\<lparr>lfinal := finalize_try (lowner s) i t c\<rparr>)"
| lz_drained: "\<not> lcrashed s \<Longrightarrow> lfinal s = FnDrain i t \<Longrightarrow> larray s i = [] \<Longrightarrow>
    lazy_step L s (s\<lparr>lfinal := FnTry i t (lthreads_count s i)\<rparr>)"
| lz_drains: "\<not> lcrashed s \<Longrightarrow> lfinal s = FnDrain i t \<Longrightarrow> larray s i = ws @ [w] \<Longrightarrow>
    lazy_step L s (s\<lparr>lfinal := FnSignal i t w, larray := (larray s)(i := ws)\<rparr>)"
| lz_tells: "\<not> lcrashed s \<Longrightarrow> lfinal s = FnSignal i t w \<Longrightarrow> \<not> lazy_holds (lpc (lworker s w)) \<Longrightarrow>
    lazy_step L s ((put_worker w (lazy_signalled ((lworker s w)\<lparr>lreq := None, lstatus := LzThreadExit\<rparr>)) s)
      \<lparr>lfinal := FnDrain i t\<rparr>)"

abbreviation lazy_reach :: "'p lazy_lib \<Rightarrow> 'p lazy_bridge_status \<Rightarrow> bool" where
  "lazy_reach L \<equiv> reachable (lazy_step L) (LazyBridge_ChildInit L)"

lemma put_worker_fields [simp]:
  "lworker (put_worker w x s) = (lworker s)(w := x)" "lhandler (put_worker w x s) = lhandler s"
  "larray (put_worker w x s) = larray s" "lshutdown (put_worker w x s) = lshutdown s"
  "lfinal (put_worker w x s) = lfinal s" "lnext (put_worker w x s) = lnext s"
  "lcrashed (put_worker w x s) = lcrashed s" "lthreads_count (put_worker w x s) = lthreads_count s"
  by (simp_all add: put_worker_def)

lemma put_handler_fields [simp]:
  "lhandler (put_handler h pc s) = (lhandler s)(h := pc)" "lworker (put_handler h pc s) = lworker s"
  "larray (put_handler h pc s) = larray s" "lshutdown (put_handler h pc s) = lshutdown s"
  "lfinal (put_handler h pc s) = lfinal s" "lnext (put_handler h pc s) = lnext s"
  "lcrashed (put_handler h pc s) = lcrashed s" "lthreads_count (put_handler h pc s) = lthreads_count s"
  by (simp_all add: put_handler_def)

section \<open>The protocol\<close>

definition lazy_idle :: "'p lazy_tcl_worker \<Rightarrow> bool" where
  "lazy_idle x \<longleftrightarrow> lstatus x = LzIdle \<and>
     (lkeep_going x \<and> lpc x \<in> {LzCheck, LzWait True, LzWait False} \<or> \<not> lkeep_going x \<and> lpc x \<in> {LzLeave, LzGone})"

fun lazy_ok :: "phase \<Rightarrow> 'p lazy_tcl_worker \<Rightarrow> bool" where
  "lazy_ok PQueue x \<longleftrightarrow> lazy_idle x"
| "lazy_ok PShut x \<longleftrightarrow> lazy_idle x"
| "lazy_ok (PLocked h) x \<longleftrightarrow> lazy_idle x
     \<or> lpc x = LzCreated \<and> lstatus x = LzIdle \<and> lkeep_going x \<and> lconf x = None"
| "lazy_ok (PWait h b) x \<longleftrightarrow> lreq x = Some h \<and>
     (lstatus x = LzInit \<and> lkeep_going x \<and> (lpc x = LzCreated \<and> lconf x = Some (lserver x) \<or> lpc x = LzEnter \<or> lpc x = LzWait True)
      \<or> lstatus x = LzInit \<and> \<not> lkeep_going x \<and> (lpc x = LzLeave \<or> lpc x = LzGone)
      \<or> lstatus x = LzProcessing \<and> lkeep_going x \<and> (lpc x = LzServe \<or> lpc x = LzExiting)
      \<or> lstatus x = LzDone \<and> (lpc x = LzPosted True \<or> lpc x = LzPosted False) \<and> b)"
| "lazy_ok PNone x \<longleftrightarrow> lpc x = LzUnborn \<or> lstatus x = LzIdle \<and> lpc x = LzPosted True
     \<or> lstatus x = LzThreadExit \<and> (lpc x = LzWait True \<or> lpc x = LzLeave \<or> lpc x = LzGone)"

text \<open>The threads of an array belong to its host, and so do the requests of a thread.\<close>

definition lazy_protocol :: "'p lazy_lib \<Rightarrow> (nat \<Rightarrow> phase) \<Rightarrow> 'p lazy_bridge_status \<Rightarrow> bool" where
  "lazy_protocol L ph s \<longleftrightarrow> users_agree ph (lhandler s)
     \<and> (\<forall>i. distinct (larray s i)) \<and> (\<forall>w i. w \<in> set (larray s i) \<longleftrightarrow> ph w = PQueue \<and> lserver (lworker s w) = i)
     \<and> (\<forall>w. (\<exists>i t. lfinal s = FnSignal i t w) \<longleftrightarrow> ph w = PShut)
     \<and> (\<forall>w. lazy_ok (ph w) (lworker s w))
     \<and> (\<forall>h w b. ph w = PLocked h \<or> ph w = PWait h b \<longrightarrow> lserver (lworker s w) = lhost L h)
     \<and> (\<forall>w. lnext s \<le> w \<longrightarrow> lpc (lworker s w) = LzUnborn)"

lemma lazy_protocolD:
  assumes "lazy_protocol L ph s"
  shows "users_agree ph (lhandler s)" "distinct (larray s i)"
    "w \<in> set (larray s i) \<longleftrightarrow> ph w = PQueue \<and> lserver (lworker s w) = i"
    "(\<exists>i t. lfinal s = FnSignal i t w) \<longleftrightarrow> ph w = PShut" "lazy_ok (ph w) (lworker s w)"
    "ph w = PLocked h \<or> ph w = PWait h b \<Longrightarrow> lserver (lworker s w) = lhost L h"
    "lnext s \<le> w \<Longrightarrow> lpc (lworker s w) = LzUnborn"
  using assms unfolding lazy_protocol_def by blast+

lemma lazy_protocolI:
  assumes "users_agree ph (lhandler s)" "\<And>i. distinct (larray s i)"
    "\<And>w i. w \<in> set (larray s i) \<longleftrightarrow> ph w = PQueue \<and> lserver (lworker s w) = i"
    "\<And>w. (\<exists>i t. lfinal s = FnSignal i t w) \<longleftrightarrow> ph w = PShut" "\<And>w. lazy_ok (ph w) (lworker s w)"
    "\<And>h w b. ph w = PLocked h \<or> ph w = PWait h b \<Longrightarrow> lserver (lworker s w) = lhost L h"
    "\<And>w. lnext s \<le> w \<Longrightarrow> lpc (lworker s w) = LzUnborn"
  shows "lazy_protocol L ph s"
  unfolding lazy_protocol_def using assms by blast

lemma lazy_frame [simp]:
  "lazy_protocol L ph (s\<lparr>lthreads_count := c\<rparr>) = lazy_protocol L ph s"
  "lazy_protocol L ph (s\<lparr>lshutdown := a\<rparr>) = lazy_protocol L ph s"
  "lazy_protocol L ph (s\<lparr>lcrashed := a\<rparr>) = lazy_protocol L ph s"
  "lazy_protocol L ph (s\<lparr>lowner := i\<rparr>) = lazy_protocol L ph s"
  by (simp_all add: lazy_protocol_def)

lemma lazy_final:
  assumes "lazy_protocol L ph s" "\<And>i t w. lfinal s \<noteq> FnSignal i t w" "\<And>i t w. f \<noteq> FnSignal i t w"
  shows "lazy_protocol L ph (s\<lparr>lfinal := f\<rparr>)"
  using assms by (simp add: lazy_protocol_def)

text \<open>A Tcl thread that keeps its phase and its host.\<close>

lemma lazy_keep:
  assumes p: "lazy_protocol L ph s" and "lazy_ok (ph w) x" "lserver x = lserver (lworker s w)"
    "lpc (lworker s w) \<noteq> LzUnborn"
  shows "lazy_protocol L ph (put_worker w x s)"
  using assms unfolding lazy_protocol_def by (intro conjI allI impI) (auto split: if_splits)

text \<open>A record and the thread of httpd that uses it.\<close>

lemma lazy_move:
  assumes p: "lazy_protocol L ph s" and old: "ph w = PLocked h \<or> ph w = PWait h b0"
    and new: "lazy_ok f x" "lserver x = lserver (lworker s w)" "lpc (lworker s w) \<noteq> LzUnborn"
    and pc: "f = PNone \<and> pc = HDone c \<or> (\<exists>b. f = PWait h b \<and> pc = HWait w b)"
  shows "lazy_protocol L (ph(w := f)) (put_handler h pc (put_worker w x s))"
proof (rule lazy_protocolI)
  show "users_agree (ph(w := f)) (lhandler (put_handler h pc (put_worker w x s)))"
    using users_move [OF lazy_protocolD(1) [OF p] old pc] by simp
  show "v \<in> set (larray (put_handler h pc (put_worker w x s)) i) \<longleftrightarrow>
      (ph(w := f)) v = PQueue \<and> lserver (lworker (put_handler h pc (put_worker w x s)) v) = i" for v i
    using lazy_protocolD(3) [OF p, of v i] old pc by (cases "v = w") auto
  show "(\<exists>i t. lfinal (put_handler h pc (put_worker w x s)) = FnSignal i t v) \<longleftrightarrow> (ph(w := f)) v = PShut" for v
    using lazy_protocolD(4) [OF p, of v] old pc by (cases "v = w") auto
  show "lazy_ok ((ph(w := f)) v) (lworker (put_handler h pc (put_worker w x s)) v)" for v
    using lazy_protocolD(5) [OF p, of v] new(1) by (cases "v = w") auto
  show "lserver (lworker (put_handler h pc (put_worker w x s)) v) = lhost L k"
    if v: "(ph(w := f)) v = PLocked k \<or> (ph(w := f)) v = PWait k b" for k v b
  proof (cases "v = w")
    case True
    then have "k = h" using v pc by auto
    then show ?thesis using True new(2) lazy_protocolD(6) [OF p old] by simp
  next
    case False
    then show ?thesis using v lazy_protocolD(6) [OF p, of v k b] by simp
  qed
  show "lpc (lworker (put_handler h pc (put_worker w x s)) v) = LzUnborn"
    if "lnext (put_handler h pc (put_worker w x s)) \<le> v" for v
    using lazy_protocolD(7) [OF p, of v] new(3) that by (cases "v = w") auto
  show "distinct (larray (put_handler h pc (put_worker w x s)) i)" for i
    using lazy_protocolD(2) [OF p] by simp
qed

lemma lazy_users: "lazy_protocol L ph s \<Longrightarrow> lhandler s h = HLock w \<Longrightarrow> ph w = PLocked h"
  "lazy_protocol L ph s \<Longrightarrow> lhandler s h = HWait w b \<Longrightarrow> ph w = PWait h b"
  using users_agreeD [OF lazy_protocolD(1)] by blast+

lemma lazy_take_ok:
  assumes p: "lazy_protocol L ph s" and h: "lhandler s h = HStart"
  shows "\<exists>ph'. lazy_protocol L ph' (lazy_take L h s)"
proof -
  let ?i = "lhost L h" and ?n = "lnext s"
  note users = lazy_protocolD(1) [OF p]
  have refused: "lazy_protocol L ph (put_handler h HRefused s)"
    using p users_pc [OF users, of h HRefused] h by (simp add: lazy_protocol_def)
  have "lpc (lworker s ?n) = LzUnborn" using lazy_protocolD(7) [OF p] by simp
  then have n: "ph ?n = PNone" using lazy_protocolD(5) [OF p, of ?n] by (cases "ph ?n") (auto simp: lazy_idle_def)
  have new: "lazy_protocol L (ph(?n := PLocked h))
      ((put_handler h (HLock ?n) (put_worker ?n (create_worker L ?i) s))\<lparr>lnext := ?n + 1\<rparr>)"
    using p n users_take [OF users, of h ?n] h unfolding lazy_protocol_def
    by (intro conjI allI impI) (auto simp: create_worker_def split: if_splits)
  have pop: "lazy_protocol L (ph(w := PLocked h)) ((put_handler h (HLock w) s)\<lparr>larray := (larray s)(?i := ws)\<rparr>)"
    if a: "larray s ?i = ws @ [w]" for w ws
  proof -
    have w: "ph w = PQueue" "lserver (lworker s w) = ?i" "w \<notin> set ws"
      using lazy_protocolD(2) [OF p, of ?i] lazy_protocolD(3) [OF p, of w ?i] a by auto
    have "v \<in> set (((larray s)(?i := ws)) j) \<longleftrightarrow> (ph(w := PLocked h)) v = PQueue \<and> lserver (lworker s v) = j" for v j
      using lazy_protocolD(3) [OF p, of v j] w a by (cases "j = ?i"; cases "v = w") auto
    moreover have "distinct (((larray s)(?i := ws)) j)" for j using lazy_protocolD(2) [OF p, of j] a by auto
    ultimately show ?thesis
      using p w users_take [OF users, of h w] h lazy_protocolD(5) [OF p, of w] unfolding lazy_protocol_def
      by (intro conjI allI impI) (auto split: if_splits)
  qed
  show ?thesis
  proof (cases "larray s ?i" rule: rev_cases)
    case Nil
    then show ?thesis using refused new unfolding lazy_take_def Let_def by auto
  next
    case (snoc ws w)
    then show ?thesis using refused pop [OF snoc] unfolding lazy_take_def Let_def by auto
  qed
qed

lemma lazy_start_ok:
  assumes p: "lazy_protocol L ph s" and w: "lpc (lworker s w) = LzCreated"
  shows "lazy_protocol L ph (lazy_start w s)"
proof (cases "lconf (lworker s w)")
  case (Some i)
  then have "lazy_protocol L ph (put_worker w ((lworker s w)\<lparr>lpc := LzEnter\<rparr>) s)"
    using lazy_protocolD(5) [OF p, of w] w
    by (intro lazy_keep [OF p]; cases "ph w") (auto simp: lazy_idle_def)
  then show ?thesis by (simp add: lazy_start_def Some)
qed (use p in \<open>simp add: lazy_start_def\<close>)

lemma lazy_check_ok:
  assumes p: "lazy_protocol L ph s" and w: "lpc (lworker s w) \<in> {LzEnter, LzCheck, LzWait True}"
  shows "lazy_protocol L ph (lazy_check w s)"
  unfolding lazy_check_def Let_def using lazy_protocolD(5) [OF p, of w] w
  by (cases "ph w") (auto simp: lazy_idle_def intro!: lazy_keep [OF p])

lemma lazy_answer_ok:
  assumes p: "lazy_protocol L ph s" and w: "lpc (lworker s w) = LzServe \<or> lpc (lworker s w) = LzExiting"
    and r: "lreq (lworker s w) = Some r"
  obtains b where "ph w = PWait r b" "lstatus (lworker s w) = LzProcessing"
    "lazy_answer L w r s = put_handler r (HWait w True) (put_worker w ((lworker s w)
       \<lparr>lpriv := fst (lsend L r (lpriv (lworker s w))), ap_sts := fst (snd (lsend L r (lpriv (lworker s w)))),
        lstatus := LzDone, lkeep_going := lkeep_going (lworker s w) \<and> \<not> snd (snd (lsend L r (lpriv (lworker s w)))),
        lpc := LzPosted False, llog := llog (lworker s w) @ [r]\<rparr>) s)"
    "lazy_protocol L (ph(w := PWait r True)) (lazy_answer L w r s)"
proof -
  let ?x = "lworker s w"
  obtain b where f: "ph w = PWait r b" "lstatus ?x = LzProcessing"
    using lazy_protocolD(5) [OF p, of w] w r by (cases "ph w") (auto simp: lazy_idle_def)
  let ?y = "?x\<lparr>lpriv := fst (lsend L r (lpriv ?x)), ap_sts := fst (snd (lsend L r (lpriv ?x))), lstatus := LzDone,
    lkeep_going := lkeep_going ?x \<and> \<not> snd (snd (lsend L r (lpriv ?x))), lpc := LzPosted False, llog := llog ?x @ [r]\<rparr>"
  have eq: "lazy_answer L w r s = put_handler r (HWait w True) (put_worker w ?y s)"
    using signal_one [OF lazy_protocolD(1) [OF p] f(1)]
    by (simp add: lazy_answer_def Let_def put_handler_def split: prod.split)
  have "lazy_protocol L (ph(w := PWait r True)) (lazy_answer L w r s)"
    unfolding eq using w r by (intro lazy_move [OF p disjI2 [OF f(1)]]) auto
  with f eq show thesis by (intro that)
qed

lemma lazy_reschedule_ok:
  assumes p: "lazy_protocol L ph s" and w: "lpc (lworker s w) = LzPosted True"
  shows "\<exists>ph'. lazy_protocol L ph' (lazy_reschedule w s)"
proof (cases "lstatus (lworker s w) = LzDone")
  case True
  then have "lazy_protocol L ph (lazy_reschedule w s)"
    unfolding lazy_reschedule_def Let_def using lazy_protocolD(5) [OF p, of w] w
    by (cases "ph w") (auto simp: lazy_idle_def intro!: lazy_keep [OF p])
  then show ?thesis by blast
next
  case False
  let ?x = "lworker s w" and ?i = "lserver (lworker s w)"
  let ?y = "?x\<lparr>lpc := (if lkeep_going ?x then LzCheck else LzLeave)\<rparr>"
  have f: "ph w = PNone" "lstatus ?x = LzIdle"
    using lazy_protocolD(5) [OF p, of w] w False by (cases "ph w"; auto simp: lazy_idle_def)+
  have new: "w \<notin> set (larray s j)" for j using lazy_protocolD(3) [OF p, of w j] f(1) by simp
  have "lazy_protocol L (ph(w := PQueue)) ((put_worker w ?y s)\<lparr>larray := (larray s)(?i := larray s ?i @ [w])\<rparr>)"
    using p f new w users_phase [OF lazy_protocolD(1) [OF p], of w PQueue] unfolding lazy_protocol_def
    by (intro conjI allI impI) (auto simp: lazy_idle_def split: if_splits)
  then show ?thesis using False by (auto simp: lazy_reschedule_def Let_def)
qed

lemma lazy_protocol_step:
  assumes step: "lazy_step L s s'" and p: "lazy_protocol L ph s"
  shows "\<exists>ph'. lazy_protocol L ph' s'"
proof -
  have ok: "lazy_ok (ph w) (lworker s w)" for w using lazy_protocolD(5) [OF p] .
  show ?thesis
    using step
  proof cases
    case (lz_starts w)
    then show ?thesis using lazy_start_ok [OF p] by blast
  next
    case (lz_checks w)
    then show ?thesis using lazy_check_ok [OF p] by blast
  next
    case (lz_serves w r)
    show ?thesis
    proof (cases "snd (snd (lsend L r (lpriv (lworker s w)))) \<and> \<not> lsingle_exit L")
      case True
      have fin: "\<And>i t v. lfinal s \<noteq> FnSignal i t v" and s': "s' = (put_worker w ((lworker s w)\<lparr>lpc := LzExiting\<rparr>) s)
          \<lparr>lshutdown := True, lfinal := FnHost 0, lowner := lhost L r\<rparr>"
        using lz_serves(4) True by (auto simp: lazy_serve_def split: if_splits)
      have q: "lazy_protocol L ph (put_worker w ((lworker s w)\<lparr>lpc := LzExiting\<rparr>) s)"
        using ok [of w] lz_serves(2) by (intro lazy_keep [OF p]; cases "ph w") (auto simp: lazy_idle_def)
      have "lazy_protocol L ph ((put_worker w ((lworker s w)\<lparr>lpc := LzExiting\<rparr>) s)\<lparr>lshutdown := True, lfinal := FnHost 0\<rparr>)"
        using q fin by (intro lazy_final) simp_all
      then show ?thesis unfolding s' by auto
    next
      case False
      then have "s' = lazy_answer L w r s" using lz_serves(4) by (auto simp: lazy_serve_def)
      then show ?thesis using lazy_answer_ok [OF p disjI1 [OF lz_serves(2)] lz_serves(3)] by metis
    qed
  next
    case (lz_exits w r)
    then show ?thesis using lazy_answer_ok [OF p disjI2 [OF lz_exits(3)] lz_exits(4)] by metis
  next
    case (lz_reschedules w)
    then show ?thesis using lazy_reschedule_ok [OF p] by blast
  next
    case (lz_leaves w)
    have "lazy_protocol L ph (put_worker w ((lworker s w)\<lparr>lpc := LzGone\<rparr>) s)"
      using ok [of w] lz_leaves(3) by (intro lazy_keep [OF p]; cases "ph w") (auto simp: lazy_idle_def)
    then show ?thesis unfolding lz_leaves(1) lazy_leave_def by auto
  next
    case (lz_spurious_wait w)
    have "lazy_protocol L ph s'" unfolding lz_spurious_wait(1)
      using ok [of w] lz_spurious_wait(3) by (intro lazy_keep [OF p]; cases "ph w") (auto simp: lazy_idle_def)
    then show ?thesis by blast
  next
    case (lz_spurious_posted w)
    have "lazy_protocol L ph s'" unfolding lz_spurious_posted(1)
      using ok [of w] lz_spurious_posted(3) by (intro lazy_keep [OF p]; cases "ph w") (auto simp: lazy_idle_def)
    then show ?thesis by blast
  next
    case (lz_takes h)
    then show ?thesis using lazy_take_ok [OF p] by blast
  next
    case (lz_posts h w)
    have w: "ph w = PLocked h" using lazy_users(1) [OF p lz_posts(3)] .
    let ?x = "lazy_signalled ((lworker s w)\<lparr>lreq := Some h, lstatus := LzInit, lconf := Some (lhost L h)\<rparr>)"
    have "lazy_ok (PWait h False) ?x" "lpc (lworker s w) \<noteq> LzUnborn"
      using ok [of w] w lz_posts(4) lazy_protocolD(6) [OF p disjI1 [OF w]]
      by (auto simp: lazy_idle_def lazy_holds_def lazy_signalled_def)
    then have "lazy_protocol L (ph(w := PWait h False)) s'"
      unfolding lz_posts(1) lazy_post_def
      by (intro lazy_move [OF p disjI1 [OF w]]) (auto simp: lazy_signalled_def)
    then show ?thesis by blast
  next
    case (lz_collects h w)
    have w: "ph w = PWait h True" using lazy_users(2) [OF p lz_collects(3)] .
    show ?thesis
    proof (cases "lstatus (lworker s w) = LzDone")
      case True
      let ?x = "lazy_signalled ((lworker s w)\<lparr>lstatus := LzIdle, lreq := None\<rparr>)"
      have "lazy_ok PNone ?x" "lpc (lworker s w) \<noteq> LzUnborn"
        using ok [of w] w True by (auto simp: lazy_signalled_def)
      then have "lazy_protocol L (ph(w := PNone)) s'"
        unfolding lz_collects(1) lazy_collect_def using True
        by (auto simp: lazy_signalled_def intro!: lazy_move [OF p disjI2 [OF w]])
      then show ?thesis by blast
    next
      case False
      then have "lazy_ok (PWait h False) (lworker s w)" "lpc (lworker s w) \<noteq> LzUnborn" using ok [of w] w by auto
      then have "lazy_protocol L (ph(w := PWait h False)) (put_handler h (HWait w False) (put_worker w (lworker s w) s))"
        by (intro lazy_move [OF p disjI2 [OF w]]) auto
      then show ?thesis using False by (auto simp: lz_collects(1) lazy_collect_def put_worker_def)
    qed
  next
    case (lz_spurious_request h w)
    have w: "ph w = PWait h False" using lazy_users(2) [OF p lz_spurious_request(3)] .
    then have "lazy_ok (PWait h True) (lworker s w)" "lpc (lworker s w) \<noteq> LzUnborn" using ok [of w] by auto
    then have "lazy_protocol L (ph(w := PWait h True)) (put_handler h (HWait w True) (put_worker w (lworker s w) s))"
      by (intro lazy_move [OF p disjI2 [OF w]]) auto
    then show ?thesis by (auto simp: lz_spurious_request(1) put_worker_def)
  next
    case lz_finalizes
    have "lazy_protocol L ph (s\<lparr>lshutdown := True, lfinal := FnHost 0\<rparr>)"
      using p lz_finalizes(3) by (intro lazy_final) auto
    then show ?thesis unfolding lz_finalizes(1) by auto
  next
    case (lz_host i)
    then show ?thesis using lazy_final [OF p] by auto
  next
    case (lz_tries i t c)
    then show ?thesis using lazy_final [OF p, of "finalize_try (lowner s) i t c"]
      by (auto simp: finalize_try_def split: if_splits)
  next
    case (lz_drained i t)
    then show ?thesis using lazy_final [OF p] by auto
  next
    case (lz_drains i t ws w)
    have w: "ph w = PQueue" "lserver (lworker s w) = i" "w \<notin> set ws"
      using lazy_protocolD(2) [OF p, of i] lazy_protocolD(3) [OF p, of w i] lz_drains(4) by auto
    have "v \<in> set (((larray s)(i := ws)) j) \<longleftrightarrow> (ph(w := PShut)) v = PQueue \<and> lserver (lworker s v) = j" for v j
      using lazy_protocolD(3) [OF p, of v j] w lz_drains(4) by (cases "j = i"; cases "v = w") auto
    moreover have "distinct (((larray s)(i := ws)) j)" for j using lazy_protocolD(2) [OF p, of j] lz_drains(4) by auto
    moreover have "ph v \<noteq> PShut" for v using lazy_protocolD(4) [OF p, of v] lz_drains(3) by auto
    ultimately have "lazy_protocol L (ph(w := PShut)) s'"
      using p w users_phase [OF lazy_protocolD(1) [OF p], of w PShut] ok [of w]
      unfolding lz_drains(1) lazy_protocol_def by (intro conjI allI impI) (auto split: if_splits)
    then show ?thesis by blast
  next
    case (lz_tells i t w)
    have w: "ph w = PShut" using lazy_protocolD(4) [OF p] lz_tells(3) by blast
    let ?x = "lazy_signalled ((lworker s w)\<lparr>lreq := None, lstatus := LzThreadExit\<rparr>)"
    have x: "lazy_ok PNone ?x" "lserver ?x = lserver (lworker s w)" "lpc (lworker s w) \<noteq> LzUnborn"
      using ok [of w] w lz_tells(4) by (auto simp: lazy_idle_def lazy_holds_def lazy_signalled_def)
    have n: "ph w \<noteq> PQueue" "ph w \<noteq> PLocked h" "ph w \<noteq> PWait h b" for h b using w by simp_all
    have u: "ph v = PShut \<longleftrightarrow> v = w" for v using lazy_protocolD(4) [OF p, of v] lz_tells(3) by auto
    have "users_agree (ph(w := PNone)) (lhandler s)" using users_phase [OF lazy_protocolD(1) [OF p], of w PNone] w by simp
    then have "lazy_protocol L (ph(w := PNone)) s'"
      using p u x n unfolding lz_tells(1) lazy_protocol_def by (intro conjI allI impI) (auto split: if_splits)
    then show ?thesis by blast
  qed
qed

section \<open>Who answers a request\<close>

text \<open>The data of a Tcl thread of a host after the requests of a list, and the status one gets after them
  from a thread of its own host.\<close>

definition lazy_state_after :: "'p lazy_lib \<Rightarrow> nat \<Rightarrow> nat list \<Rightarrow> 'p" where
  "lazy_state_after L i hs = foldl (\<lambda>p h. fst (lsend L h p)) (lfresh L i) hs"

definition lazy_code_after :: "'p lazy_lib \<Rightarrow> nat list \<Rightarrow> nat \<Rightarrow> int" where
  "lazy_code_after L hs h = fst (snd (lsend L h (lazy_state_after L (lhost L h) hs)))"

definition lazy_posted :: "'p lazy_bridge_status \<Rightarrow> nat \<Rightarrow> int option" where
  "lazy_posted s w = (if lstatus (lworker s w) = LzDone then Some (ap_sts (lworker s w)) else None)"

definition lazy_answered :: "'p lazy_bridge_status \<Rightarrow> nat \<Rightarrow> int option" where
  "lazy_answered s = answer_seen (lhandler s) (lazy_posted s)"

definition lazy_logs :: "'p lazy_bridge_status \<Rightarrow> nat \<Rightarrow> nat list" where
  "lazy_logs s w = llog (lworker s w)"

definition lazy_log_ok :: "'p lazy_lib \<Rightarrow> 'p lazy_tcl_worker \<Rightarrow> bool" where
  "lazy_log_ok L x \<longleftrightarrow> lpriv x = lazy_state_after L (lserver x) (llog x)
     \<and> (\<forall>h\<in>set (llog x). lhost L h = lserver x) \<and> (lpc x = LzUnborn \<longrightarrow> llog x = [])"

definition lazy_quiet :: "'p lazy_lib \<Rightarrow> 'p lazy_bridge_status \<Rightarrow> 'p lazy_bridge_status \<Rightarrow> bool" where
  "lazy_quiet L s s' \<longleftrightarrow> lazy_answered s' = lazy_answered s \<and> lazy_logs s' = lazy_logs s
     \<and> (\<forall>w. lazy_log_ok L (lworker s' w))"

definition lazy_serves :: "'p lazy_lib \<Rightarrow> 'p lazy_bridge_status \<Rightarrow> 'p lazy_bridge_status \<Rightarrow> bool" where
  "lazy_serves L s s' \<longleftrightarrow> (\<exists>h w. lazy_answered s h = None
     \<and> lazy_answered s' = (lazy_answered s)(h \<mapsto> lazy_code_after L (lazy_logs s w) h)
     \<and> lazy_logs s' = (lazy_logs s)(w := lazy_logs s w @ [h])) \<and> (\<forall>w. lazy_log_ok L (lworker s' w))"

lemma lazy_answered_cong:
  "lworker s' = lworker s \<Longrightarrow> lhandler s' = lhandler s \<Longrightarrow> lazy_answered s' = lazy_answered s"
  unfolding lazy_answered_def lazy_posted_def by (simp only:)

lemma lazy_quiet_cong:
  "lworker t = lworker s' \<Longrightarrow> lhandler t = lhandler s' \<Longrightarrow> lazy_quiet L s t = lazy_quiet L s s'"
  using lazy_answered_cong [of t s'] unfolding lazy_quiet_def lazy_logs_def [abs_def] by simp

lemma lazy_quiet_frame [simp]:
  "lazy_quiet L s (t\<lparr>larray := a\<rparr>) = lazy_quiet L s t" "lazy_quiet L s (t\<lparr>lnext := n\<rparr>) = lazy_quiet L s t"
  "lazy_quiet L s (t\<lparr>lshutdown := b\<rparr>) = lazy_quiet L s t" "lazy_quiet L s (t\<lparr>lfinal := f\<rparr>) = lazy_quiet L s t"
  "lazy_quiet L s (t\<lparr>lowner := n\<rparr>) = lazy_quiet L s t" "lazy_quiet L s (t\<lparr>lthreads_count := c\<rparr>) = lazy_quiet L s t"
  "lazy_quiet L s (t\<lparr>lcrashed := b\<rparr>) = lazy_quiet L s t"
  by (rule lazy_quiet_cong; simp)+

text \<open>A record that changes without a change of what it holds for its thread of httpd.\<close>

lemma lazy_quiet_worker:
  assumes ok: "\<forall>w. lazy_log_ok L (lworker s w)" and x: "llog x = llog (lworker s w)"
    "lpriv x = lpriv (lworker s w)" "lserver x = lserver (lworker s w)" "lpc x \<noteq> LzUnborn"
    and ans: "\<And>h b. lhandler s h = HWait w b \<Longrightarrow> lazy_posted (put_worker w x s) w = lazy_posted s w"
  shows "lazy_quiet L s (put_worker w x s)"
proof -
  have "lazy_answered (put_worker w x s) h = lazy_answered s h" for h
  proof (cases "lhandler s h")
    case (HWait v b)
    then show ?thesis using ans [of h b]
      by (cases "v = w") (simp_all add: lazy_answered_def answer_seen_def lazy_posted_def split: if_splits)
  qed (simp_all add: lazy_answered_def answer_seen_def)
  moreover have "lazy_logs (put_worker w x s) = lazy_logs s" using x(1) by (auto simp: lazy_logs_def)
  moreover have "lazy_log_ok L (lworker (put_worker w x s) v)" for v
    using ok [THEN spec, of v] ok [THEN spec, of w] x by (cases "v = w") (auto simp: lazy_log_ok_def)
  ultimately show ?thesis unfolding lazy_quiet_def by blast
qed

text \<open>A thread of httpd that moves without a change of what it has or sees.\<close>

lemma lazy_quiet_handler:
  assumes ok: "\<forall>w. lazy_log_ok L (lworker s w)" and ans: "answer_seen ((lhandler s)(h := pc)) (lazy_posted s) h = lazy_answered s h"
  shows "lazy_quiet L s (put_handler h pc s)"
proof -
  have "lazy_posted (put_handler h pc s) = lazy_posted s" by (simp add: lazy_posted_def fun_eq_iff)
  then have "lazy_answered (put_handler h pc s) k = lazy_answered s k" for k
    using ans by (cases "k = h") (simp_all add: lazy_answered_def answer_seen_def)
  then show ?thesis using ok unfolding lazy_quiet_def by (auto simp: lazy_logs_def)
qed

lemma lazy_quiet_trans:
  "lazy_quiet L s t \<Longrightarrow> lazy_quiet L t u \<Longrightarrow> lazy_quiet L s u"
  unfolding lazy_quiet_def by simp

lemma lazy_answer_serves:
  assumes p: "lazy_protocol L ph s" and ok: "\<forall>w. lazy_log_ok L (lworker s w)"
    and w: "lpc (lworker s w) = LzServe \<or> lpc (lworker s w) = LzExiting" and r: "lreq (lworker s w) = Some r"
  shows "lazy_serves L s (lazy_answer L w r s)"
proof (rule lazy_answer_ok [OF p w r])
  fix b
  let ?x = "lworker s w" and ?s' = "lazy_answer L w r s" and ?c = "fst (snd (lsend L r (lpriv (lworker s w))))"
  assume f: "ph w = PWait r b" "lstatus ?x = LzProcessing"
    and s': "?s' = put_handler r (HWait w True) (put_worker w (?x\<lparr>lpriv := fst (lsend L r (lpriv ?x)), ap_sts := ?c,
        lstatus := LzDone, lkeep_going := lkeep_going ?x \<and> \<not> snd (snd (lsend L r (lpriv ?x))),
        lpc := LzPosted False, llog := llog ?x @ [r]\<rparr>) s)"
  have hw: "lhandler s k = HWait w c \<longleftrightarrow> k = r \<and> c = b" for k c
    using users_agreeD(2) [OF lazy_protocolD(1) [OF p], of k w c] f(1) by auto
  have host: "lserver ?x = lhost L r" using lazy_protocolD(6) [OF p disjI2 [OF f(1)]] .
  have none: "lazy_answered s r = None"
    using hw [of r b] f(2) by (simp add: lazy_answered_def answer_seen_def lazy_posted_def)
  have code: "?c = lazy_code_after L (lazy_logs s w) r"
    using ok [THEN spec, of w] host by (simp add: lazy_log_ok_def lazy_code_after_def lazy_logs_def)
  have "lazy_answered ?s' k = ((lazy_answered s)(r \<mapsto> ?c)) k" for k
  proof (cases "lhandler s k")
    case (HWait v c)
    then show ?thesis using hw [of k c]
      by (cases "k = r"; cases "v = w") (simp_all add: s' lazy_answered_def answer_seen_def lazy_posted_def)
  qed (simp_all add: s' lazy_answered_def answer_seen_def lazy_posted_def)
  then have ans: "lazy_answered ?s' = (lazy_answered s)(r \<mapsto> ?c)" by blast
  have lg: "lazy_logs ?s' = (lazy_logs s)(w := lazy_logs s w @ [r])" by (auto simp: s' lazy_logs_def)
  have "lazy_log_ok L (lworker ?s' v)" for v
    using ok [THEN spec, of v] ok [THEN spec, of w] host
    by (cases "v = w") (auto simp: s' lazy_log_ok_def lazy_state_after_def)
  then show ?thesis using none ans lg code unfolding lazy_serves_def by metis
qed

text \<open>While the Tcl thread is elsewhere the record holds no answer.\<close>

lemma lazy_no_answer:
  assumes p: "lazy_protocol L ph s" and pc: "lpc (lworker s w) \<notin> {LzPosted True, LzPosted False}"
    and h: "lhandler s h = HWait w b"
  shows "lstatus (lworker s w) \<noteq> LzDone"
  using lazy_protocolD(5) [OF p, of w] lazy_users(2) [OF p h] pc by auto

lemma lazy_quiet_or_serves:
  assumes step: "lazy_step L s s'" and p: "lazy_protocol L ph s" and ok: "\<forall>w. lazy_log_ok L (lworker s w)"
  shows "lazy_quiet L s s' \<or> lazy_serves L s s'"
proof -
  have refl: "lazy_quiet L s s" using ok by (simp add: lazy_quiet_def)
  have same: "lazy_quiet L s t" if "lworker t = lworker s" "lhandler t = lhandler s" for t
    using lazy_quiet_cong [OF that] refl by blast
  note q = lazy_quiet_worker [OF ok] and none = lazy_no_answer [OF p]
  show ?thesis
    using step
  proof cases
    case (lz_starts w)
    show ?thesis
    proof (cases "lconf (lworker s w)")
      case None
      then show ?thesis by (intro disjI1 same) (simp_all add: lz_starts(1) lazy_start_def)
    next
      case (Some i)
      have "lazy_quiet L s (put_worker w ((lworker s w)\<lparr>lpc := LzEnter\<rparr>) s)"
        by (rule q) (simp_all add: lazy_posted_def)
      then show ?thesis unfolding lz_starts(1) lazy_start_def Some
        by (intro disjI1) simp
    qed
  next
    case (lz_checks w)
    have n: "lhandler s h = HWait w b \<Longrightarrow> lstatus (lworker s w) \<noteq> LzDone" for h b using none lz_checks(3) by auto
    have "lazy_quiet L s s'" unfolding lz_checks(1) lazy_check_def Let_def using n
      by (auto simp: lazy_posted_def intro!: q)
    then show ?thesis ..
  next
    case (lz_serves w r)
    show ?thesis
    proof (cases "snd (snd (lsend L r (lpriv (lworker s w)))) \<and> \<not> lsingle_exit L")
      case True
      have s': "s' = (put_worker w ((lworker s w)\<lparr>lpc := LzExiting\<rparr>) s)
          \<lparr>lshutdown := True, lfinal := FnHost 0, lowner := lhost L r\<rparr>"
        using lz_serves(4) True by (auto simp: lazy_serve_def split: if_splits)
      have "lazy_quiet L s (put_worker w ((lworker s w)\<lparr>lpc := LzExiting\<rparr>) s)"
        by (rule q) (simp_all add: lazy_posted_def)
      then show ?thesis unfolding s'
        by (intro disjI1) simp
    next
      case False
      then have "s' = lazy_answer L w r s" using lz_serves(4) by (auto simp: lazy_serve_def)
      then show ?thesis using lazy_answer_serves [OF p ok disjI1 [OF lz_serves(2)] lz_serves(3)] by blast
    qed
  next
    case (lz_exits w r)
    then show ?thesis using lazy_answer_serves [OF p ok] by blast
  next
    case (lz_reschedules w)
    let ?t = "put_worker w ((lworker s w)\<lparr>lpc := (if lkeep_going (lworker s w) then LzCheck else LzLeave)\<rparr>) s"
    have "lazy_quiet L s (put_worker w ((lworker s w)\<lparr>lpc := LzPosted False\<rparr>) s)" "lazy_quiet L s ?t"
      by (rule q; simp add: lazy_posted_def)+
    then have "lazy_quiet L s s'" unfolding lz_reschedules(1) lazy_reschedule_def Let_def
      by auto
    then show ?thesis ..
  next
    case (lz_leaves w)
    have "lazy_quiet L s (put_worker w ((lworker s w)\<lparr>lpc := LzGone\<rparr>) s)" by (rule q) (simp_all add: lazy_posted_def)
    then show ?thesis unfolding lz_leaves(1) lazy_leave_def
      by (intro disjI1) simp
  next
    case (lz_spurious_wait w)
    have "lazy_quiet L s s'" unfolding lz_spurious_wait(1) by (rule q) (simp_all add: lazy_posted_def)
    then show ?thesis ..
  next
    case (lz_spurious_posted w)
    have "lazy_quiet L s s'" unfolding lz_spurious_posted(1) by (rule q) (simp_all add: lazy_posted_def)
    then show ?thesis ..
  next
    case (lz_takes h)
    let ?n = "lnext s" and ?c = "put_worker (lnext s) (create_worker L (lhost L h)) s"
    have a: "lazy_answered s h = None" using lz_takes(3) by (simp add: lazy_answered_def answer_seen_def)
    have "lpc (lworker s ?n) = LzUnborn" using lazy_protocolD(7) [OF p] by simp
    then have log: "llog (lworker s ?n) = []" and u: "ph ?n = PNone"
      using ok [THEN spec, of ?n] lazy_protocolD(5) [OF p, of ?n]
      by (auto simp: lazy_log_ok_def lazy_idle_def elim: lazy_ok.elims)
    have n: "lhandler s k \<noteq> HWait ?n b" for k b using lazy_users(2) [OF p, of k ?n b] u by auto
    have ans: "lazy_answered ?c k = lazy_answered s k" for k
      using n [of k] by (cases "lhandler s k") (auto simp: lazy_answered_def answer_seen_def lazy_posted_def)
    have lg: "lazy_logs ?c = lazy_logs s" using log by (auto simp: lazy_logs_def create_worker_def)
    have okc: "\<forall>w. lazy_log_ok L (lworker ?c w)"
      using ok by (simp add: create_worker_def lazy_log_ok_def lazy_state_after_def)
    have c: "lazy_quiet L s ?c" unfolding lazy_quiet_def using ans lg okc by blast
    have "lazy_quiet L ?c (put_handler h (HLock ?n) ?c)"
      using ans [of h] a by (intro lazy_quiet_handler [OF okc]) (simp add: answer_seen_def)
    then have new: "lazy_quiet L s (put_handler h (HLock ?n) ?c)" by (rule lazy_quiet_trans [OF c])
    have old: "lazy_quiet L s (put_handler h pc s)" if "pc = HRefused \<or> pc = HLock v" for pc v
      using a that by (intro lazy_quiet_handler [OF ok]) (auto simp: answer_seen_def)
    have "lazy_quiet L s s'" unfolding lz_takes(1) lazy_take_def Let_def
      using new old [of HRefused] old [of "HLock (last (larray s (lhost L h)))"]
      by auto
    then show ?thesis ..
  next
    case (lz_posts h w)
    let ?x = "lazy_signalled ((lworker s w)\<lparr>lreq := Some h, lstatus := LzInit, lconf := Some (lhost L h)\<rparr>)"
    have w: "ph w = PLocked h" using lazy_users(1) [OF p lz_posts(3)] .
    have pc: "lpc ?x \<noteq> LzUnborn" using lazy_protocolD(5) [OF p, of w] w
      by (auto simp: lazy_signalled_def lazy_idle_def)
    have n: "lhandler s k \<noteq> HWait w b" for k b using lazy_users(2) [OF p, of k w b] w by auto
    have t: "lazy_quiet L s (put_worker w ?x s)"
      by (rule q) (use n pc in \<open>auto simp: lazy_signalled_def\<close>)
    have okt: "\<forall>v. lazy_log_ok L (lworker (put_worker w ?x s) v)" using t unfolding lazy_quiet_def by blast
    have "lazy_answered (put_worker w ?x s) h = None"
      using lz_posts(3) by (simp add: lazy_answered_def answer_seen_def)
    then have "lazy_quiet L (put_worker w ?x s) s'"
      unfolding lz_posts(1) lazy_post_def
      by (intro lazy_quiet_handler [OF okt]) (simp add: answer_seen_def lazy_posted_def lazy_signalled_def)
    then show ?thesis using lazy_quiet_trans [OF t] by blast
  next
    case (lz_collects h w)
    have w: "ph w = PWait h True" using lazy_users(2) [OF p lz_collects(3)] .
    show ?thesis
    proof (cases "lstatus (lworker s w) = LzDone")
      case True
      let ?x = "lazy_signalled ((lworker s w)\<lparr>lstatus := LzIdle, lreq := None\<rparr>)"
      let ?t = "put_handler h (HDone (ap_sts (lworker s w))) s"
      have t: "lazy_quiet L s ?t" using lz_collects(3) True
        by (intro lazy_quiet_handler [OF ok]) (simp add: answer_seen_def lazy_answered_def lazy_posted_def)
      have okt: "\<forall>v. lazy_log_ok L (lworker ?t v)" using t unfolding lazy_quiet_def by blast
      have pc: "lpc ?x \<noteq> LzUnborn" using lazy_protocolD(5) [OF p, of w] w True by (auto simp: lazy_signalled_def)
      have n: "lhandler ?t k \<noteq> HWait w b" for k b using lazy_users(2) [OF p, of k w b] w by auto
      have "lazy_quiet L ?t (put_worker w ?x ?t)"
        by (rule lazy_quiet_worker [OF okt]) (use n pc in \<open>auto simp: lazy_signalled_def\<close>)
      moreover have "s' = put_worker w ?x ?t" using True
        by (simp add: lz_collects(1) lazy_collect_def put_worker_def put_handler_def)
      ultimately show ?thesis using lazy_quiet_trans [OF t] by blast
    next
      case False
      then have "lazy_quiet L s s'" unfolding lz_collects(1) lazy_collect_def using lz_collects(3)
        by (auto simp: answer_seen_def lazy_answered_def intro!: lazy_quiet_handler [OF ok])
      then show ?thesis ..
    qed
  next
    case (lz_spurious_request h w)
    have "lazy_quiet L s s'" unfolding lz_spurious_request(1) using lz_spurious_request(3)
      by (intro lazy_quiet_handler [OF ok]) (simp add: answer_seen_def lazy_answered_def)
    then show ?thesis ..
  next
    case (lz_tells i t w)
    have w: "ph w = PShut" using lazy_protocolD(4) [OF p] lz_tells(3) by blast
    let ?x = "lazy_signalled ((lworker s w)\<lparr>lreq := None, lstatus := LzThreadExit\<rparr>)"
    have pc: "lpc ?x \<noteq> LzUnborn" using lazy_protocolD(5) [OF p, of w] w
      by (auto simp: lazy_signalled_def lazy_idle_def)
    have n: "lhandler s k \<noteq> HWait w b" for k b using lazy_users(2) [OF p, of k w b] w by auto
    have "lazy_quiet L s (put_worker w ?x s)" by (rule q) (use n pc in \<open>auto simp: lazy_signalled_def\<close>)
    then show ?thesis unfolding lz_tells(1)
      by (intro disjI1) simp
  qed (use same in simp_all)
qed

definition lazy_inv :: "'p lazy_lib \<Rightarrow> 'p lazy_bridge_status \<Rightarrow> bool" where
  "lazy_inv L s \<longleftrightarrow> (\<exists>ph. lazy_protocol L ph s) \<and> (\<forall>w. lazy_log_ok L (lworker s w))"

lemma lazy_inv_step:
  assumes i: "lazy_inv L s" and step: "lazy_step L s s'"
  shows "lazy_inv L s'" "lazy_answered s' = lazy_answered s \<and> lazy_logs s' = lazy_logs s
      \<or> (\<exists>h w. lazy_answered s h = None \<and> lazy_answered s' = (lazy_answered s)(h \<mapsto> lazy_code_after L (lazy_logs s w) h)
           \<and> lazy_logs s' = (lazy_logs s)(w := lazy_logs s w @ [h]))"
proof -
  obtain ph where p: "lazy_protocol L ph s" and ok: "\<forall>w. lazy_log_ok L (lworker s w)"
    using i unfolding lazy_inv_def by blast
  have q: "lazy_quiet L s s' \<or> lazy_serves L s s'" by (rule lazy_quiet_or_serves [OF step p ok])
  then show "lazy_inv L s'"
    unfolding lazy_inv_def lazy_quiet_def lazy_serves_def using lazy_protocol_step [OF step p] by blast
  show "lazy_answered s' = lazy_answered s \<and> lazy_logs s' = lazy_logs s
      \<or> (\<exists>h w. lazy_answered s h = None \<and> lazy_answered s' = (lazy_answered s)(h \<mapsto> lazy_code_after L (lazy_logs s w) h)
           \<and> lazy_logs s' = (lazy_logs s)(w := lazy_logs s w @ [h]))"
    using q unfolding lazy_quiet_def lazy_serves_def by blast
qed

interpretation lz: answering "lazy_step L" "LazyBridge_ChildInit L" "lazy_inv L" lazy_answered lazy_logs
    "lazy_code_after L"
  for L
proof
  have "lazy_protocol L (\<lambda>_. PNone) (LazyBridge_ChildInit L)"
    by (auto simp: LazyBridge_ChildInit_def lazy_protocol_def users_agree_def)
  then show "lazy_inv L (LazyBridge_ChildInit L)"
    unfolding lazy_inv_def by (auto simp: LazyBridge_ChildInit_def lazy_log_ok_def lazy_state_after_def)
  show "lazy_answered (LazyBridge_ChildInit L) h = None" "lazy_logs (LazyBridge_ChildInit L) w = []" for h w
    by (simp_all add: LazyBridge_ChildInit_def lazy_answered_def answer_seen_def lazy_logs_def)
qed (rule lazy_inv_step; assumption)+

section \<open>Requests are answered\<close>

text \<open>What a Tcl thread and a thread of httpd do next, a wait that is over included.\<close>

definition lazy_thread_turn :: "'p lazy_lib \<Rightarrow> nat \<Rightarrow> 'p lazy_bridge_status \<Rightarrow> 'p lazy_bridge_status option" where
  "lazy_thread_turn L w s =
     (if lcrashed s then None
      else case lpc (lworker s w) of
        LzCreated \<Rightarrow> Some (lazy_start w s)
      | LzEnter \<Rightarrow> Some (lazy_check w s)
      | LzCheck \<Rightarrow> Some (lazy_check w s)
      | LzWait b \<Rightarrow> if b then Some (lazy_check w s) else None
      | LzServe \<Rightarrow> (case lreq (lworker s w) of None \<Rightarrow> None | Some r \<Rightarrow> lazy_serve L w r s)
      | LzExiting \<Rightarrow> if lfinal s = FnEnd then map_option (\<lambda>r. lazy_answer L w r s) (lreq (lworker s w)) else None
      | LzPosted b \<Rightarrow> if b then Some (lazy_reschedule w s) else None
      | LzLeave \<Rightarrow> Some (lazy_leave w s)
      | _ \<Rightarrow> None)"

definition lazy_handler_turn :: "'p lazy_lib \<Rightarrow> nat \<Rightarrow> 'p lazy_bridge_status \<Rightarrow> 'p lazy_bridge_status option" where
  "lazy_handler_turn L h s =
     (if lcrashed s then None
      else case lhandler s h of
        HLock w \<Rightarrow> if lazy_holds (lpc (lworker s w)) then None else Some (lazy_post L h w s)
      | HWait w b \<Rightarrow> if \<not> b \<or> lazy_holds (lpc (lworker s w)) then None else Some (lazy_collect h w s)
      | _ \<Rightarrow> None)"

definition lazy_turn :: "'p lazy_lib \<Rightarrow> actor \<Rightarrow> 'p lazy_bridge_status \<Rightarrow> 'p lazy_bridge_status option" where
  "lazy_turn L a s =
     (case a of Tcl w \<Rightarrow> lazy_thread_turn L w s | Httpd h \<Rightarrow> lazy_handler_turn L h s
      | Arrives h \<Rightarrow> if lcrashed s \<or> lhandler s h \<noteq> HStart then None else Some (lazy_take L h s))"

definition lazy_due :: "'p lazy_lib \<Rightarrow> actor \<Rightarrow> 'p lazy_bridge_status \<Rightarrow> 'p lazy_bridge_status option" where
  "lazy_due L a s = (case a of Arrives h \<Rightarrow> None | _ \<Rightarrow> lazy_turn L a s)"

lemma lazy_turn_step: "lazy_turn L a s = Some s' \<Longrightarrow> lazy_step L s s'"
proof (cases a)
  case (Tcl w)
  then show "lazy_turn L a s = Some s' \<Longrightarrow> ?thesis"
    by (cases "lpc (lworker s w)")
      (auto simp: lazy_turn_def lazy_thread_turn_def split: if_splits option.splits intro: lazy_step.intros)
next
  case (Httpd h)
  then show "lazy_turn L a s = Some s' \<Longrightarrow> ?thesis"
    by (cases "lhandler s h")
      (auto simp: lazy_turn_def lazy_handler_turn_def split: if_splits intro: lazy_step.intros)
qed (auto simp: lazy_turn_def split: if_splits intro: lazy_step.intros)

text \<open>The way of a request from its record, new or from the array, to the answer.\<close>

fun lazy_stage :: "nat \<Rightarrow> nat \<Rightarrow> nat \<Rightarrow> 'p lazy_bridge_status \<Rightarrow> bool" where
  "lazy_stage w h 0 s \<longleftrightarrow> (\<exists>c. lhandler s h = HDone c)"
| "lazy_stage w h (Suc 0) s \<longleftrightarrow> lhandler s h = HWait w True \<and> lstatus (lworker s w) = LzDone
     \<and> lpc (lworker s w) \<in> {LzPosted True, LzPosted False}"
| "lazy_stage w h (Suc (Suc 0)) s \<longleftrightarrow> (\<exists>b. lhandler s h = HWait w b) \<and> lpc (lworker s w) = LzServe
     \<and> lreq (lworker s w) = Some h"
| "lazy_stage w h (Suc (Suc (Suc 0))) s \<longleftrightarrow> (\<exists>b. lhandler s h = HWait w b)
     \<and> lpc (lworker s w) \<in> {LzEnter, LzWait True} \<and> lstatus (lworker s w) = LzInit \<and> lreq (lworker s w) = Some h"
| "lazy_stage w h (Suc (Suc (Suc (Suc 0)))) s \<longleftrightarrow> (\<exists>b. lhandler s h = HWait w b) \<and> lpc (lworker s w) = LzCreated
     \<and> lconf (lworker s w) \<noteq> None \<and> lstatus (lworker s w) = LzInit \<and> lreq (lworker s w) = Some h"
| "lazy_stage w h (Suc (Suc (Suc (Suc (Suc 0))))) s \<longleftrightarrow> lhandler s h = HLock w \<and> lstatus (lworker s w) = LzIdle
     \<and> (lpc (lworker s w) \<in> {LzWait True, LzWait False} \<or> lpc (lworker s w) = LzCreated \<and> lconf (lworker s w) = None)"
| "lazy_stage w h (Suc (Suc (Suc (Suc (Suc (Suc 0)))))) s \<longleftrightarrow> lhandler s h = HLock w \<and> lstatus (lworker s w) = LzIdle
     \<and> lpc (lworker s w) = LzCheck"
| "lazy_stage w h _ s \<longleftrightarrow> False"

definition lazy_view :: "nat \<Rightarrow> nat \<Rightarrow> 'p lazy_bridge_status \<Rightarrow> 'p lazy_bridge_status \<Rightarrow> bool" where
  "lazy_view w h s s' \<longleftrightarrow> lworker s' w = lworker s w \<and> lhandler s' h = lhandler s h"

lemma lazy_stage_same: "lazy_view w h s s' \<Longrightarrow> lazy_stage w h k s = lazy_stage w h k s'"
  by (cases "(w, h, k, s)" rule: lazy_stage.cases) (simp_all add: lazy_view_def)

lemma lazy_stage_user:
  assumes "lazy_stage w h (Suc k) s"
  shows "lhandler s h = HLock w \<or> (\<exists>b. lhandler s h = HWait w b)" "lpc (lworker s w) \<noteq> LzUnborn"
    "lpc (lworker s w) \<notin> {LzExiting, LzLeave, LzGone}"
  using assms by (cases "(w, h, Suc k, s)" rule: lazy_stage.cases; fastforce)+

text \<open>A turn of the Tcl thread, and one of the thread of httpd: where they lead from each stage.\<close>

lemma lazy_stage_thread:
  assumes s: "lazy_stage w h (Suc k) s" and turn: "lazy_thread_turn L w s = Some s'" and L: "lsingle_exit L"
  shows "lazy_stage w h (if Suc k \<in> {2, 3, 4, 6} then k else Suc k) s'"
proof (cases "(w, h, Suc k, s)" rule: lazy_stage.cases)
  case (2 w h s)
  then show ?thesis using s turn
    by (auto simp: lazy_thread_turn_def lazy_reschedule_def Let_def split: if_splits)
next
  case (3 w h s)
  then obtain b where h: "lhandler s h = HWait w b" and x: "lpc (lworker s w) = LzServe" "lreq (lworker s w) = Some h"
    using s by auto
  have "s' = lazy_answer L w h s" using turn x 3 L by (auto simp: lazy_thread_turn_def lazy_serve_def split: if_splits)
  then have "lazy_stage w h (Suc 0) s'"
    using h by (simp add: lazy_answer_def Let_def signal_waiting_def split: prod.split)
  then show ?thesis using 3 by simp
next
  case (4 w h s)
  then show ?thesis using s turn
    by (auto simp: lazy_thread_turn_def lazy_check_def Let_def split: if_splits)
next
  case (5 w h s)
  then show ?thesis using s turn
    by (auto simp: lazy_thread_turn_def lazy_start_def split: if_splits)
next
  case (6 w h s)
  then show ?thesis using s turn
    by (auto simp: lazy_thread_turn_def lazy_start_def lazy_check_def Let_def split: if_splits)
next
  case (7 w h s)
  then show ?thesis using s turn
    by (auto simp: lazy_thread_turn_def lazy_check_def Let_def split: if_splits)
qed (use s in auto)

lemma lazy_stage_handler:
  assumes s: "lazy_stage w h (Suc k) s" and turn: "lazy_handler_turn L h s = Some s'"
  shows "Suc k \<in> {1, 5} \<Longrightarrow> \<exists>m\<le>k. lazy_stage w h m s'" "\<exists>m\<le>Suc k. lazy_stage w h m s'"
proof -
  have "Suc k \<in> {1, 3, 4, 5} \<and> ((\<exists>m\<le>k. lazy_stage w h m s') \<or> Suc k \<in> {3, 4} \<and> lazy_stage w h (Suc k) s')"
  proof (cases "(w, h, Suc k, s)" rule: lazy_stage.cases)
    case (2 w h s)
    then show ?thesis using s turn
      by (auto simp: lazy_handler_turn_def lazy_collect_def lazy_holds_def split: if_splits)
  next
    case (3 w h s)
    then show ?thesis using s turn by (auto simp: lazy_handler_turn_def lazy_holds_def split: if_splits)
  next
    case (4 w h s)
    then show ?thesis using s turn
      by (auto simp: lazy_handler_turn_def lazy_collect_def split: if_splits)
  next
    case (5 w h s)
    then show ?thesis using s turn
      by (auto simp: lazy_handler_turn_def lazy_collect_def split: if_splits)
  next
    case (6 w h s)
    then have x: "s' = lazy_post L h w s" "lhandler s h = HLock w" "lpc (lworker s w) = LzCreated \<or>
        lpc (lworker s w) \<in> {LzWait True, LzWait False}"
      using s turn by (auto simp: lazy_handler_turn_def split: if_splits)
    then have d: "lazy_stage w h (Suc (Suc (Suc 0))) s' \<or> lazy_stage w h (Suc (Suc (Suc (Suc 0)))) s'"
      by (auto simp: lazy_post_def lazy_signalled_def)
    have k: "k = Suc (Suc (Suc (Suc 0)))" using 6 by simp
    have "\<exists>m\<le>k. lazy_stage w h m s'" using d unfolding k by (metis le_SucI order_refl)
    moreover have "Suc k \<in> {1, 3, 4, 5}" by (simp add: k)
    ultimately show ?thesis using 6(1) by blast
  next
    case (7 w h s)
    then show ?thesis using s turn by (auto simp: lazy_handler_turn_def lazy_holds_def split: if_splits)
  qed (use s in auto)
  then have "(\<exists>m\<le>k. lazy_stage w h m s') \<or> Suc k \<in> {3, 4} \<and> lazy_stage w h (Suc k) s'" by blast
  then show "Suc k \<in> {1, 5} \<Longrightarrow> \<exists>m\<le>k. lazy_stage w h m s'" "\<exists>m\<le>Suc k. lazy_stage w h m s'"
    by (force, metis le_SucI order_refl)
qed

definition lazy_serving :: "'p lazy_lib \<Rightarrow> 'p lazy_bridge_status \<Rightarrow> bool" where
  "lazy_serving L s \<longleftrightarrow> lazy_inv L s \<and> \<not> lshutdown s \<and> \<not> lcrashed s \<and> lsingle_exit L"

text \<open>Steps of others leave the stage alone.\<close>

lemma lazy_stage_step:
  assumes step: "lazy_step L s s'" and p: "lazy_protocol L ph s" and st: "lazy_stage w h (Suc k) s"
    and L: "lsingle_exit L" and alive: "\<not> lcrashed s"
  shows "\<exists>m\<le>Suc k. lazy_stage w h m s'"
proof -
  have same: ?thesis if "lazy_view w h s s'" using st lazy_stage_same [OF that] by blast
  note user = lazy_stage_user [OF st]
  have f: "ph w = PLocked h \<or> (\<exists>b. ph w = PWait h b)" using user(1) lazy_users [OF p] by blast
  have thread: ?thesis if "lazy_thread_turn L w s = Some s'"
    using lazy_stage_thread [OF st that L] by (metis le_SucI order_refl)
  have handler: ?thesis if "lazy_handler_turn L h s = Some s'"
    using lazy_stage_handler(2) [OF st that] .
  have other: "g = h" if "lhandler s g = HLock w \<or> lhandler s g = HWait w b" for g b
    using that lazy_users [OF p, of g w] f by auto
  have mine: "v = w" if "lhandler s h = HLock v \<or> lhandler s h = HWait v b" for v b
    using that user(1) by auto
  have answer: "lazy_view w h s (lazy_answer L v r s)" if "v \<noteq> w" for v r
  proof -
    have "lhandler s h \<noteq> HWait v b" for b using mine that by blast
    then show ?thesis using that
      by (cases "lhandler s h") (auto simp: lazy_view_def lazy_answer_def Let_def signal_waiting_def split: prod.split)
  qed
  show ?thesis
    using step
  proof cases
    case (lz_starts v)
    have "v \<noteq> w \<Longrightarrow> lazy_view w h s s'" unfolding lz_starts(1)
      by (auto simp: lazy_view_def lazy_start_def Let_def split: option.split)
    moreover have "v = w \<Longrightarrow> lazy_thread_turn L w s = Some s'"
      using lz_starts by (auto simp: lazy_thread_turn_def)
    ultimately show ?thesis using same thread by blast
  next
    case (lz_checks v)
    have "v \<noteq> w \<Longrightarrow> lazy_view w h s s'" unfolding lz_checks(1)
      by (auto simp: lazy_view_def lazy_check_def Let_def split: option.split)
    moreover have "v = w \<Longrightarrow> lazy_thread_turn L w s = Some s'"
      using lz_checks by (auto simp: lazy_thread_turn_def)
    ultimately show ?thesis using same thread by blast
  next
    case (lz_serves v r)
    have "s' = lazy_answer L v r s" using lz_serves(4) L by (auto simp: lazy_serve_def)
    then have "v \<noteq> w \<Longrightarrow> lazy_view w h s s'" using answer by simp
    moreover have "v = w \<Longrightarrow> lazy_thread_turn L w s = Some s'"
      using lz_serves by (simp add: lazy_thread_turn_def)
    ultimately show ?thesis using same thread by blast
  next
    case (lz_exits v r)
    then have "v \<noteq> w" using user(3) by auto
    then show ?thesis using same answer lz_exits(1) by blast
  next
    case (lz_reschedules v)
    have "v \<noteq> w \<Longrightarrow> lazy_view w h s s'" unfolding lz_reschedules(1)
      by (auto simp: lazy_view_def lazy_reschedule_def Let_def split: option.split)
    moreover have "v = w \<Longrightarrow> lazy_thread_turn L w s = Some s'"
      using lz_reschedules by (auto simp: lazy_thread_turn_def)
    ultimately show ?thesis using same thread by blast
  next
    case (lz_leaves v)
    then show ?thesis using user(3) by (intro same) (auto simp: lazy_view_def lazy_leave_def)
  next
    case (lz_spurious_wait v)
    then show ?thesis using st
      by (intro exI [of _ "Suc k"]; cases "v = w"; cases "(w, h, Suc k, s)" rule: lazy_stage.cases) auto
  next
    case (lz_spurious_posted v)
    then show ?thesis using st
      by (intro exI [of _ "Suc k"]; cases "v = w"; cases "(w, h, Suc k, s)" rule: lazy_stage.cases) auto
  next
    case (lz_takes g)
    have "lnext s \<noteq> w" using lazy_protocolD(7) [OF p, of w] user(2) by auto
    moreover have "g \<noteq> h" using lz_takes(3) user(1) by auto
    ultimately show ?thesis by (intro same) (simp add: lz_takes(1) lazy_view_def lazy_take_def Let_def)
  next
    case (lz_posts g v)
    show ?thesis
    proof (cases "g = h")
      case True
      then show ?thesis using lz_posts alive by (intro handler) (simp add: lazy_handler_turn_def)
    next
      case False
      then have "v \<noteq> w" using other lz_posts(3) by blast
      then show ?thesis using False by (intro same) (simp add: lz_posts(1) lazy_view_def lazy_post_def)
    qed
  next
    case (lz_collects g v)
    show ?thesis
    proof (cases "g = h")
      case True
      then show ?thesis using lz_collects alive by (intro handler) (simp add: lazy_handler_turn_def)
    next
      case False
      then have "v \<noteq> w" using other lz_collects(3) by blast
      then show ?thesis using False by (intro same) (simp add: lz_collects(1) lazy_view_def lazy_collect_def)
    qed
  next
    case (lz_spurious_request g v)
    show ?thesis
    proof (cases "g = h")
      case True
      then show ?thesis using st lz_spurious_request user(1)
        by (intro exI [of _ "Suc k"]; cases "(w, h, Suc k, s)" rule: lazy_stage.cases) auto
    qed (intro same, simp add: lazy_view_def lz_spurious_request(1))
  next
    case (lz_tells i t v)
    then have "v \<noteq> w" using lazy_protocolD(4) [OF p] f by force
    then show ?thesis by (intro same) (simp add: lazy_view_def lz_tells(1))
  qed (rule same, simp add: lazy_view_def)+
qed

lemma lazy_done_stays: "lazy_step L s s' \<Longrightarrow> lhandler s h = HDone c \<Longrightarrow> lhandler s' h = HDone c"
  by (cases rule: lazy_step.cases)
    (auto simp: lazy_start_def lazy_check_def lazy_serve_def lazy_answer_def lazy_reschedule_def lazy_leave_def
      lazy_take_def lazy_post_def lazy_collect_def Let_def signal_waiting_def split: if_splits option.splits prod.splits)

definition lazy_stage_actor :: "nat \<Rightarrow> nat \<Rightarrow> nat \<Rightarrow> actor" where
  "lazy_stage_actor w h k = (if k = 1 \<or> k = 5 then Httpd h else Tcl w)"

lemma lazy_stage_advances:
  assumes s: "lazy_serving L s" and st: "lazy_stage w h (Suc k) s"
  shows "\<exists>s'. lazy_due L (lazy_stage_actor w h (Suc k)) s = Some s' \<and> (\<exists>m\<le>k. lazy_stage w h m s')"
proof -
  have alive: "\<not> lcrashed s" "lsingle_exit L" using s by (simp_all add: lazy_serving_def)
  have "Suc k \<in> {1, 5} \<or> Suc k \<in> {2, 3, 4, 6}" using st by (cases "(w, h, Suc k, s)" rule: lazy_stage.cases) auto
  then show ?thesis
  proof
    assume k: "Suc k \<in> {1, 5}"
    have "\<exists>s'. lazy_handler_turn L h s = Some s'" using st k alive
      by (cases "(w, h, Suc k, s)" rule: lazy_stage.cases) (auto simp: lazy_handler_turn_def lazy_holds_def)
    then obtain s' where "lazy_handler_turn L h s = Some s'" ..
    with lazy_stage_handler(1) [OF st this k] k show ?thesis
      by (auto simp: lazy_due_def lazy_turn_def lazy_stage_actor_def)
  next
    assume k: "Suc k \<in> {2, 3, 4, 6}"
    have "\<exists>s'. lazy_thread_turn L w s = Some s'" using st k alive
      by (cases "(w, h, Suc k, s)" rule: lazy_stage.cases) (auto simp: lazy_thread_turn_def lazy_serve_def)
    then obtain s' where t: "lazy_thread_turn L w s = Some s'" ..
    have "lazy_stage w h k s'" using lazy_stage_thread [OF st t alive(2)] k by simp
    with t k show ?thesis by (auto simp: lazy_due_def lazy_turn_def lazy_stage_actor_def)
  qed
qed

interpretation lz: fair_progress "lazy_step L" "lazy_due L" "lazy_serving L" "lazy_stage w h" "lazy_stage_actor w h"
  for L w h
proof
  fix s s' :: "'a lazy_bridge_status" and k
  assume s: "lazy_serving L s" "lazy_step L s s'" "lazy_stage w h k s"
  then obtain ph where "lazy_protocol L ph s" "lsingle_exit L" "\<not> lcrashed s"
    unfolding lazy_serving_def lazy_inv_def by blast
  then show "\<exists>m\<le>k. lazy_stage w h m s'"
  proof (cases k)
    case 0
    then show ?thesis using s(3) lazy_done_stays [OF s(2)] by auto
  next
    case (Suc j)
    then show ?thesis using lazy_stage_step [OF s(2) \<open>lazy_protocol L ph s\<close>] s(3) \<open>lsingle_exit L\<close> \<open>\<not> lcrashed s\<close> by blast
  qed
qed (rule lazy_stage_advances)

section \<open>The bridge\<close>

lemma lazy_reach_protocol: "lazy_reach L s \<Longrightarrow> \<exists>ph. lazy_protocol L ph s"
  using lz.reachable_inv unfolding lazy_inv_def by blast

lemma lazy_one_user:
  assumes "lazy_reach L s" "lhandler s h = HLock w \<or> lhandler s h = HWait w b"
    "lhandler s k = HLock w \<or> lhandler s k = HWait w c"
  shows "h = k \<and> lserver (lworker s w) = lhost L h \<and> w \<notin> set (larray s i)"
proof -
  obtain ph where p: "lazy_protocol L ph s" using lazy_reach_protocol [OF assms(1)] by blast
  have f: "ph w = PLocked h \<or> ph w = PWait h b" using assms(2) lazy_users [OF p] by blast
  then show ?thesis
    using one_user [OF lazy_protocolD(1) [OF p] assms(2,3)] lazy_protocolD(6) [OF p f] lazy_protocolD(3) [OF p, of w i]
    by auto
qed

lemma lazy_answer_of_record:
  assumes r: "lazy_reach L s" and h: "lhandler s h = HDone c"
  obtains w pre post where "llog (lworker s w) = pre @ h # post" "c = lazy_code_after L pre h"
    "h \<notin> set pre" "h \<notin> set post" "\<And>v. h \<in> set (llog (lworker s v)) \<Longrightarrow> v = w"
    "\<forall>k\<in>set (llog (lworker s w)). lhost L k = lserver (lworker s w)"
proof -
  have a: "lazy_answered s h = Some c" using h by (simp add: lazy_answered_def answer_seen_def)
  have host: "\<forall>k\<in>set (llog (lworker s w)). lhost L k = lserver (lworker s w)" for w
    using lz.reachable_inv [OF r] by (simp add: lazy_inv_def lazy_log_ok_def)
  show thesis
  proof (rule lz.answered_once [OF r a])
    fix w pre post
    assume "lazy_logs s w = pre @ h # post" "c = lazy_code_after L pre h" "h \<notin> set pre" "h \<notin> set post"
      and v: "\<And>v. h \<in> set (lazy_logs s v) \<Longrightarrow> v = w"
    with host [of w] show thesis by (intro that [of w pre post]) (simp_all add: lazy_logs_def)
  qed
qed

lemma lazy_record_stage:
  assumes "lazy_reach L s" "lhandler s h = HLock w" "lkeep_going (lworker s w)"
  shows "\<exists>k. lazy_stage w h k s"
proof -
  obtain ph where p: "lazy_protocol L ph s" using lazy_reach_protocol [OF assms(1)] by blast
  have "ph w = PLocked h" using lazy_users(1) [OF p assms(2)] .
  then have "lazy_stage w h (Suc (Suc (Suc (Suc (Suc 0))))) s \<or> lazy_stage w h (Suc (Suc (Suc (Suc (Suc (Suc 0)))))) s"
    using lazy_protocolD(5) [OF p, of w] assms(2,3) by (auto simp: lazy_idle_def)
  then show ?thesis by blast
qed

section \<open>One host and one request\<close>

definition lazy_sample_lib :: "nat lazy_lib" where
  "lazy_sample_lib = \<lparr> lsend = (\<lambda>h p. (p + 1, 200, h = 1)), lfresh = (\<lambda>_. 0), lsingle_exit = True,
     lhost = (\<lambda>_. 0), lvhosts_count = 1 \<rparr>"

definition lazy_schedule :: "actor list" where
  "lazy_schedule = [Arrives 0, Httpd 0, Tcl 0, Tcl 0, Tcl 0, Httpd 0, Tcl 0, Tcl 0]"

definition lazy_sample :: "nat \<Rightarrow> nat lazy_bridge_status" where
  "lazy_sample i = play (lazy_turn lazy_sample_lib) (take i lazy_schedule) (LazyBridge_ChildInit lazy_sample_lib)"

lemmas lazy_eval = play_def lazy_due_def lazy_turn_def lazy_thread_turn_def lazy_handler_turn_def
  LazyBridge_ChildInit_def lazy_start_def lazy_check_def lazy_serve_def lazy_answer_def lazy_reschedule_def
  lazy_leave_def lazy_take_def lazy_post_def lazy_collect_def lazy_sample_lib_def Let_def create_worker_def
  put_worker_def put_handler_def lazy_signalled_def signal_waiting_def lazy_holds_def

lemma lazy_sample_reach: "lazy_reach lazy_sample_lib (lazy_sample i)"
  unfolding lazy_sample_def by (intro play_reach [OF lazy_turn_step] reachable.start)

lemma lazy_sample_fair: "fair_run (lazy_step lazy_sample_lib) (lazy_due lazy_sample_lib) lazy_sample"
proof -
  have rest: "lazy_due lazy_sample_lib a (play (lazy_turn lazy_sample_lib) lazy_schedule
      (LazyBridge_ChildInit lazy_sample_lib)) = None" for a
    by (cases a) (simp_all add: lazy_eval lazy_schedule_def)
  show ?thesis unfolding lazy_sample_def [abs_def]
    by (rule play_fair) (erule lazy_turn_step, rule rest)
qed

text \<open>C9: in every state the lazy bridge can reach, two threads of httpd never use the record of the same Tcl
  thread, which belongs to the host of the request; an answered request was served exactly once, by one Tcl
  thread that served only requests of its host, with the status that serving it after the earlier ones of
  that thread gives.\<close>

theorem lazy_answers:
  assumes "lazy_reach L s"
  shows "(\<forall>w b c. (lhandler s h = HLock w \<or> lhandler s h = HWait w b) \<and>
      (lhandler s k = HLock w \<or> lhandler s k = HWait w c) \<longrightarrow> h = k \<and> lserver (lworker s w) = lhost L h)
    \<and> (\<forall>c. lhandler s h = HDone c \<longrightarrow> (\<exists>w pre post. llog (lworker s w) = pre @ h # post
      \<and> c = lazy_code_after L pre h \<and> h \<notin> set pre \<and> h \<notin> set post
      \<and> (\<forall>v. h \<in> set (llog (lworker s v)) \<longrightarrow> v = w)
      \<and> (\<forall>k\<in>set (llog (lworker s w)). lhost L k = lserver (lworker s w))))"
proof (intro conjI allI impI)
  fix w b c
  assume "(lhandler s h = HLock w \<or> lhandler s h = HWait w b) \<and> (lhandler s k = HLock w \<or> lhandler s k = HWait w c)"
  then show "h = k" "lserver (lworker s w) = lhost L h" using lazy_one_user [OF assms] by blast+
next
  fix c
  assume c: "lhandler s h = HDone c"
  show "\<exists>w pre post. llog (lworker s w) = pre @ h # post \<and> c = lazy_code_after L pre h \<and> h \<notin> set pre \<and> h \<notin> set post
      \<and> (\<forall>v. h \<in> set (llog (lworker s v)) \<longrightarrow> v = w) \<and> (\<forall>k\<in>set (llog (lworker s w)). lhost L k = lserver (lworker s w))"
  proof (rule lazy_answer_of_record [OF assms c])
    fix w pre post
    assume "llog (lworker s w) = pre @ h # post" "c = lazy_code_after L pre h" "h \<notin> set pre" "h \<notin> set post"
      and "\<And>v. h \<in> set (llog (lworker s v)) \<Longrightarrow> v = w"
      and "\<forall>k\<in>set (llog (lworker s w)). lhost L k = lserver (lworker s w)"
    then show ?thesis by (intro exI conjI allI impI) assumption+
  qed
qed

theorem lazy_answers_witness:
  "lhandler (lazy_sample 6) 0 = HDone 200 \<and> (\<exists>w pre post. llog (lworker (lazy_sample 6) w) = pre @ 0 # post
     \<and> 200 = lazy_code_after lazy_sample_lib pre 0)"
proof -
  have h: "lhandler (lazy_sample 6) 0 = HDone 200" by (simp add: lazy_sample_def lazy_eval lazy_schedule_def)
  from lazy_answers [OF lazy_sample_reach, of 6 0 0] h show ?thesis by blast
qed

text \<open>C18: while the server is not shut down and no new thread ran before its first request was posted, every
  request whose thread of httpd got a Tcl thread that is not about to end is answered in every fair run.\<close>

theorem lazy_request_answered:
  assumes "fair_run (lazy_step L) (lazy_due L) \<sigma>" "lazy_reach L (\<sigma> 0)"
    "\<And>i. \<not> lshutdown (\<sigma> i)" "\<And>i. \<not> lcrashed (\<sigma> i)" "lsingle_exit L"
    and "lhandler (\<sigma> i) h = HLock w" "lkeep_going (lworker (\<sigma> i) w)"
  shows "\<exists>j\<ge>i. \<exists>c. lhandler (\<sigma> j) h = HDone c"
proof -
  have r: "lazy_reach L (\<sigma> j)" for j using fair_run_reach [OF assms(1,2)] .
  obtain k where k: "lazy_stage w h k (\<sigma> i)" using lazy_record_stage [OF r assms(6,7)] by blast
  have "lazy_serving L (\<sigma> j)" for j using lz.reachable_inv [OF r] assms(3-5) by (simp add: lazy_serving_def)
  from lz.stage_ends [OF assms(1) this k] show ?thesis by simp
qed

theorem lazy_request_answered_witness:
  "lhandler (lazy_sample 1) 0 = HLock 0 \<and> (\<exists>j\<ge>1. \<exists>c. lhandler (lazy_sample j) 0 = HDone c)"
proof -
  have i: "i \<in> {0, 1, 2, 3, 4, 5, 6, 7} \<or> 8 \<le> i" for i :: nat unfolding insert_iff empty_iff by arith
  have up: "\<not> lshutdown (lazy_sample i)" "\<not> lcrashed (lazy_sample i)" for i
    using i [of i] by (auto simp: lazy_sample_def lazy_eval lazy_schedule_def)
  have h: "lhandler (lazy_sample 1) 0 = HLock 0" "lkeep_going (lworker (lazy_sample 1) 0)"
    by (simp_all add: lazy_sample_def lazy_eval lazy_schedule_def)
  have "lsingle_exit lazy_sample_lib" by (simp add: lazy_sample_lib_def)
  from lazy_request_answered [OF lazy_sample_fair lazy_sample_reach up this h] h(1) show ?thesis by blast
qed

section \<open>Where requests get stuck\<close>

text \<open>A new Tcl thread reads \<open>w->conf\<close>, which the thread of httpd that created it sets only later: nothing
  orders the two, so on a child that has just started the first request can bring it down.\<close>

lemma new_thread_crashes:
  assumes "\<not> lcrashed s" "\<not> lshutdown s" "lhandler s h = HStart" "larray s (lhost L h) = []"
  obtains s1 s2 where "lazy_step L s s1" "lazy_step L s1 s2" "lcrashed s2"
proof
  let ?s1 = "lazy_take L h s"
  show "lazy_step L s ?s1" using assms by (intro lazy_step.lz_takes)
  show "lazy_step L ?s1 (lazy_start (lnext s) ?s1)"
    using assms by (intro lazy_step.lz_starts) (simp_all add: lazy_take_def Let_def create_worker_def)
  show "lcrashed (lazy_start (lnext s) ?s1)"
    using assms by (simp add: lazy_take_def lazy_start_def Let_def create_worker_def)
qed

text \<open>A Tcl thread that is to end puts itself on the array of idle threads before it leaves. A request that
  takes it waits for ever.\<close>

lemma ending_thread_is_offered:
  assumes "lpc (lworker s w) = LzPosted True" "lstatus (lworker s w) = LzIdle" "\<not> lkeep_going (lworker s w)"
  shows "lpc (lworker (lazy_reschedule w s) w) = LzLeave"
    "last (larray (lazy_reschedule w s) (lserver (lworker s w))) = w"
  using assms by (simp_all add: lazy_reschedule_def Let_def)

definition lazy_abandoned :: "nat \<Rightarrow> nat \<Rightarrow> 'p lazy_bridge_status \<Rightarrow> bool" where
  "lazy_abandoned h w s \<longleftrightarrow> (lhandler s h = HLock w \<or> (\<exists>b. lhandler s h = HWait w b \<and> lstatus (lworker s w) = LzInit))
     \<and> (lpc (lworker s w) = LzLeave \<or> lpc (lworker s w) = LzGone)"

lemma lazy_abandoned_for_ever:
  assumes r: "lazy_reach L s" and a: "lazy_abandoned h w s" and step: "lazy_step L s s'"
  shows "lazy_abandoned h w s'"
proof -
  obtain ph where p: "lazy_protocol L ph s" using lazy_reach_protocol [OF r] by blast
  have u: "lhandler s h = HLock w \<or> (\<exists>b. lhandler s h = HWait w b)"
    and x: "lpc (lworker s w) = LzLeave \<or> lpc (lworker s w) = LzGone"
    using a by (auto simp: lazy_abandoned_def)
  have f: "ph w = PLocked h \<or> (\<exists>b. ph w = PWait h b)" using u lazy_users [OF p] by blast
  have other: "g = h" if "lhandler s g = HLock w \<or> lhandler s g = HWait w b" for g b
    using that lazy_users [OF p, of g w] f by auto
  have same: ?thesis if "lazy_view w h s s'" using that a by (auto simp: lazy_view_def lazy_abandoned_def)
  have mine: "v = w" if "lhandler s h = HLock v \<or> lhandler s h = HWait v b" for v b using that u by auto
  have answer: "lazy_view w h s (lazy_answer L v r s)" if "v \<noteq> w" for v r
  proof -
    have "lhandler s h \<noteq> HWait v b" for b using mine that by blast
    then show ?thesis using that
      by (cases "lhandler s h") (auto simp: lazy_view_def lazy_answer_def Let_def signal_waiting_def split: prod.split)
  qed
  show ?thesis
    using step
  proof cases
    case (lz_starts v)
    then show ?thesis using x by (intro same) (auto simp: lazy_view_def lazy_start_def split: option.split)
  next
    case (lz_checks v)
    then show ?thesis using x by (intro same) (auto simp: lazy_view_def lazy_check_def Let_def)
  next
    case (lz_serves v r)
    then have "v \<noteq> w" using x by auto
    then show ?thesis using lz_serves(4) answer
      by (intro same) (auto simp: lazy_serve_def lazy_view_def split: if_splits)
  next
    case (lz_exits v r)
    then have "v \<noteq> w" using x by auto
    then show ?thesis using same answer lz_exits(1) by blast
  next
    case (lz_reschedules v)
    then show ?thesis using x by (intro same) (auto simp: lazy_view_def lazy_reschedule_def Let_def)
  next
    case (lz_leaves v)
    then show ?thesis using a by (auto simp: lazy_abandoned_def lazy_leave_def)
  next
    case (lz_takes g)
    have "lnext s \<noteq> w" using lazy_protocolD(7) [OF p, of w] x by auto
    moreover have "g \<noteq> h" using lz_takes(3) u by auto
    ultimately show ?thesis by (intro same) (simp add: lz_takes(1) lazy_view_def lazy_take_def Let_def)
  next
    case (lz_posts g v)
    show ?thesis
    proof (cases "g = h")
      case True
      then have "v = w" using mine lz_posts(3) by blast
      then show ?thesis using True x
        by (auto simp: lz_posts(1) lazy_abandoned_def lazy_post_def lazy_signalled_def)
    next
      case False
      then have "v \<noteq> w" using other lz_posts(3) by blast
      then show ?thesis using False by (intro same) (simp add: lz_posts(1) lazy_view_def lazy_post_def)
    qed
  next
    case (lz_collects g v)
    show ?thesis
    proof (cases "g = h")
      case True
      then have "v = w" using mine lz_collects(3) by blast
      then show ?thesis using True a lz_collects(3)
        by (auto simp: lz_collects(1) lazy_abandoned_def lazy_collect_def)
    next
      case False
      then have "v \<noteq> w" using other lz_collects(3) by blast
      then show ?thesis using False by (intro same) (simp add: lz_collects(1) lazy_view_def lazy_collect_def)
    qed
  next
    case (lz_tells i t v)
    then have "v \<noteq> w" using lazy_protocolD(4) [OF p] f by force
    then show ?thesis by (intro same) (simp add: lazy_view_def lz_tells(1))
  qed (use a x in \<open>auto simp: lazy_abandoned_def\<close>)
qed

text \<open>The next request of the host gets exactly that thread.\<close>

lemma next_request_abandoned:
  assumes "\<not> lcrashed s" "\<not> lshutdown s" "lhandler s h = HStart" "larray s (lhost L h) = ws @ [w]"
    "lpc (lworker s w) = LzLeave \<or> lpc (lworker s w) = LzGone"
  shows "lazy_step L s (lazy_take L h s)" "lazy_abandoned h w (lazy_take L h s)"
  using assms lazy_step.lz_takes by (blast, auto simp: lazy_take_def lazy_abandoned_def Let_def)

text \<open>With \<open>SingleThreadExit\<close> off, \<open>exit\<close> cleans up and the request goes on as if nothing was to end: no step
  of the bridge ends the process.\<close>

lemma exit_is_answered:
  assumes "lfinal s = FnEnd" "lpc (lworker s w) = LzExiting" "lreq (lworker s w) = Some r" "\<not> lcrashed s"
  shows "lazy_step L s (lazy_answer L w r s)" "lstatus (lworker (lazy_answer L w r s) w) = LzDone"
  using assms lazy_step.lz_exits by (blast, simp add: lazy_answer_def Let_def split: prod.split)

end
