(* ===== verification/Rivet_Tcl.thy ===== *)
theory Rivet_Tcl
  imports Rivet_Inspect Rivet_Scripts Rivet_Interps
begin

unbundle bit_operations_syntax

text \<open>
  What the module makes of a Tcl interpreter: the commands of the packages rivetlib
  (src/src/librivet/rivetPkgInit.c and the \<open>Rivet_Init...\<close> functions beside the commands) and
  rivetparser (src/src/parser/parserPkgInit.c), the core commands (\<open>Rivet_InitCore\<close> of rivetCore.c)
  and the set-up of an interpreter (\<open>Rivet_PerInterpInit\<close>, \<open>Rivet_InitServerVariables\<close> of
  mod_rivet_common.c). A command is bound to a C function and to client data, the private data of a
  thread or NULL; \<open>core_call\<close> is the call of such a function, so that a script's commands act on one
  state of the thread.
\<close>

section \<open>A Tcl interpreter\<close>

text \<open>The C functions of the commands, named after them: those of rivetCore.c and those of the two
  packages.\<close>

datatype core_proc =
    MakeURL | Headers | LoadEnv | LoadHeaders | Var | AbortPageCmd | AbortCodeCmd | VirtualFilenameCmd
  | ApacheTable | RawPost | Upload | Include | WithBinaryOutput | WriteBinary | Parse | NoBody | EnvCmd
  | LogErrorCmd | InspectCmd | ExitCmd | UrlScript | GetThreadId

datatype package_proc =
    LremoveObjCmd | CommaSplitObjCmd | CommaJoinObjCmd | LassignArrayObjCmd
  | EncryptCmd | DecryptCmd | CryptCmd
  | UnescapeStringCmd | EscapeStringCmd | EscapeSgmlCharsCmd | EscapeShellCommandCmd
  | ParseRivetCmd | ParseRivetDataCmd

datatype tcl_proc = CoreProc core_proc | PackageProc package_proc

text \<open>The data the module keeps with an interpreter: the namespace of its commands (\<open>None\<close> is NULL)
  and the server the interpreter works for.\<close>

record rivet_interp_globals =
  rivet_ns :: "bytes option"
  globals_server :: server_rec

text \<open>An interpreter as far as the module fills it: the commands by their full names, each with its
  function and the number of the thread whose private data it gets; the namespaces; the names exported
  from a namespace; the elements of global arrays; the variable \<open>auto_path\<close> (no variable, no list, a
  list); the associated data; the packages.\<close>

record tcl_interp =
  tcl_commands :: "bytes \<Rightarrow> (tcl_proc \<times> nat option) option"
  namespaces :: "bytes list"
  tcl_exports :: "(bytes \<times> bytes) list"
  tcl_arrays :: "bytes \<Rightarrow> bytes \<Rightarrow> bytes option"
  auto_path :: "bytes list option option"
  interp_globals :: "rivet_interp_globals option"
  provided :: "(bytes \<times> bytes) list"

definition RIVET_NS :: bytes where "RIVET_NS = ''::rivet''"

definition RIVET_OBJ_CMD :: "bytes \<Rightarrow> tcl_proc \<Rightarrow> nat option \<Rightarrow> tcl_interp \<Rightarrow> tcl_interp" where
  "RIVET_OBJ_CMD name func private ti =
     ti\<lparr>tcl_commands := (tcl_commands ti)(RIVET_NS @ ''::'' @ name \<mapsto> (func, private)),
        namespaces := List.insert RIVET_NS (namespaces ti)\<rparr>"

text \<open>Exporting from the NULL namespace exports from the current one, the global one here.\<close>

definition RIVET_EXPORT_CMD :: "bytes option \<Rightarrow> bytes \<Rightarrow> tcl_interp \<Rightarrow> tcl_interp" where
  "RIVET_EXPORT_CMD ns cmdname ti =
     ti\<lparr>tcl_exports := List.insert (case ns of None \<Rightarrow> ''::'' | Some n \<Rightarrow> n, cmdname) (tcl_exports ti)\<rparr>"

text \<open>\<open>Tcl_CreateNamespace\<close> fails when the namespace exists.\<close>

definition Tcl_CreateNamespace :: "bytes \<Rightarrow> tcl_interp \<Rightarrow> tcl_interp \<times> bytes option" where
  "Tcl_CreateNamespace name ti =
     (if name \<in> set (namespaces ti) then (ti, None)
      else (ti\<lparr>namespaces := name # namespaces ti\<rparr>, Some name))"

definition Rivet_GetNamespace :: "tcl_interp \<Rightarrow> tcl_interp \<times> bytes option" where
  "Rivet_GetNamespace ti =
     (if RIVET_NS \<in> set (namespaces ti) then (ti, Some RIVET_NS) else Tcl_CreateNamespace RIVET_NS ti)"

text \<open>A table of commands registered one after the other, and its names exported.\<close>

definition register_all :: "(bytes \<times> tcl_proc) list \<Rightarrow> nat option \<Rightarrow> tcl_interp \<Rightarrow> tcl_interp" where
  "register_all cmds private ti = fold (\<lambda>(name, func). RIVET_OBJ_CMD name func private) cmds ti"

definition export_all :: "bytes option \<Rightarrow> bytes list \<Rightarrow> tcl_interp \<Rightarrow> tcl_interp" where
  "export_all ns names ti = fold (RIVET_EXPORT_CMD ns) names ti"

section \<open>The packages\<close>

text \<open>\<open>ns_export\<close> is the build constant RIVET_NAMESPACE_EXPORT, \<open>stubs\<close> tells whether Tcl of the
  version the package was built for is there.\<close>

definition init_group :: "bool \<Rightarrow> (bytes \<times> tcl_proc) list \<Rightarrow> tcl_interp \<Rightarrow> tcl_interp" where
  "init_group ns_export cmds ti =
     (let ti = register_all cmds None ti in
      if ns_export then let (ti, ns) = Rivet_GetNamespace ti in export_all ns (map fst cmds) ti else ti)"

definition list_commands :: "(bytes \<times> tcl_proc) list" where
  "list_commands = [(''lremove'', PackageProc LremoveObjCmd), (''comma_split'', PackageProc CommaSplitObjCmd),
     (''comma_join'', PackageProc CommaJoinObjCmd), (''lassign_array'', PackageProc LassignArrayObjCmd)]"

definition crypt_commands :: "(bytes \<times> tcl_proc) list" where
  "crypt_commands = [(''encrypt'', PackageProc EncryptCmd), (''decrypt'', PackageProc DecryptCmd), (''crypt'', PackageProc CryptCmd)]"

definition www_commands :: "(bytes \<times> tcl_proc) list" where
  "www_commands = [(''unescape_string'', PackageProc UnescapeStringCmd), (''escape_string'', PackageProc EscapeStringCmd),
     (''escape_sgml_chars'', PackageProc EscapeSgmlCharsCmd), (''escape_shell_command'', PackageProc EscapeShellCommandCmd)]"

definition Rivet_InitList :: "bool \<Rightarrow> tcl_interp \<Rightarrow> tcl_interp" where
  "Rivet_InitList ns_export = init_group ns_export list_commands"

definition Rivet_InitCrypt :: "bool \<Rightarrow> tcl_interp \<Rightarrow> tcl_interp" where
  "Rivet_InitCrypt ns_export = init_group ns_export crypt_commands"

definition Rivet_InitWWW :: "bool \<Rightarrow> tcl_interp \<Rightarrow> tcl_interp" where
  "Rivet_InitWWW ns_export = init_group ns_export www_commands"

definition Tcl_PkgProvide :: "bytes \<Rightarrow> bytes \<Rightarrow> tcl_interp \<Rightarrow> tcl_interp" where
  "Tcl_PkgProvide name version ti = ti\<lparr>provided := List.insert (name, version) (provided ti)\<rparr>"

definition Rivetlib_Init :: "bool \<Rightarrow> bool \<Rightarrow> bytes \<Rightarrow> tcl_interp \<Rightarrow> tcl_interp outcome" where
  "Rivetlib_Init stubs ns_export RIVET_VERSION ti =
     (if \<not> stubs then Fail LibError
      else Ret (Tcl_PkgProvide ''rivetlib'' RIVET_VERSION
                  (Rivet_InitWWW ns_export (Rivet_InitCrypt ns_export (Rivet_InitList ns_export ti)))))"

definition Rivetlib_SafeInit :: "bool \<Rightarrow> bool \<Rightarrow> bytes \<Rightarrow> tcl_interp \<Rightarrow> tcl_interp outcome" where
  "Rivetlib_SafeInit stubs ns_export RIVET_VERSION ti =
     (if \<not> stubs then Fail LibError
      else Ret (Tcl_PkgProvide ''rivetlib'' RIVET_VERSION
                  (Rivet_InitWWW ns_export (Rivet_InitCrypt ns_export (Rivet_InitList ns_export ti)))))"

text \<open>The commands of the parser package.\<close>

definition Parse_Rivet :: "'chan tcl_io \<Rightarrow> bytes list \<Rightarrow> tobj outcome" where
  "Parse_Rivet io objv =
     (if length objv \<noteq> 2 then Fail (WrongNumArgs 1 ''filename'')
      else
        case Rivet_GetRivetFile io (cstr (objv ! 1)) (''namespace eval request {'' @ [LF]) of
          (outbuf, Ret _) \<Rightarrow> Ret (TStr (outbuf @ [LF] @ ''}'' @ [LF]))
        | (outbuf, Fail e) \<Rightarrow> Fail e
        | (outbuf, Fault f) \<Rightarrow> Fault f)"

definition Parse_RivetData :: "(bytes \<Rightarrow> nat) \<Rightarrow> bytes list \<Rightarrow> tobj outcome" where
  "Parse_RivetData utf_next objv =
     (if length objv \<noteq> 2 then Fail (WrongNumArgs 1 ''data'')
      else
        let (ins, outbuf) = Rivet_Parser utf_next (''puts -nonewline '' @ [DQ]) (objv ! 1)
        in Ret (TStr (if \<not> ins then outbuf @ [DQ, LF] else outbuf)))"

definition Rivetparser_Init :: "bool \<Rightarrow> tcl_interp \<Rightarrow> tcl_interp outcome" where
  "Rivetparser_Init stubs ti =
     (if \<not> stubs then Fail LibError
      else Ret (Tcl_PkgProvide ''rivetparser'' ''0.2''
                  (register_all [(''parserivet'', PackageProc ParseRivetCmd), (''parserivetdata'', PackageProc ParseRivetDataCmd)] None ti)))"

definition Rivetparser_SafeInit :: "bool \<Rightarrow> tcl_interp \<Rightarrow> tcl_interp outcome" where
  "Rivetparser_SafeInit stubs ti =
     (if \<not> stubs then Fail LibError
      else Ret (Tcl_PkgProvide ''rivetparser'' ''0.2''
                  (register_all [(''parserivetdata'', PackageProc ParseRivetDataCmd)] None ti)))"

section \<open>The core commands\<close>

definition core_commands :: "(bytes \<times> core_proc) list" where
  "core_commands =
    [(''makeurl'', MakeURL), (''headers'', Headers), (''load_env'', LoadEnv), (''load_headers'', LoadHeaders),
     (''var'', Var), (''abort_page'', AbortPageCmd), (''abort_code'', AbortCodeCmd),
     (''virtual_filename'', VirtualFilenameCmd), (''apache_table'', ApacheTable), (''var_qs'', Var),
     (''var_post'', Var), (''raw_post'', RawPost), (''upload'', Upload), (''include'', Include),
     (''with_binary_output'', WithBinaryOutput), (''write_binary'', WriteBinary), (''parse'', Parse),
     (''no_body'', NoBody), (''env'', EnvCmd), (''apache_log_error'', LogErrorCmd), (''inspect'', InspectCmd),
     (''exit'', ExitCmd), (''url_script'', UrlScript), (''thread_id'', GetThreadId)]"

definition core_exports :: "bytes list" where
  "core_exports =
    [''makeurl'', ''headers'', ''load_env'', ''load_headers'', ''var'', ''abort_page'', ''abort_code'',
     ''virtual_filename'', ''apache_table'', ''var_qs'', ''var_post'', ''raw_post'', ''upload'', ''include'',
     ''parse'', ''no_body'', ''env'', ''apache_log_error'', ''inspect'', ''thread_id'']"

text \<open>\<open>server_conf\<close> is the record of the root server.\<close>

definition Rivet_InitCore :: "rivet_server_conf \<Rightarrow> nat option \<Rightarrow> tcl_interp \<Rightarrow> tcl_interp outcome" where
  "Rivet_InitCore server_conf private ti =
     (let ti = register_all (map (map_prod id CoreProc) core_commands) private ti in
      if export_rivet_ns server_conf \<noteq> 0 then
        (case interp_globals ti of
           None \<Rightarrow> Fault NullDeref
         | Some globals \<Rightarrow> Ret (export_all (rivet_ns globals) core_exports ti))
      else Ret ti)"

section \<open>Setting up an interpreter\<close>

text \<open>Constants of the build and answers of httpd: \<open>mpm_threaded\<close> and \<open>mpm_forked\<close> are what
  \<open>ap_mpm_query\<close> gives, if it answers; \<open>pkg_require\<close> loads the Tcl package Rivet, whose init.tcl runs
  in the interpreter. The version is shown or not.\<close>

record tcl_env =
  ap_server_root :: bytes
  server_root_relative :: "bytes \<Rightarrow> bytes"
  SERVER_CONFIG_FILE :: bytes
  RIVET_DIR :: bytes
  RIVET_INIT :: bytes
  DISPLAY_VERSION :: "bytes option"
  RIVET_CONFIGURE_CMD :: bytes
  mpm_threaded :: "int option"
  mpm_forked :: "int option"
  pkg_require :: "tcl_interp \<Rightarrow> tcl_interp option"

definition set_server :: "bytes \<Rightarrow> bytes \<Rightarrow> tcl_interp \<Rightarrow> tcl_interp" where
  "set_server key val ti =
     ti\<lparr>tcl_arrays := (tcl_arrays ti)(''::server'' := (tcl_arrays ti ''::server'')(key \<mapsto> val))\<rparr>"

definition AP_MPMQ_NOT_SUPPORTED :: int where "AP_MPMQ_NOT_SUPPORTED = 0"
definition AP_MPMQ_STATIC :: int where "AP_MPMQ_STATIC = 1"
definition AP_MPMQ_DYNAMIC :: int where "AP_MPMQ_DYNAMIC = 2"

definition threaded_text :: "int \<Rightarrow> bytes" where
  "threaded_text result =
     (if result = AP_MPMQ_STATIC then ''static''
      else if result = AP_MPMQ_NOT_SUPPORTED then ''unsupported'' else ''undefined'')"

definition forked_text :: "int \<Rightarrow> bytes" where
  "forked_text result =
     (if result = AP_MPMQ_STATIC then ''static''
      else if result = AP_MPMQ_DYNAMIC then ''dynamic'' else ''undefined'')"

definition Rivet_InitServerVariables :: "tcl_env \<Rightarrow> bytes \<Rightarrow> tcl_interp \<Rightarrow> tcl_interp" where
  "Rivet_InitServerVariables env rivet_mpm_bridge ti =
     (let ti = set_server ''SERVER_ROOT'' (ap_server_root env) ti;
          ti = set_server ''SERVER_CONF'' (server_root_relative env (SERVER_CONFIG_FILE env)) ti;
          ti = set_server ''RIVET_DIR'' (server_root_relative env (RIVET_DIR env)) ti;
          ti = set_server ''RIVET_INIT'' (server_root_relative env (RIVET_INIT env)) ti;
          ti = (case DISPLAY_VERSION env of None \<Rightarrow> ti | Some version \<Rightarrow> set_server ''RIVET_VERSION'' version ti);
          ti = (case mpm_threaded env of None \<Rightarrow> ti | Some r \<Rightarrow> set_server ''MPM_THREADED'' (threaded_text r) ti);
          ti = (case mpm_forked env of None \<Rightarrow> ti | Some r \<Rightarrow> set_server ''MPM_FORKED'' (forked_text r) ti);
          ti = set_server ''RIVET_MPM_BRIDGE'' rivet_mpm_bridge ti
      in set_server ''RIVET_CONFIGURE_CMD'' (RIVET_CONFIGURE_CMD env) ti)"

text \<open>The steps of \<open>Rivet_PerInterpInit\<close> before the package is loaded: the data and namespace of the
  module, the search path, the core commands, the array \<open>server\<close>. A search path that is no list stays
  as it is.\<close>

definition interp_prepared ::
    "tcl_env \<Rightarrow> rivet_server_conf \<Rightarrow> bytes \<Rightarrow> server_rec \<Rightarrow> nat option \<Rightarrow> tcl_interp \<Rightarrow> tcl_interp outcome" where
  "interp_prepared env root_conf rivet_mpm_bridge s private ti =
     (let (ti, ns) = Tcl_CreateNamespace RIVET_NS ti;
          ti = ti\<lparr>interp_globals := Some \<lparr>rivet_ns = ns, globals_server = s\<rparr>\<rparr>
      in case auto_path ti of
           None \<Rightarrow> Fault NullDeref
         | Some path_obj \<Rightarrow>
             let ti = (case path_obj of
                         None \<Rightarrow> ti
                       | Some dirs \<Rightarrow> ti\<lparr>auto_path := Some (Some (RIVET_DIR env # dirs))\<rparr>)
             in bindO (Rivet_InitCore root_conf private ti)
                  (\<lambda>ti. Ret (Rivet_InitServerVariables env rivet_mpm_bridge ti)))"

definition package_error :: tcl_error where
  "package_error = ErrMsg ''init.tcl must be installed correctly for Apache Rivet to function''"

text \<open>\<open>Rivet_PerInterpInit\<close> on the Tcl interpreter; a package that cannot be loaded ends the process
  with the message. \<open>Rivet_PerInterpInit\<close> of the theory on interpreters is its effect on the interpreter
  object and the thread.\<close>

definition PerInterpInit_tcl ::
    "tcl_env \<Rightarrow> rivet_server_conf \<Rightarrow> bytes \<Rightarrow> server_rec \<Rightarrow> nat option \<Rightarrow> tcl_interp \<Rightarrow> tcl_interp outcome" where
  "PerInterpInit_tcl env root_conf rivet_mpm_bridge s private ti =
     bindO (interp_prepared env root_conf rivet_mpm_bridge s private ti)
       (\<lambda>ti. case pkg_require env ti of None \<Rightarrow> Fail package_error | Some ti \<Rightarrow> Ret ti)"

section \<open>Calling a command\<close>

text \<open>The state a script of a thread works on: the private data of the thread (none in the server), the
  interpreter object, the standard output, the error log and the arrays of the interpreter.\<close>

record 'st rivet_state =
  st_private :: "rivet_thread_private option"
  st_interp :: rivet_thread_interp
  st_channel :: 'st
  st_log :: error_log
  st_arrays :: "bytes \<Rightarrow> bytes \<Rightarrow> bytes option"

text \<open>What the commands take of their surroundings; \<open>call_result\<close> makes the result of a command out of
  the completion of a script.\<close>

record ('chan, 'st, 'res) call_lib =
  call_script :: "'chan script_lib"
  call_chan :: "('st, 'res) chan_lib"
  call_conf :: conf_lib
  call_globals :: mod_rivet_globals
  call_root :: server_rec
  call_env_unset :: "bytes option apr_table \<Rightarrow> bytes \<Rightarrow> bytes option apr_table"
  call_thread_id :: int
  call_info_script :: "tobj outcome"
  call_result :: "int \<times> 'res \<Rightarrow> tobj outcome"

abbreviation call_core :: "('chan, 'st, 'res) call_lib \<Rightarrow> core_lib" where
  "call_core lib \<equiv> core (call_script lib)"

text \<open>The client data of a command: NULL or the private data of the thread.\<close>

definition bound_private :: "nat option \<Rightarrow> 'st rivet_state \<Rightarrow> rivet_thread_private option" where
  "bound_private client st = (if client = None then None else st_private st)"

definition store_private :: "nat option \<Rightarrow> rivet_thread_private option \<Rightarrow> 'st rivet_state \<Rightarrow> 'st rivet_state" where
  "store_private client pd st = (if client = None then st else st\<lparr>st_private := pd\<rparr>)"

definition on_private ::
    "nat option \<Rightarrow> (rivet_thread_private option \<Rightarrow> rivet_thread_private option \<times> 'a outcome) \<Rightarrow>
     'st rivet_state \<Rightarrow> 'st rivet_state \<times> 'a outcome" where
  "on_private client f st =
     (case f (bound_private client st) of (pd, out) \<Rightarrow> (store_private client pd st, out))"

text \<open>A command that fills an array.\<close>

definition on_array ::
    "nat option \<Rightarrow> (rivet_thread_private option \<Rightarrow>
       rivet_thread_private option \<times> (bytes \<times> (bytes \<times> bytes) list) outcome) \<Rightarrow>
     'st rivet_state \<Rightarrow> 'st rivet_state \<times> tobj outcome" where
  "on_array client f st =
     (case on_private client f st of
        (st, Ret (name, elems)) \<Rightarrow>
          (st\<lparr>st_arrays := (st_arrays st)(name := fold (\<lambda>(k, v) a. a(k \<mapsto> v)) elems (st_arrays st name))\<rparr>,
           Ret no_result)
      | (st, Fail e) \<Rightarrow> (st, Fail e)
      | (st, Fault f) \<Rightarrow> (st, Fault f))"

definition on_script ::
    "nat option \<Rightarrow> (script_state \<Rightarrow> script_state cmd) \<Rightarrow> 'st rivet_state \<Rightarrow> 'st rivet_state cmd" where
  "on_script client f st =
     (case f (bound_private client st, st_interp st) of
        ((pd, ri), out) \<Rightarrow> (store_private client pd (st\<lparr>st_interp := ri\<rparr>), out))"

definition on_channel ::
    "('st \<Rightarrow> 'st \<times> 'a outcome) \<Rightarrow> ('a \<Rightarrow> tobj outcome) \<Rightarrow> 'st rivet_state \<Rightarrow> 'st rivet_state cmd" where
  "on_channel f result st =
     (case f (st_channel st) of (ch, out) \<Rightarrow> (st\<lparr>st_channel := ch\<rparr>, bindO out result))"

definition core_call ::
    "('chan, 'st, 'res) call_lib \<Rightarrow> server_rec \<Rightarrow> core_proc \<Rightarrow> nat option \<Rightarrow> bytes list \<Rightarrow> 'st rivet_state \<Rightarrow>
     'st rivet_state cmd" where
  "core_call lib s f client objv st =
     (let c = call_core lib; ri = st_interp st in
      case f of
        MakeURL \<Rightarrow> on_private client (Rivet_MakeURL c ri objv) st
      | Headers \<Rightarrow> on_private client (Rivet_Headers c objv) st
      | LoadEnv \<Rightarrow> on_array client (Rivet_LoadEnv c ri objv) st
      | LoadHeaders \<Rightarrow> on_array client (Rivet_LoadHeaders c objv) st
      | Var \<Rightarrow> on_private client (Rivet_Var c objv) st
      | AbortPageCmd \<Rightarrow> on_private client (Rivet_AbortPageCmd objv) st
      | AbortCodeCmd \<Rightarrow> on_private client Rivet_AbortCodeCmd st
      | VirtualFilenameCmd \<Rightarrow> on_private client (Rivet_VirtualFilenameCmd c objv) st
      | ApacheTable \<Rightarrow> on_private client (Rivet_ApacheTable c (call_env_unset lib) objv) st
      | RawPost \<Rightarrow> on_private client Rivet_RawPost st
      | Upload \<Rightarrow> on_private client (Rivet_Upload c objv) st
      | Include \<Rightarrow>
          on_channel (Rivet_Include c (script_io (call_script lib)) (call_chan lib) objv (bound_private client st)) Ret st
      | WithBinaryOutput \<Rightarrow>
          on_channel (Rivet_WithBinaryOutput (call_chan lib) (map TStr objv)) (call_result lib) st
      | WriteBinary \<Rightarrow> on_channel (Rivet_WriteBinary (call_chan lib) objv) (call_result lib) st
      | Parse \<Rightarrow> on_script client (Rivet_Parse (call_script lib) objv) st
      | NoBody \<Rightarrow> on_private client Rivet_NoBody st
      | EnvCmd \<Rightarrow> on_private client (Rivet_EnvCmd c ri objv) st
      | LogErrorCmd \<Rightarrow>
          (case Rivet_LogErrorCmd c s objv (bound_private client st) (st_log st) of
             (log, out) \<Rightarrow> (st\<lparr>st_log := log\<rparr>, out))
      | InspectCmd \<Rightarrow>
          (st, Rivet_InspectCmd c (call_conf lib) (call_globals lib) (call_root lib) (call_info_script lib) objv
                 (bound_private client st))
      | ExitCmd \<Rightarrow> on_private client (Rivet_ExitCmd (get_int c) objv) st
      | UrlScript \<Rightarrow> on_script client (Rivet_UrlScript (script_io (call_script lib))) st
      | GetThreadId \<Rightarrow> (st, Rivet_GetThreadId (call_thread_id lib) objv))"

text \<open>A command word looked up in the interpreter. The commands of the packages have no part in the
  state; they and unknown names are left to \<open>other\<close>.\<close>

definition invoke ::
    "('chan, 'st, 'res) call_lib \<Rightarrow> (bytes list \<Rightarrow> tobj outcome) \<Rightarrow> tcl_interp \<Rightarrow> bytes list \<Rightarrow> 'st rivet_state \<Rightarrow>
     'st rivet_state cmd" where
  "invoke lib other ti objv st =
     (case (tcl_commands ti (hd objv), interp_globals ti) of
        (Some (CoreProc f, client), Some globals) \<Rightarrow> core_call lib (globals_server globals) f client objv st
      | _ \<Rightarrow> (st, other objv))"

fun invoke_all ::
    "('chan, 'st, 'res) call_lib \<Rightarrow> (bytes list \<Rightarrow> tobj outcome) \<Rightarrow> tcl_interp \<Rightarrow> bytes list list \<Rightarrow>
     'st rivet_state \<Rightarrow> 'st rivet_state \<times> tobj outcome list" where
  "invoke_all lib other ti [] st = (st, [])"
| "invoke_all lib other ti (objv # calls) st =
     (case invoke lib other ti objv st of
        (st, out) \<Rightarrow> (case invoke_all lib other ti calls st of (st, outs) \<Rightarrow> (st, out # outs)))"

section \<open>What the registrations leave\<close>

lemma register_commands:
  "tcl_commands (register_all cmds client ti) =
     tcl_commands ti ++ map_of (rev (map (\<lambda>c. (RIVET_NS @ ''::'' @ fst c, snd c, client)) cmds))"
  by (induction cmds arbitrary: ti)
    (auto simp: register_all_def RIVET_OBJ_CMD_def map_add_def fun_eq_iff split: option.splits)

lemma register_frame [simp]:
  "tcl_exports (register_all cmds client ti) = tcl_exports ti" "tcl_arrays (register_all cmds client ti) = tcl_arrays ti"
  "auto_path (register_all cmds client ti) = auto_path ti" "interp_globals (register_all cmds client ti) = interp_globals ti"
  "provided (register_all cmds client ti) = provided ti"
  by (induction cmds arbitrary: ti) (auto simp: register_all_def RIVET_OBJ_CMD_def)

lemma export_frame [simp]:
  "tcl_commands (export_all ns names ti) = tcl_commands ti" "tcl_arrays (export_all ns names ti) = tcl_arrays ti"
  "auto_path (export_all ns names ti) = auto_path ti" "interp_globals (export_all ns names ti) = interp_globals ti"
  "namespaces (export_all ns names ti) = namespaces ti"
  by (induction names arbitrary: ti) (auto simp: export_all_def RIVET_EXPORT_CMD_def)

lemma set_exports:
  "set (tcl_exports (export_all ns names ti)) =
     set (tcl_exports ti) \<union> Pair (case ns of None \<Rightarrow> ''::'' | Some n \<Rightarrow> n) ` set names"
  by (induction names arbitrary: ti) (auto simp: export_all_def RIVET_EXPORT_CMD_def)

lemma server_frame [simp]:
  "tcl_commands (Rivet_InitServerVariables env bridge ti) = tcl_commands ti"
  "tcl_exports (Rivet_InitServerVariables env bridge ti) = tcl_exports ti"
  "auto_path (Rivet_InitServerVariables env bridge ti) = auto_path ti"
  "interp_globals (Rivet_InitServerVariables env bridge ti) = interp_globals ti"
  by (simp_all add: Rivet_InitServerVariables_def Let_def set_server_def split: option.splits)

text \<open>The core commands by their full names.\<close>

definition core_table :: "nat option \<Rightarrow> bytes \<Rightarrow> (tcl_proc \<times> nat option) option" where
  "core_table client = map_of (rev (map (\<lambda>c. (RIVET_NS @ ''::'' @ fst c, CoreProc (snd c), client)) core_commands))"

lemma core_commands_distinct: "distinct (map fst core_commands)"
  by (simp add: core_commands_def)

lemma core_table_member:
  assumes "(name, f) \<in> set core_commands"
  shows "core_table client (RIVET_NS @ ''::'' @ name) = Some (CoreProc f, client)"
proof -
  have "distinct (map fst (rev (map (\<lambda>c. (RIVET_NS @ ''::'' @ fst c, CoreProc (snd c), client)) core_commands)))"
    using core_commands_distinct by (auto simp: rev_map [symmetric] distinct_map inj_on_def)
  then show ?thesis
    unfolding core_table_def using assms by (subst map_of_eq_Some_iff) force+
qed

lemma InitCore_result:
  assumes "Rivet_InitCore conf client ti = Ret ti'"
  shows "tcl_commands ti' = tcl_commands ti ++ core_table client" "interp_globals ti' = interp_globals ti"
    "auto_path ti' = auto_path ti" "tcl_arrays ti' = tcl_arrays ti"
    "export_rivet_ns conf \<noteq> 0 \<Longrightarrow> \<exists>g. interp_globals ti = Some g \<and> set (tcl_exports ti') =
       set (tcl_exports ti) \<union> Pair (case rivet_ns g of None \<Rightarrow> ''::'' | Some n \<Rightarrow> n) ` set core_exports"
    "export_rivet_ns conf = 0 \<Longrightarrow> tcl_exports ti' = tcl_exports ti"
  using assms
  by (auto simp: Rivet_InitCore_def Let_def register_commands core_table_def comp_def map_prod_def split_beta
      set_exports split: if_splits option.splits)

text \<open>What loading the package Rivet leaves alone: the core commands, the array \<open>server\<close> and the data of
  the module.\<close>

definition package_keeps :: "tcl_env \<Rightarrow> bool" where
  "package_keeps env \<longleftrightarrow>
     (\<forall>ti ti'. pkg_require env ti = Some ti' \<longrightarrow>
        (\<forall>name. core_table None name \<noteq> None \<longrightarrow> tcl_commands ti' name = tcl_commands ti name)
        \<and> tcl_arrays ti' ''::server'' = tcl_arrays ti ''::server'' \<and> interp_globals ti' = interp_globals ti)"

lemma core_table_dom: "core_table client name = None \<longleftrightarrow> core_table None name = None"
  by (simp add: core_table_def map_of_eq_None_iff) force

lemma PerInterpInit_commands:
  assumes "PerInterpInit_tcl env conf bridge s client ti = Ret ti'" "package_keeps env"
  shows "(name, f) \<in> set core_commands \<Longrightarrow> tcl_commands ti' (RIVET_NS @ ''::'' @ name) = Some (CoreProc f, client)"
    "\<exists>ns. interp_globals ti' = Some \<lparr>rivet_ns = ns, globals_server = s\<rparr>"
proof -
  obtain t1 where p: "interp_prepared env conf bridge s client ti = Ret t1" "pkg_require env t1 = Some ti'"
    using assms(1) by (auto simp: PerInterpInit_tcl_def bindO_Ret_iff split: option.splits)
  obtain ns t2 t3 where c: "Rivet_InitCore conf client t2 = Ret t3" "t1 = Rivet_InitServerVariables env bridge t3"
    "interp_globals t2 = Some \<lparr>rivet_ns = ns, globals_server = s\<rparr>"
    using p(1) by (auto simp: interp_prepared_def Let_def bindO_Ret_iff split: prod.splits option.splits)
  have keep: "core_table None n \<noteq> None \<Longrightarrow> tcl_commands ti' n = tcl_commands t1 n" "interp_globals ti' = interp_globals t1" for n
    using assms(2) p(2) by (auto simp: package_keeps_def)
  show "tcl_commands ti' (RIVET_NS @ ''::'' @ name) = Some (CoreProc f, client)" if "(name, f) \<in> set core_commands"
    using keep(1) [of "RIVET_NS @ ''::'' @ name"] core_table_member [OF that]
    by (simp add: c(2) InitCore_result(1) [OF c(1)])
  show "\<exists>ns. interp_globals ti' = Some \<lparr>rivet_ns = ns, globals_server = s\<rparr>"
    using keep(2) c by (simp add: InitCore_result(2) [OF c(1)])
qed

section \<open>Commands outside a request\<close>

text \<open>The commands that need no request.\<close>

definition always_available :: "core_proc list" where
  "always_available = [AbortPageCmd, AbortCodeCmd, ExitCmd, LogErrorCmd, InspectCmd, GetThreadId,
     WithBinaryOutput, WriteBinary]"

definition no_request :: "rivet_thread_private option \<Rightarrow> bool" where
  "no_request private \<longleftrightarrow> (case private of None \<Rightarrow> True | Some pd \<Rightarrow> priv_r pd = None)"

text \<open>What such a command answers: nothing without private data, else an error that names it; a wrong
  number of words may be reported first.\<close>

definition request_refused :: "rivet_thread_private option \<Rightarrow> tobj outcome \<Rightarrow> bool" where
  "request_refused private out \<longleftrightarrow>
     (\<exists>n usage. out = Fail (WrongNumArgs n usage))
     \<or> (if private = None then out = Ret no_result else \<exists>command. out = Fail (Rivet_NoRequestRec command))"

lemma CHECK_refused:
  assumes "no_request private"
  shows "CHECK_REQUEST_REC name none body private =
    (private, if private = None then Ret none else Fail (Rivet_NoRequestRec name))"
  using assms by (auto simp: CHECK_REQUEST_REC_def no_request_def split: option.splits)

lemma store_bound [simp]: "store_private client (bound_private client st) st = st"
  by (simp add: store_private_def bound_private_def)

lemma on_private_same:
  "f (bound_private client st) = (bound_private client st, out) \<Longrightarrow> on_private client f st = (st, out)"
  by (simp add: on_private_def)

lemma on_script_same:
  "f (bound_private client st, st_interp st) = ((bound_private client st, st_interp st), out) \<Longrightarrow>
   on_script client f st = (st, out)"
  by (simp add: on_script_def)

lemma core_call_refused:
  assumes "f \<notin> set always_available" "no_request (bound_private client st)"
  shows "\<exists>out. core_call lib s f client objv st = (st, out) \<and> request_refused (bound_private client st) out"
proof -
  note ref = CHECK_refused [OF assms(2)]
  have priv: "bound_private client st = None \<or> (\<exists>pd. bound_private client st = Some pd \<and> priv_r pd = None)"
    using assms(2) by (auto simp: no_request_def split: option.splits)
  show ?thesis
  proof (cases f)
    case Parse
    then show ?thesis using priv by (auto simp: core_call_def Rivet_Parse_def on_script_same request_refused_def)
  next
    case UrlScript
    then show ?thesis using priv by (auto simp: core_call_def Rivet_UrlScript_def on_script_same request_refused_def)
  next
    case Include
    then show ?thesis
      using priv by (auto simp: core_call_def Rivet_Include_def on_channel_def request_refused_def include_usage_def)
  next
    case MakeURL
    then show ?thesis
      by (auto simp: core_call_def Let_def on_private_def Rivet_MakeURL_def ref request_refused_def)
  qed (use assms(1) in \<open>auto simp: core_call_def Let_def always_available_def request_refused_def on_private_def on_array_def
     Rivet_Headers_def Rivet_LoadEnv_def Rivet_LoadHeaders_def Rivet_Var_def Rivet_VirtualFilenameCmd_def
     Rivet_ApacheTable_def Rivet_RawPost_def Rivet_Upload_def Rivet_NoBody_def Rivet_EnvCmd_def ref\<close>)
qed

text \<open>C22: on an interpreter the module has set up, a command that needs a request does nothing outside of
  one: bound to no thread it returns an empty result, else an error, and the state stays as it is.\<close>

theorem commands_outside_request:
  assumes "PerInterpInit_tcl env conf bridge s client ti0 = Ret ti" "package_keeps env"
    and "(name, f) \<in> set core_commands" "f \<notin> set always_available" "no_request (bound_private client st)"
  shows "\<exists>out. invoke lib other ti ((RIVET_NS @ ''::'' @ name) # words) st = (st, out)
    \<and> request_refused (bound_private client st) out"
proof -
  from PerInterpInit_commands [OF assms(1,2)] assms(3)
  obtain ns where "tcl_commands ti (RIVET_NS @ ''::'' @ name) = Some (CoreProc f, client)"
    "interp_globals ti = Some \<lparr>rivet_ns = ns, globals_server = s\<rparr>" by blast
  then show ?thesis using core_call_refused [OF assms(4,5)] by (simp add: invoke_def)
qed

section \<open>What every command keeps\<close>

text \<open>A command neither sends headers nor writes to the client itself; that is left to the output
  channel.\<close>

definition response_kept :: "tclweb \<Rightarrow> tclweb \<Rightarrow> bool" where
  "response_kept q q' \<longleftrightarrow>
     headers_printed q' = headers_printed q \<and> sent q' = sent q \<and> written q' = written q \<and> aborted q' = aborted q
     \<and> content_sent q' \<in> {content_sent q, 1}"

text \<open>The thread goes on with the same request and configuration; an abort or exit stays.\<close>

definition thread_kept :: "rivet_thread_private \<Rightarrow> rivet_thread_private \<Rightarrow> bool" where
  "thread_kept pd pd' \<longleftrightarrow>
     req_cnt pd' = req_cnt pd \<and> ctype pd' = ctype pd \<and> running_conf pd' = running_conf pd \<and> running pd' = running pd
     \<and> (priv_r pd' = None \<longleftrightarrow> priv_r pd = None) \<and> response_kept (priv_req pd) (priv_req pd')
     \<and> (page_aborting pd \<longrightarrow> page_aborting pd') \<and> (thread_exit pd \<longrightarrow> thread_exit pd')
     \<and> (abort_code pd \<noteq> None \<longrightarrow> abort_code pd' \<noteq> None)"

definition private_kept :: "rivet_thread_private option \<Rightarrow> rivet_thread_private option \<Rightarrow> bool" where
  "private_kept = rel_option thread_kept"

text \<open>The Tcl interpreter, its channel and the scripts of the configuration stay with the interpreter
  object; the cache keeps its size.\<close>

definition interp_kept :: "rivet_thread_interp \<Rightarrow> rivet_thread_interp \<Rightarrow> bool" where
  "interp_kept ri ri' \<longleftrightarrow>
     interp ri' = interp ri \<and> channel ri' = channel ri \<and> scripts ri' = scripts ri
     \<and> per_dir_scripts ri' = per_dir_scripts ri \<and> cache_size ri' = cache_size ri"

definition script_kept :: "script_state \<Rightarrow> script_state \<Rightarrow> bool" where
  "script_kept ss ss' \<longleftrightarrow> private_kept (fst ss) (fst ss') \<and> interp_kept (snd ss) (snd ss')"

definition state_kept :: "'st rivet_state \<Rightarrow> 'st rivet_state \<Rightarrow> bool" where
  "state_kept st st' \<longleftrightarrow> script_kept (st_private st, st_interp st) (st_private st', st_interp st')"

named_theorems kept

lemma response_kept_refl [kept]: "response_kept q q"
  by (simp add: response_kept_def)

lemma response_kept_trans: "response_kept a b \<Longrightarrow> response_kept b c \<Longrightarrow> response_kept a c"
  by (auto simp: response_kept_def)

lemma thread_kept_refl [kept]: "thread_kept pd pd"
  by (simp add: thread_kept_def response_kept_refl)

lemma thread_kept_trans: "thread_kept a b \<Longrightarrow> thread_kept b c \<Longrightarrow> thread_kept a c"
  using response_kept_trans [of "priv_req a" "priv_req b" "priv_req c"] by (auto simp: thread_kept_def)

lemma thread_kept_response [kept]:
  "response_kept (priv_req pd) q \<Longrightarrow> thread_kept pd (pd\<lparr>priv_req := q\<rparr>)"
  by (simp add: thread_kept_def)

lemma private_kept_simps [kept]:
  "private_kept None None" "private_kept (Some a) (Some b) = thread_kept a b"
  by (simp_all add: private_kept_def)

lemma private_kept_refl [kept]: "private_kept private private"
  by (cases "private") (simp_all add: kept)

lemma interp_kept_refl [kept]: "interp_kept ri ri"
  by (simp add: interp_kept_def)

lemma state_kept_refl [kept]: "state_kept st st"
  by (simp add: state_kept_def script_kept_def kept)

lemma script_kept_trans: "script_kept a b \<Longrightarrow> script_kept b c \<Longrightarrow> script_kept a c"
  by (auto simp: script_kept_def private_kept_def interp_kept_def elim!: option.rel_cases intro: thread_kept_trans)

lemma state_kept_trans: "state_kept a b \<Longrightarrow> state_kept b c \<Longrightarrow> state_kept a c"
  unfolding state_kept_def by (rule script_kept_trans)

text \<open>The functions of the web request object.\<close>

lemma response_kept_web [kept]:
  "response_kept q (TclWeb_HeaderSet lib k v q)" "response_kept q (TclWeb_HeaderAdd lib k v q)"
  "response_kept q (fst (TclWeb_SetHeaderType k q))" "response_kept q (TclWeb_InitEnvVars lib' ri q)"
  "response_kept q (load_common_vars lib' q)" "response_kept q (load_cgi_vars lib' q)"
  by (simp_all add: response_kept_def TclWeb_HeaderSet_def TclWeb_HeaderAdd_def TclWeb_SetHeaderType_def
      TclWeb_InitEnvVars_def load_common_vars_def load_cgi_vars_def Let_def)

lemma response_kept_status [kept]: "response_kept q q' \<Longrightarrow> response_kept q (TclWeb_SetStatus s q')"
  by (simp add: response_kept_def TclWeb_SetStatus_def)

lemma response_kept_env [kept]: "response_kept q (fst (TclWeb_GetEnvVar lib ri key q))"
  using response_kept_trans [OF response_kept_web(5) response_kept_web(6)] response_kept_web(5)
  by (auto simp: TclWeb_GetEnvVar_def Let_def response_kept_refl split: option.split)

lemma response_kept_envs [kept]: "response_kept q (fst (TclWeb_GetEnvVars lib ri q))"
  by (simp add: TclWeb_GetEnvVars_def Let_def kept)

lemma response_kept_upload [kept]:
  "TclWeb_PrepareUpload name q = Ret (q', b) \<Longrightarrow> response_kept q q'"
  "TclWeb_UploadNames lib parse q = Ret (q', names) \<Longrightarrow> response_kept q q'"
  by (auto simp: TclWeb_PrepareUpload_def TclWeb_UploadNames_def bindO_Ret_iff response_kept_def split: if_splits)

text \<open>The commands on the private data.\<close>

lemma CHECK_kept:
  assumes "\<And>rec pd. priv_r pd = Some rec \<Longrightarrow> thread_kept pd (fst (body rec pd))"
  shows "private_kept private (fst (CHECK_REQUEST_REC name none body private))"
  using assms by (auto simp: CHECK_REQUEST_REC_def kept split: option.split)

lemma deref_kept:
  assumes "\<And>pd. thread_kept pd (fst (body pd))"
  shows "private_kept private (fst (deref_private body private))"
  using assms by (auto simp: deref_private_def kept split: option.split)

lemma table_kept [kept]:
  "priv_r pd = Some rec \<Longrightarrow> thread_kept pd (change_table t f g pd rec)"
  "priv_r pd = Some rec \<Longrightarrow> thread_kept pd (set_in_request lib t kvs pd rec)"
  by (cases t; simp add: set_in_request_def change_table_def Let_def thread_kept_def response_kept_def)+

lemma headers_kept: "private_kept private (fst (Rivet_Headers lib objv private))"
  unfolding Rivet_Headers_def by (rule CHECK_kept) (simp add: Let_def kept split: option.split)

lemma makeurl_kept: "private_kept private (fst (Rivet_MakeURL lib ri objv private))"
  unfolding Rivet_MakeURL_def by (simp add: kept CHECK_kept Let_def)

lemma env_kept: "private_kept private (fst (Rivet_EnvCmd lib ri objv private))"
  unfolding Rivet_EnvCmd_def by (rule CHECK_kept) (simp add: kept split_beta)

lemma load_kept:
  "private_kept private (fst (Rivet_LoadEnv lib ri objv private))"
  "private_kept private (fst (Rivet_LoadHeaders lib objv private))"
  unfolding Rivet_LoadEnv_def Rivet_LoadHeaders_def by (rule CHECK_kept; simp add: kept split_beta Let_def)+

lemma reading_kept:
  "private_kept private (fst (Rivet_Var lib objv private))"
  "private_kept private (fst (Rivet_VirtualFilenameCmd lib objv private))"
  "private_kept private (fst (Rivet_RawPost private))"
  unfolding Rivet_Var_def Rivet_VirtualFilenameCmd_def Rivet_RawPost_def by (rule CHECK_kept; simp add: kept)+

lemma no_body_kept: "private_kept private (fst (Rivet_NoBody private))"
  unfolding Rivet_NoBody_def by (rule CHECK_kept) (simp add: thread_kept_def response_kept_def)

lemma apache_table_kept: "private_kept private (fst (Rivet_ApacheTable lib env_unset objv private))"
  unfolding Rivet_ApacheTable_def
  by (rule CHECK_kept) (simp add: kept Let_def split: option.split table_subcommand.split)

lemma upload_action_kept: "thread_kept pd (fst (upload_action lib sub objv pd))"
  by (auto simp: upload_action_def Let_def kept split: upload_subcommand.split outcome.split)

lemma upload_kept: "private_kept private (fst (Rivet_Upload lib objv private))"
  unfolding Rivet_Upload_def
  by (rule CHECK_kept)
    (auto simp: Let_def kept split: option.split outcome.split prod.split
      intro: upload_action_kept thread_kept_trans [OF thread_kept_response upload_action_kept] response_kept_upload)

lemma abort_kept:
  "private_kept private (fst (Rivet_AbortPageCmd objv private))" "private_kept private (fst (Rivet_AbortCodeCmd private))"
  "private_kept private (fst (Rivet_ExitCmd int_of objv private))"
  unfolding Rivet_AbortPageCmd_def Rivet_AbortCodeCmd_def Rivet_ExitCmd_def
  by (auto simp: kept Let_def thread_kept_def split: option.split intro!: deref_kept)

lemmas commands_kept = headers_kept makeurl_kept env_kept load_kept reading_kept no_body_kept apache_table_kept
  upload_kept abort_kept

text \<open>The cache changes its content only.\<close>

lemma cache_new_script_kept: "cache_new_script ri key script = Ret ri' \<Longrightarrow> interp_kept ri ri'"
  by (auto simp: cache_new_script_def RivetCache_StoreScript_def RivetCache_CreateEntry_def interp_kept_def Let_def
      bindO_Ret_iff split: if_splits option.splits)

text \<open>The law of the evaluation of scripts: a script works on the state through the commands.\<close>

definition eval_keeps :: "'chan script_lib \<Rightarrow> bool" where
  "eval_keeps lib \<longleftrightarrow> (\<forall>script ss. script_kept ss (fst (eval_script lib script ss)))"

lemma script_kept_interp [kept]: "script_kept (pd, ri) (pd, ri') = interp_kept ri ri'"
  by (simp add: script_kept_def kept)

lemma url_script_kept: "script_kept ss (fst (Rivet_UrlScript io ss))"
  by (cases ss) (auto simp: Rivet_UrlScript_def Let_def kept cache_new_script_kept split: option.split outcome.split prod.split)

lemma parse_file_kept:
  assumes "eval_keeps lib"
  shows "script_kept ss (fst (parse_file lib encoding fname tms conf ss))"
proof -
  obtain pd ri where ss: "ss = (pd, ri)" by fastforce
  have "script_kept (pd, ri) (fst (eval_script lib script (pd, ri')))" if "interp_kept ri ri'" for ri' script
    using that assms script_kept_trans [of "(pd, ri)" "(pd, ri')"] by (auto simp: eval_keeps_def kept)
  then show ?thesis
    using assms by (auto simp: ss parse_file_def Let_def kept eval_keeps_def cache_new_script_kept
        split: option.split outcome.split prod.split)
qed

lemma script_kept_refl [kept]: "script_kept ss ss"
  by (simp add: script_kept_def kept)

lemma parse_kept:
  assumes "eval_keeps lib"
  shows "script_kept ss (fst (Rivet_Parse lib objv ss))"
  using assms by (cases ss) (auto simp: Rivet_Parse_def Let_def kept parse_file_kept eval_keeps_def split: option.split outcome.split
      prod.split parse_source.split sum.split)

lemma on_private_kept:
  assumes "\<And>private. private_kept private (fst (f private))"
  shows "state_kept st (fst (on_private client f st))"
  using assms [of "st_private st"]
  by (auto simp: on_private_def store_private_def bound_private_def state_kept_def script_kept_def kept split: prod.split)

lemma on_array_kept:
  assumes "\<And>private. private_kept private (fst (f private))"
  shows "state_kept st (fst (on_array client f st))"
  using on_private_kept [of f st client, OF assms]
  by (auto simp: on_array_def state_kept_def split: prod.split outcome.split)

lemma on_script_kept:
  assumes "\<And>ss. script_kept ss (fst (f ss))"
  shows "state_kept st (fst (on_script client f st))"
  using assms [of "(bound_private client st, st_interp st)"]
  by (auto simp: on_script_def store_private_def bound_private_def state_kept_def script_kept_def kept split: prod.split)

lemma core_call_kept:
  assumes "eval_keeps (call_script lib)"
  shows "state_kept st (fst (core_call lib s f client objv st))"
  using assms
  by (cases f) (auto simp: core_call_def Let_def kept parse_kept url_script_kept state_kept_def [of _ "_\<lparr>st_channel := _\<rparr>"]
      state_kept_def [of _ "_\<lparr>st_log := _\<rparr>"] on_channel_def split: prod.split
      intro!: on_private_kept on_array_kept on_script_kept commands_kept)


section \<open>The packages keep the core commands\<close>

lemma GetNamespace_frame [simp]:
  "tcl_commands (fst (Rivet_GetNamespace ti)) = tcl_commands ti" "tcl_arrays (fst (Rivet_GetNamespace ti)) = tcl_arrays ti"
  "interp_globals (fst (Rivet_GetNamespace ti)) = interp_globals ti"
  by (simp_all add: Rivet_GetNamespace_def Tcl_CreateNamespace_def)

lemma init_group_result:
  "tcl_commands (init_group e cmds ti) = tcl_commands ti ++ map_of (rev (map (\<lambda>c. (RIVET_NS @ ''::'' @ fst c, snd c, None)) cmds))"
  "tcl_arrays (init_group e cmds ti) = tcl_arrays ti" "interp_globals (init_group e cmds ti) = interp_globals ti"
  by (simp_all add: init_group_def Let_def split_beta register_commands)

lemma init_group_other:
  assumes "name \<notin> fst ` set cmds"
  shows "tcl_commands (init_group e cmds ti) (RIVET_NS @ ''::'' @ name) = tcl_commands ti (RIVET_NS @ ''::'' @ name)"
proof -
  have "map_of (rev (map (\<lambda>c. (RIVET_NS @ ''::'' @ fst c, snd c, None :: nat option)) cmds)) (RIVET_NS @ ''::'' @ name) = None"
    using assms by (force simp: map_of_eq_None_iff)
  then show ?thesis by (simp add: init_group_result map_add_def)
qed

lemma core_table_name:
  assumes "core_table client n \<noteq> None"
  obtains name where "n = RIVET_NS @ ''::'' @ name" "name \<in> fst ` set core_commands"
proof -
  obtain y where "core_table client n = Some y" using assms by blast
  then have "(n, y) \<in> set (rev (map (\<lambda>c. (RIVET_NS @ ''::'' @ fst c, CoreProc (snd c), client)) core_commands))"
    unfolding core_table_def by (rule map_of_SomeD)
  then show thesis using that by auto
qed

lemma packages_apart:
  "name \<in> fst ` set core_commands \<Longrightarrow>
   name \<notin> fst ` set list_commands \<and> name \<notin> fst ` set crypt_commands \<and> name \<notin> fst ` set www_commands"
  by (auto simp: core_commands_def list_commands_def crypt_commands_def www_commands_def)

text \<open>The package rivetlib, which init.tcl loads first, respects the law of the package Rivet.\<close>

lemma Rivetlib_Init_keeps:
  assumes "Rivetlib_Init stubs e v ti = Ret ti'"
  shows "core_table None n \<noteq> None \<Longrightarrow> tcl_commands ti' n = tcl_commands ti n"
    "tcl_arrays ti' = tcl_arrays ti" "interp_globals ti' = interp_globals ti"
proof -
  have ti': "ti' = Tcl_PkgProvide ''rivetlib'' v (init_group e www_commands (init_group e crypt_commands (init_group e list_commands ti)))"
    using assms by (simp add: Rivetlib_Init_def Rivet_InitWWW_def Rivet_InitCrypt_def Rivet_InitList_def split: if_splits)
  show "tcl_arrays ti' = tcl_arrays ti" "interp_globals ti' = interp_globals ti"
    by (simp_all add: ti' Tcl_PkgProvide_def init_group_result)
  assume "core_table None n \<noteq> None"
  then obtain name where n: "n = RIVET_NS @ ''::'' @ name" "name \<in> fst ` set core_commands" by (rule core_table_name)
  have "tcl_commands (Tcl_PkgProvide p v t) = tcl_commands t" for p v t by (simp add: Tcl_PkgProvide_def)
  then show "tcl_commands ti' n = tcl_commands ti n"
    unfolding ti' n(1) using packages_apart [OF n(2)]
    by (auto simp only: init_group_other simp_thms)
qed

section \<open>An interpreter ready for use\<close>

definition demo_env :: tcl_env where
  "demo_env = \<lparr> ap_server_root = ''/srv/httpd'', server_root_relative = (\<lambda>p. p), SERVER_CONFIG_FILE = ''conf/httpd.conf'',
     RIVET_DIR = ''/usr/lib/rivet'', RIVET_INIT = ''/usr/lib/rivet/init.tcl'', DISPLAY_VERSION = None,
     RIVET_CONFIGURE_CMD = ''./configure'', mpm_threaded = Some 0, mpm_forked = Some 2,
     pkg_require = (\<lambda>ti. case Rivetlib_Init True True ''3.2'' ti of Ret ti \<Rightarrow> Some ti | _ \<Rightarrow> None) \<rparr>"

lemma demo_env_keeps: "package_keeps demo_env"
  unfolding package_keeps_def demo_env_def
  by (auto split: outcome.splits simp: Rivetlib_Init_keeps)

text \<open>A new interpreter of Tcl.\<close>

definition new_interp :: tcl_interp where
  "new_interp = \<lparr> tcl_commands = Map.empty, namespaces = [''::''], tcl_exports = [], tcl_arrays = (\<lambda>a. Map.empty),
     auto_path = Some (Some [''/usr/lib/tcl8.6'']), interp_globals = None, provided = [] \<rparr>"

text \<open>What the array \<open>server\<close> says.\<close>

definition server_array :: "tcl_env \<Rightarrow> bytes \<Rightarrow> (bytes \<times> bytes) list" where
  "server_array env bridge =
     [(''SERVER_ROOT'', ap_server_root env), (''SERVER_CONF'', server_root_relative env (SERVER_CONFIG_FILE env)),
      (''RIVET_DIR'', server_root_relative env (RIVET_DIR env)), (''RIVET_INIT'', server_root_relative env (RIVET_INIT env))]
     @ (case DISPLAY_VERSION env of None \<Rightarrow> [] | Some v \<Rightarrow> [(''RIVET_VERSION'', v)])
     @ (case mpm_threaded env of None \<Rightarrow> [] | Some r \<Rightarrow> [(''MPM_THREADED'', threaded_text r)])
     @ (case mpm_forked env of None \<Rightarrow> [] | Some r \<Rightarrow> [(''MPM_FORKED'', forked_text r)])
     @ [(''RIVET_MPM_BRIDGE'', bridge), (''RIVET_CONFIGURE_CMD'', RIVET_CONFIGURE_CMD env)]"

lemma InitServerVariables_fold:
  "Rivet_InitServerVariables env bridge ti = fold (\<lambda>(key, val). set_server key val) (server_array env bridge) ti"
  by (simp add: Rivet_InitServerVariables_def server_array_def Let_def split: option.split)

lemma set_server_at:
  "tcl_arrays (set_server k val ti) ''::server'' key = (if key = k then Some val else tcl_arrays ti ''::server'' key)"
  by (simp add: set_server_def)

lemma set_server_other:
  "key \<notin> fst ` set kvs \<Longrightarrow>
   tcl_arrays (fold (\<lambda>(key, val). set_server key val) kvs ti) ''::server'' key = tcl_arrays ti ''::server'' key"
  by (induction kvs arbitrary: ti) (auto simp: set_server_at)

lemma set_server_fold:
  "distinct (map fst kvs) \<Longrightarrow> (key, val) \<in> set kvs \<Longrightarrow>
   tcl_arrays (fold (\<lambda>(key, val). set_server key val) kvs ti) ''::server'' key = Some val"
proof (induction kvs arbitrary: ti)
  case (Cons kv kvs)
  show ?case
  proof (cases "kv = (key, val)")
    case True
    then show ?thesis using Cons.prems by (simp add: set_server_other set_server_at)
  next
    case False
    then show ?thesis using Cons by (simp add: split_beta)
  qed
qed simp

lemma InitServerVariables_array:
  assumes "(key, val) \<in> set (server_array env bridge)"
  shows "tcl_arrays (Rivet_InitServerVariables env bridge ti) ''::server'' key = Some val"
proof -
  have "distinct (map fst (server_array env bridge))" by (simp add: server_array_def split: option.split)
  with assms show ?thesis unfolding InitServerVariables_fold by (intro set_server_fold)
qed

text \<open>The configuration a command finds when it is called outside a request: that of the root server in the
  server, the running configuration in a thread.\<close>

definition outside_conf :: "server_rec \<Rightarrow> rivet_thread_private option \<Rightarrow> rivet_server_conf option" where
  "outside_conf root private = (case private of None \<Rightarrow> Some (module_config root) | Some pd \<Rightarrow> running_conf pd)"

lemma inspect_export:
  assumes "index_laws lib" "no_request private" "outside_conf root private = Some c"
    "(name, IntField field) \<in> set confDirectives"
  shows "Rivet_InspectCmd lib clib g root info_script [w, name] private = Ret (TInt (field g c))"
proof -
  obtain i where i: "i < length confDirectives" "confDirectives ! i = (name, IntField field)"
    using assms(4) by (auto simp: in_set_conv_nth)
  show ?thesis
    using ReadConfParameter_listed [OF assms(1) i(1)] not_a_keyword [OF assms(4)] assms(2,3) i(2)
    by (auto simp: Rivet_InspectCmd_def inspect_word_def Let_def no_request_def outside_conf_def conf_value_obj_def
        split: option.splits)
qed

text \<open>C38: a new interpreter is set up unless the package cannot be loaded; the package, when it is loaded,
  finds the search path of the module first, the array \<open>server\<close> filled and can ask \<open>inspect\<close> for the
  numeric directives; afterwards all core commands are bound to the thread and their server.\<close>

theorem interpreter_set_up:
  assumes "auto_path ti0 = Some (Some dirs)" "package_keeps env" "index_laws (call_core lib)"
    and "no_request (bound_private client st)" "outside_conf (call_root lib) (bound_private client st) = Some c"
  shows "\<exists>t1. interp_prepared env conf bridge s client ti0 = Ret t1
    \<and> auto_path t1 = Some (Some (RIVET_DIR env # dirs))
    \<and> (\<forall>(key, val) \<in> set (server_array env bridge). tcl_arrays t1 ''::server'' key = Some val)
    \<and> (\<forall>(name, v) \<in> set confDirectives. case v of StrField f \<Rightarrow> True | IntField f \<Rightarrow>
         invoke lib other t1 [RIVET_NS @ ''::inspect'', name] st = (st, Ret (TInt (f (call_globals lib) c))))
    \<and> (case pkg_require env t1 of
         None \<Rightarrow> PerInterpInit_tcl env conf bridge s client ti0 = Fail package_error
       | Some ti \<Rightarrow> PerInterpInit_tcl env conf bridge s client ti0 = Ret ti
           \<and> (\<forall>(name, f) \<in> set core_commands. tcl_commands ti (RIVET_NS @ ''::'' @ name) = Some (CoreProc f, client))
           \<and> map_option globals_server (interp_globals ti) = Some s)"
proof -
  obtain ti ns where ns: "Tcl_CreateNamespace RIVET_NS ti0 = (ti, ns)" by fastforce
  then have ap: "auto_path ti = Some (Some dirs)" using assms(1) by (auto simp: Tcl_CreateNamespace_def split: if_splits)
  let ?ti = "ti\<lparr>interp_globals := Some \<lparr>rivet_ns = ns, globals_server = s\<rparr>, auto_path := Some (Some (RIVET_DIR env # dirs))\<rparr>"
  have "\<exists>t2. Rivet_InitCore conf client ?ti = Ret t2" by (simp add: Rivet_InitCore_def Let_def)
  then obtain t2 where t2: "Rivet_InitCore conf client ?ti = Ret t2" by blast
  note core = InitCore_result [OF t2]
  let ?t1 = "Rivet_InitServerVariables env bridge t2"
  have prep: "interp_prepared env conf bridge s client ti0 = Ret ?t1"
    by (simp add: interp_prepared_def ns ap Let_def t2)
  have arr: "\<forall>(key, val) \<in> set (server_array env bridge). tcl_arrays ?t1 ''::server'' key = Some val"
    by (auto simp: InitServerVariables_array)
  have "(''inspect'', InspectCmd) \<in> set core_commands" by (simp add: core_commands_def)
  from core_table_member [OF this]
  have insp: "tcl_commands t2 (RIVET_NS @ ''::inspect'') = Some (CoreProc InspectCmd, client)" by (simp add: core(1))
  have ask: "invoke lib other ?t1 [RIVET_NS @ ''::inspect'', name] st = (st, Ret (TInt (f (call_globals lib) c)))"
    if "(name, IntField f) \<in> set confDirectives" for name f
    using inspect_export [OF assms(3-5) that] by (simp add: invoke_def insp core(2) core_call_def)
  show ?thesis
  proof (intro exI [of _ ?t1] conjI prep arr)
    show "auto_path ?t1 = Some (Some (RIVET_DIR env # dirs))" by (simp add: core(3))
    show "\<forall>(name, v) \<in> set confDirectives. case v of StrField f \<Rightarrow> True | IntField f \<Rightarrow>
         invoke lib other ?t1 [RIVET_NS @ ''::inspect'', name] st = (st, Ret (TInt (f (call_globals lib) c)))"
      using ask by (auto split: conf_value.split)
    show "case pkg_require env ?t1 of
         None \<Rightarrow> PerInterpInit_tcl env conf bridge s client ti0 = Fail package_error
       | Some ti \<Rightarrow> PerInterpInit_tcl env conf bridge s client ti0 = Ret ti
           \<and> (\<forall>(name, f) \<in> set core_commands. tcl_commands ti (RIVET_NS @ ''::'' @ name) = Some (CoreProc f, client))
           \<and> map_option globals_server (interp_globals ti) = Some s"
    proof (cases "pkg_require env ?t1")
      case (Some ti)
      then have "PerInterpInit_tcl env conf bridge s client ti0 = Ret ti" by (simp add: PerInterpInit_tcl_def prep)
      with PerInterpInit_commands [OF this assms(2)] Some show ?thesis by (auto simp del: append.simps)
    qed (simp add: PerInterpInit_tcl_def prep)
  qed
qed

section \<open>Examples\<close>

definition demo_call :: "(nat, (bytes \<Rightarrow> bytes) \<times> bytes, bytes) call_lib" where
  "demo_call = \<lparr> call_script = demo_scripts, call_chan = demo_channel, call_conf = demo_conf_lib,
     call_globals = demo_globals, call_root = demo_server 0, call_env_unset = table_drop, call_thread_id = 7,
     call_info_script = Ret no_result, call_result = (\<lambda>_. Ret no_result) \<rparr>"

definition demo_state :: "rivet_thread_private option \<Rightarrow> ((bytes \<Rightarrow> bytes) \<times> bytes) rivet_state" where
  "demo_state private = \<lparr> st_private = private, st_interp = cold_interp, st_channel = (demo_options, []), st_log = [],
     st_arrays = (\<lambda>a. Map.empty) \<rparr>"

lemma demo_set_up:
  obtains ti where "PerInterpInit_tcl demo_env conf bridge s client new_interp = Ret ti"
proof -
  obtain t1 where "interp_prepared demo_env conf bridge s client new_interp = Ret t1"
    by (cases "export_rivet_ns conf = 0")
      (simp_all add: interp_prepared_def new_interp_def Tcl_CreateNamespace_def RIVET_NS_def Let_def Rivet_InitCore_def)
  moreover have "pkg_require demo_env t1 \<noteq> None"
    by (simp add: demo_env_def Rivetlib_Init_def)
  ultimately show thesis using that by (auto simp: PerInterpInit_tcl_def)
qed

theorem commands_outside_request_witness:
  "\<exists>ti out. PerInterpInit_tcl demo_env RIVET_NEW_CONF ''bridge'' (demo_server 0) None new_interp = Ret ti
    \<and> invoke demo_call (\<lambda>_. Fail LibError) ti ((RIVET_NS @ ''::'' @ ''headers'') # [''sent'']) (demo_state (Some demo_thread))
        = (demo_state (Some demo_thread), out)
    \<and> request_refused (bound_private None (demo_state (Some demo_thread))) out"
proof -
  obtain ti where ti: "PerInterpInit_tcl demo_env RIVET_NEW_CONF ''bridge'' (demo_server 0) None new_interp = Ret ti"
    by (rule demo_set_up)
  have "no_request (bound_private None (demo_state (Some demo_thread)))" by (simp add: bound_private_def no_request_def)
  from commands_outside_request [OF ti demo_env_keeps _ _ this, of "''headers''" Headers] ti
  show ?thesis by (simp add: core_commands_def always_available_def) blast
qed

lemma demo_eval_keeps: "eval_keeps (call_script demo_call)"
  by (simp add: eval_keeps_def demo_call_def demo_scripts_def kept)


theorem interpreter_set_up_witness:
  "\<exists>t1. interp_prepared demo_env RIVET_NEW_CONF ''bridge'' (demo_server 0) None new_interp = Ret t1
    \<and> auto_path t1 = Some (Some (RIVET_DIR demo_env # [''/usr/lib/tcl8.6'']))
    \<and> (\<forall>(key, val) \<in> set (server_array demo_env ''bridge''). tcl_arrays t1 ''::server'' key = Some val)
    \<and> (\<forall>(name, v) \<in> set confDirectives. case v of StrField f \<Rightarrow> True | IntField f \<Rightarrow>
         invoke demo_call (\<lambda>_. Fail LibError) t1 [RIVET_NS @ ''::inspect'', name] (demo_state None)
           = (demo_state None, Ret (TInt (f (call_globals demo_call) (module_config (demo_server 0))))))
    \<and> (case pkg_require demo_env t1 of
         None \<Rightarrow> PerInterpInit_tcl demo_env RIVET_NEW_CONF ''bridge'' (demo_server 0) None new_interp = Fail package_error
       | Some ti \<Rightarrow> PerInterpInit_tcl demo_env RIVET_NEW_CONF ''bridge'' (demo_server 0) None new_interp = Ret ti
           \<and> (\<forall>(name, f) \<in> set core_commands. tcl_commands ti (RIVET_NS @ ''::'' @ name) = Some (CoreProc f, None))
           \<and> map_option globals_server (interp_globals ti) = Some (demo_server 0))"
proof (rule interpreter_set_up [OF _ demo_env_keeps])
  show "index_laws (call_core demo_call)" by (simp add: demo_call_def demo_scripts_def demo_index_laws)
qed (simp_all add: new_interp_def bound_private_def no_request_def outside_conf_def demo_call_def)

section \<open>One translation of templates\<close>

lemma parser_loop_prefix:
  "parser_loop utf_next st s (a @ b) = map_prod id ((@) a) (parser_loop utf_next st s b)"
  by (induction utf_next st s b rule: parser_loop.induct) (simp_all add: Let_def)

lemma Rivet_Parser_prefix:
  "Rivet_Parser utf_next (a @ b) s = map_prod id ((@) a) (Rivet_Parser utf_next b s)"
  by (simp add: Rivet_Parser_def Let_def parser_loop_prefix split_beta)

text \<open>C39: the commands of the parser package, \<open>parse -string\<close> and the reading of a template file all make
  the same script of a text; \<open>parserivet\<close> wraps it in the namespace of the request.\<close>

theorem template_routes_agree:
  assumes "Tcl_OpenFileChannel (script_io lib) (cstr f) = Some ch" "Tcl_ReadChars (script_io lib) ch = Some t"
    and "priv_r pd = Some rec"
  shows "\<exists>script. Parse_RivetData (Tcl_UtfNext (script_io lib)) [w, t] = Ret (TStr script)
    \<and> Parse_Rivet (script_io lib) [w', f]
        = Ret (TStr (''namespace eval request {'' @ [LF] @ script @ [LF] @ ''}'' @ [LF]))
    \<and> Rivet_GetRivetFile (script_io lib) (cstr f) [] = (script, Ret ())
    \<and> Rivet_Parse lib [w'', ''-string'', t] (Some pd, ri) = eval_script lib (script @ [LF]) (Some pd, ri)"
proof -
  let ?open = "''puts -nonewline '' @ [DQ]"
  obtain ins out where r: "Rivet_Parser (Tcl_UtfNext (script_io lib)) ?open t = (ins, out)" by fastforce
  have r': "Rivet_Parser (Tcl_UtfNext (script_io lib)) (a @ ?open) t = (ins, a @ out)" for a
    using Rivet_Parser_prefix [of "Tcl_UtfNext (script_io lib)" a ?open t] r by simp
  let ?script = "if \<not> ins then out @ [DQ, LF] else out"
  have get: "Rivet_GetRivetFile (script_io lib) (cstr f) a = (a @ ?script, Ret ())" for a
    using assms(1,2) r' [of a] by (simp add: Rivet_GetRivetFile_def Rivet_GetRivetFileEncoding_def Let_def)
  have "Parse_RivetData (Tcl_UtfNext (script_io lib)) [w, t] = Ret (TStr ?script)"
    using r by (simp add: Parse_RivetData_def)
  moreover have "Parse_Rivet (script_io lib) [w', f]
      = Ret (TStr (''namespace eval request {'' @ [LF] @ ?script @ [LF] @ ''}'' @ [LF]))"
    using get [of "''namespace eval request {'' @ [LF]"] by (simp add: Parse_Rivet_def)
  moreover have "Rivet_Parse lib [w'', ''-string'', t] (Some pd, ri) = eval_script lib (?script @ [LF]) (Some pd, ri)"
    using assms(3) r by (simp add: Rivet_Parse_def parse_words_def STREQU_def Let_def)
  ultimately show ?thesis using get [of "[]"] by fastforce
qed

theorem template_routes_agree_witness:
  "\<exists>script. Parse_RivetData (Tcl_UtfNext (script_io demo_scripts)) [''parserivetdata'', ''hello''] = Ret (TStr script)
    \<and> Parse_Rivet (script_io demo_scripts) [''parserivet'', ''index.rvt'']
        = Ret (TStr (''namespace eval request {'' @ [LF] @ script @ [LF] @ ''}'' @ [LF]))
    \<and> Rivet_GetRivetFile (script_io demo_scripts) (cstr ''index.rvt'') [] = (script, Ret ())
    \<and> Rivet_Parse demo_scripts [''parse'', ''-string'', ''hello''] (Some demo_thread, cold_interp)
        = eval_script demo_scripts (script @ [LF]) (Some demo_thread, cold_interp)"
  by (rule template_routes_agree [where ch = "1 :: nat" and t = "''hello''" and rec = "demo_request M_GET None"])
    (simp_all add: demo_scripts_def demo_io_def demo_thread_def)

text \<open>A safe interpreter gets no command that reads a file.\<close>

lemma safe_parser_reads_no_file:
  "Rivetparser_SafeInit stubs ti = Ret ti' \<Longrightarrow> tcl_commands ti (RIVET_NS @ ''::parserivet'') = None \<Longrightarrow>
   tcl_commands ti' (RIVET_NS @ ''::parserivet'') = None"
  by (auto simp: Rivetparser_SafeInit_def register_commands Tcl_PkgProvide_def RIVET_NS_def split: if_splits)

end
