(* ===== verification/Rivet_Startup.thy ===== *)
theory Rivet_Startup
  imports Rivet_Tcl Rivet_Worker Rivet_Lazy
begin

unbundle bit_operations_syntax

text \<open>
  The start of the server, src/src/mod_rivet_ng/mod_rivet.c: the globals of the module, the hooks
  before and after the configuration is read, loading the bridge, the interpreter of the server with
  its script, the hook of a child process, the finalization; and the panic procedure and the channel of
  a thread from mod_rivet_common.c. httpd reads its configuration twice and runs the hooks each time.
  A call of \<open>exit\<close> after a message is an error with that message.
\<close>

section \<open>The globals of the module\<close>

text \<open>The entries of a jump table: the bridge's part of the server initialization, a function on the
  interpreter of the server and the configured globals, and which of the other entries are there.\<close>

record rivet_bridge_table =
  server_init :: "(rivet_thread_interp \<Rightarrow> mod_rivet_globals \<Rightarrow> rivet_thread_interp \<times> mod_rivet_globals) option"
  has_thread_init :: bool
  has_request_processor :: bool
  has_child_finalize :: bool
  has_exit_handler :: bool
  has_thread_interp :: bool

definition prefork_jump_table :: rivet_bridge_table where
  "prefork_jump_table = \<lparr> server_init = Some PreforkBridge_ServerInit, has_thread_init = True,
     has_request_processor = True, has_child_finalize = True, has_exit_handler = True, has_thread_interp = True \<rparr>"

definition worker_jump_table :: rivet_bridge_table where
  "worker_jump_table = \<lparr> server_init = Some (\<lambda>ri g. (ri, WorkerBridge_ServerInit g)), has_thread_init = True,
     has_request_processor = True, has_child_finalize = True, has_exit_handler = True, has_thread_interp = True \<rparr>"

definition lazy_jump_table :: rivet_bridge_table where
  "lazy_jump_table = \<lparr> server_init = Some (\<lambda>ri g. (ri, LazyBridge_ServerInit g)), has_thread_init = True,
     has_request_processor = True, has_child_finalize = True, has_exit_handler = True, has_thread_interp = True \<rparr>"

text \<open>\<open>mod_rivet_globals\<close>: the fields the directives set are the record of that name, the others stand
  beside it; pools and mutexes are left out.\<close>

record module_globals =
  directives :: mod_rivet_globals
  g_default_handler :: bytes
  rivet_mpm_bridge :: "bytes option"
  g_server :: "server_rec option"
  bridge_jump_table :: "rivet_bridge_table option"
  server_interp :: "rivet_thread_interp option"
  vhosts_count :: nat

text \<open>The process: the globals (\<open>None\<close> is the NULL pointer), the mark httpd's process pool keeps between
  the two runs of the hook, the version components, the Tcl interpreters by number, the scripts
  evaluated in them.\<close>

record server_process =
  globals :: "module_globals option"
  userdata :: bool
  version_components :: "bytes list"
  tcl_interps :: "nat \<Rightarrow> tcl_interp"
  tcl_made :: nat
  server_evals :: "(nat \<times> bytes) list"

text \<open>Parameters: the surroundings of an interpreter, the files, the build constants, whether a pool can be
  made, a new Tcl interpreter (\<open>Inl\<close>: which step failed), the environment variable RIVET_MPM_BRIDGE, which
  files exist, loading a bridge (no library, no symbol, a table), evaluating a script, httpd's
  limit of requests.\<close>

record start_lib =
  tclenv :: tcl_env
  start_files :: file_lib
  RIVET_SEPARATE_VIRTUAL_INTERPS :: int
  RIVET_SEPARATE_CHANNELS :: int
  version_component :: bytes
  pool_ok :: bool
  create_interp :: "bytes + tcl_interp"
  env_bridge :: "bytes option"
  file_exists :: "bytes \<Rightarrow> bool"
  dso_load :: "bytes \<Rightarrow> rivet_bridge_table option option"
  eval_server :: "bytes \<Rightarrow> tcl_interp \<Rightarrow> tcl_interp \<times> bool"
  start_requests :: int

definition TCL_HANDLER_FILE :: "start_lib \<Rightarrow> bytes" where
  "TCL_HANDLER_FILE lib = RIVET_DIR (tclenv lib) @ ''/default_request_handler.tcl''"

text \<open>The fields the directives can set, before they do.\<close>

definition initial_directives :: "start_lib \<Rightarrow> mod_rivet_globals" where
  "initial_directives lib = \<lparr> rivet_server_init_script = None, mpm_bridge = None,
     single_thread_exit = SINGLE_THREAD_EXIT_UNDEF, separate_virtual_interps = RIVET_SEPARATE_VIRTUAL_INTERPS lib,
     separate_channels = RIVET_SEPARATE_CHANNELS lib \<rparr>"

definition Rivet_CreateModuleGlobals :: "start_lib \<Rightarrow> module_globals outcome" where
  "Rivet_CreateModuleGlobals lib =
     (if \<not> pool_ok lib then Fail (ErrMsg ''could not initialize rivet module global pool'')
      else
        case Rivet_ReadFile (start_files lib) (TCL_HANDLER_FILE lib) of
          (rc, handler) \<Rightarrow>
            if rc > 0 then Fail (ErrMsg ''could not read rivet default handler'')
            else Ret \<lparr> directives = initial_directives lib, g_default_handler = handler, rivet_mpm_bridge = None,
                   g_server = None, bridge_jump_table = None, server_interp = None, vhosts_count = 0 \<rparr>)"

text \<open>The hook before the configuration is read.\<close>

definition Rivet_InitGlobals :: "start_lib \<Rightarrow> server_process \<Rightarrow> server_process outcome" where
  "Rivet_InitGlobals lib proc =
     bindO (Rivet_CreateModuleGlobals lib) (\<lambda>g. Ret (proc\<lparr>globals := Some g\<rparr>))"

section \<open>The interpreter of the server\<close>

definition Rivet_CreateTclInterp :: "start_lib \<Rightarrow> server_process \<Rightarrow> (nat \<times> server_process) outcome" where
  "Rivet_CreateTclInterp lib proc =
     (case create_interp lib of
        Inl step \<Rightarrow> Fail (ErrMsg (''Error in '' @ step))
      | Inr ti \<Rightarrow> Ret (tcl_made proc, proc\<lparr>tcl_interps := (tcl_interps proc)(tcl_made proc := ti),
                                       tcl_made := tcl_made proc + 1\<rparr>))"

text \<open>The script of the server; that it fails is only logged.\<close>

definition run_server_script :: "start_lib \<Rightarrow> bytes option \<Rightarrow> nat \<Rightarrow> server_process \<Rightarrow> server_process" where
  "run_server_script lib script n proc =
     (case script of
        None \<Rightarrow> proc
      | Some s \<Rightarrow>
          (case eval_server lib (cstr s) (tcl_interps proc n) of
             (ti, tcl_ok) \<Rightarrow> proc\<lparr>tcl_interps := (tcl_interps proc)(n := ti),
                              server_evals := server_evals proc @ [(n, cstr s)]\<rparr>))"

text \<open>\<open>Rivet_InitCore\<close> asks the configuration of the server in the globals.\<close>

definition Rivet_RunServerInit :: "start_lib \<Rightarrow> server_rec \<Rightarrow> server_process \<Rightarrow> server_process outcome" where
  "Rivet_RunServerInit lib s proc =
     (case globals proc of
        None \<Rightarrow> Fault NullDeref
      | Some g \<Rightarrow>
          bindO (Rivet_CreateTclInterp lib proc)
            (\<lambda>(n, proc).
               case (Rivet_NewVHostInterp (pool_ok lib) (start_requests lib) n 0, g_server g, rivet_mpm_bridge g) of
                 (Some ri, Some root, Some bridge) \<Rightarrow>
                   bindO (PerInterpInit_tcl (tclenv lib) (module_config root) bridge s None (tcl_interps proc n))
                     (\<lambda>ti.
                        let ri = ri\<lparr>flags := flags ri OR RIVET_INTERP_INITIALIZED\<rparr>;
                            proc = proc\<lparr>tcl_interps := (tcl_interps proc)(n := ti)\<rparr>;
                            proc = run_server_script lib (rivet_server_init_script (directives g)) n proc
                        in case bridge_jump_table g of
                             None \<Rightarrow> Fault NullDeref
                           | Some table \<Rightarrow>
                               let (ri, mg) = (case server_init table of
                                                 None \<Rightarrow> (ri, directives g) | Some f \<Rightarrow> f ri (directives g))
                               in Ret (proc\<lparr>globals := Some (g\<lparr>server_interp := Some ri, directives := mg\<rparr>)\<rparr>))
               | _ \<Rightarrow> Fault NullDeref))"

section \<open>The hook after the configuration is read\<close>

definition bridge_path :: "start_lib \<Rightarrow> mod_rivet_globals \<Rightarrow> bytes option" where
  "bridge_path lib mg =
     Rivet_SeekMPMBridge (RIVET_DIR (tclenv lib)) (file_exists lib) (env_bridge lib)
       (map_option (\<lambda>r. r \<noteq> AP_MPMQ_NOT_SUPPORTED) (mpm_threaded (tclenv lib))) (mpm_bridge mg)"

definition Rivet_ServerInit :: "start_lib \<Rightarrow> server_rec \<Rightarrow> server_process \<Rightarrow> server_process outcome" where
  "Rivet_ServerInit lib server proc =
     (let proc = proc\<lparr>version_components := version_components proc @ [version_component lib]\<rparr> in
      if \<not> userdata proc then Ret (proc\<lparr>userdata := True\<rparr>)
      else
        case globals proc of
          None \<Rightarrow> Fault NullDeref
        | Some g \<Rightarrow>
            (case bridge_path lib (directives g) of
               None \<Rightarrow> Fail (ErrMsg ''MPM bridge not found'')
             | Some bridge \<Rightarrow>
                 (case dso_load lib bridge of
                    None \<Rightarrow> Fail (ErrMsg ''Error loading MPM manager'')
                  | Some None \<Rightarrow> Fail (ErrMsg ''Error loading symbol bridge_jump_table'')
                  | Some (Some table) \<Rightarrow>
                      if \<not> has_request_processor table \<or> \<not> has_thread_interp table then Fault AssertFailed
                      else Rivet_RunServerInit lib server
                             (proc\<lparr>globals := Some (g\<lparr>rivet_mpm_bridge := Some bridge, g_server := Some server,
                                    bridge_jump_table := Some table\<rparr>)\<rparr>))))"

section \<open>The start of httpd\<close>

text \<open>One reading of the configuration: the hook before, the directives of the main server on a new record,
  the hook after. A directive that is refused stops httpd.\<close>

definition config_pass ::
    "start_lib \<Rightarrow> conf_lib \<Rightarrow> build_constants \<Rightarrow> (bytes \<times> bytes) list \<Rightarrow> server_rec \<Rightarrow> server_process \<Rightarrow>
     server_process outcome" where
  "config_pass lib clib k ds server proc =
     bindO (Rivet_InitGlobals lib proc)
       (\<lambda>proc. case globals proc of
          None \<Rightarrow> Fault NullDeref
        | Some g \<Rightarrow>
            bindO (run_directives clib ds (Rivet_CreateConfig k) (directives g))
              (\<lambda>(rsc, mg). Rivet_ServerInit lib (server\<lparr>module_config := rsc\<rparr>)
                 (proc\<lparr>globals := Some (g\<lparr>directives := mg\<rparr>)\<rparr>)))"

definition httpd_start ::
    "start_lib \<Rightarrow> conf_lib \<Rightarrow> build_constants \<Rightarrow> (bytes \<times> bytes) list \<Rightarrow> server_rec \<Rightarrow> server_process \<Rightarrow>
     server_process outcome" where
  "httpd_start lib clib k ds server proc =
     bindO (config_pass lib clib k ds server proc) (config_pass lib clib k ds server)"

text \<open>The process before.\<close>

definition new_process :: server_process where
  "new_process = \<lparr> globals = None, userdata = False, version_components = [], tcl_interps = (\<lambda>_. new_interp),
     tcl_made = 0, server_evals = [] \<rparr>"

section \<open>A child process\<close>

text \<open>The hook of a child process: without globals it makes new ones, then numbers the hosts; the last
  part of the result tells whether the bridge starts its threads.\<close>

definition Rivet_ChildInit_hook ::
    "start_lib \<Rightarrow> bool \<Rightarrow> server_rec \<Rightarrow> nat list \<Rightarrow> rivet_server_conf list \<Rightarrow> server_process \<Rightarrow>
     (nat list \<times> rivet_server_conf list \<times> server_process \<times> bool) outcome" where
  "Rivet_ChildInit_hook lib key_made server refs store proc =
     (if \<not> key_made then Fault AssertFailed
      else
        bindO (case globals proc of
                 Some g \<Rightarrow> Ret g
               | None \<Rightarrow>
                   bindO (Rivet_CreateModuleGlobals lib)
                     (\<lambda>g. case bridge_path lib (directives g) of
                            None \<Rightarrow> Fail (ErrMsg ''MPM bridge not found'')
                          | Some bridge \<Rightarrow> Ret (g\<lparr>rivet_mpm_bridge := Some bridge, g_server := Some server\<rparr>)))
          (\<lambda>g. case Rivet_ChildInit refs store of
                 (refs, store, n) \<Rightarrow>
                   let g = g\<lparr>vhosts_count := n\<rparr> in
                   case bridge_jump_table g of
                     None \<Rightarrow> Fault NullDeref
                   | Some table \<Rightarrow> Ret (refs, store, proc\<lparr>globals := Some g\<rparr>, has_thread_init table)))"

text \<open>A prefork child binds the core commands of the interpreter of the server to its thread and imports
  them into the global namespace.\<close>

definition tcl_import_cmd :: bytes where
  "tcl_import_cmd = ''namespace eval :: { namespace import -force ::rivet::* }'' @ [LF]"

definition prefork_root_commands ::
    "start_lib \<Rightarrow> rivet_server_conf \<Rightarrow> nat \<Rightarrow> nat \<Rightarrow> server_process \<Rightarrow> server_process outcome" where
  "prefork_root_commands lib conf thread n proc =
     bindO (Rivet_InitCore conf (Some thread) (tcl_interps proc n))
       (\<lambda>ti. Ret (run_server_script lib (Some tcl_import_cmd) n (proc\<lparr>tcl_interps := (tcl_interps proc)(n := ti)\<rparr>)))"

text \<open>The end of a child process: the bridge is told, the key of the private data is deleted. The prefork
  bridge only looks that the private data are there.\<close>

definition Rivet_Finalize ::
    "(unit \<Rightarrow> unit outcome) \<Rightarrow> rivet_bridge_table option \<Rightarrow> bool \<Rightarrow> bool outcome" where
  "Rivet_Finalize child_finalize table key =
     (case table of
        None \<Rightarrow> Fault NullDeref
      | Some t \<Rightarrow> bindO (if has_child_finalize t then child_finalize () else Ret ()) (\<lambda>_. Ret False))"

definition PreforkBridge_Finalize :: "rivet_thread_private option \<Rightarrow> unit outcome" where
  "PreforkBridge_Finalize private = (if private = None then Fault AssertFailed else Ret ())"

text \<open>The threads of the worker bridge: each start that fails ends the process.\<close>

fun start_thread_pool :: "(nat \<Rightarrow> nat option) \<Rightarrow> nat \<Rightarrow> nat option list \<Rightarrow> nat option list outcome" where
  "start_thread_pool create 0 slots = Ret slots"
| "start_thread_pool create (Suc n) slots =
     bindO (start_thread_pool create n slots)
       (\<lambda>slots. case create n of
          None \<Rightarrow> Fail (ErrMsg ''Error starting request_processor thread'')
        | Some thd \<Rightarrow>
            if n < length slots then Ret (slots[n := Some thd]) else Fault OutOfBounds)"

section \<open>Panic and output of a thread\<close>

text \<open>The panic data of a thread; the address of the request is that of \<open>unparsed_uri\<close>.\<close>

record panic_data =
  rivet_panic_server_rec :: "server_rec option"
  rivet_panic_request_rec :: "bytes option"

definition Rivet_SetupTclPanicProc :: "module_globals \<Rightarrow> panic_data option \<Rightarrow> panic_data outcome" where
  "Rivet_SetupTclPanicProc g private =
     (case private of
        None \<Rightarrow> Fault NullDeref
      | Some pd \<Rightarrow> Ret (pd\<lparr>rivet_panic_server_rec := g_server g, rivet_panic_request_rec := None\<rparr>))"

text \<open>The messages logged before the process aborts.\<close>

definition Rivet_Panic :: "panic_data option \<Rightarrow> bytes \<Rightarrow> bytes list outcome" where
  "Rivet_Panic private message =
     (case private of
        None \<Rightarrow> Fault NullDeref
      | Some pd \<Rightarrow>
          Ret ((case rivet_panic_request_rec pd of
                  None \<Rightarrow> [] | Some u \<Rightarrow> [''mod_rivet: Critical error in request: '' @ cstr u])
               @ [message]))"

text \<open>The channel of a thread replaces the standard output and has the largest buffer.\<close>

definition TCL_MAX_CHANNEL_BUFFER_SIZE :: nat where "TCL_MAX_CHANNEL_BUFFER_SIZE = 1024 * 1024"

record tcl_channels =
  channel_buffer :: "nat \<Rightarrow> nat"
  std_channel :: "nat option"
  channels_made :: nat

definition Rivet_CreateRivetChannel :: "tcl_channels \<Rightarrow> tcl_channels \<times> nat" where
  "Rivet_CreateRivetChannel cs =
     (let n = channels_made cs in
      (\<lparr> channel_buffer = (channel_buffer cs)(n := TCL_MAX_CHANNEL_BUFFER_SIZE), std_channel = Some n,
         channels_made = n + 1 \<rparr>, n))"

text \<open>The other callbacks of the channel type: it cannot be read, has no options and no handle.\<close>

definition EINVAL :: int where "EINVAL = 22"

definition RivetChan_InputProc :: "bytes \<Rightarrow> int \<Rightarrow> int" where "RivetChan_InputProc buf toRead = EINVAL"
definition RivetChan_Close2Proc :: "int \<Rightarrow> int" where "RivetChan_Close2Proc fl = 0"
definition RivetChan_SetOptionProc :: "bytes \<Rightarrow> bytes \<Rightarrow> bool" where "RivetChan_SetOptionProc name val = True"
definition RivetChan_GetHandleProc :: "int \<Rightarrow> bool" where "RivetChan_GetHandleProc direction = False"

section \<open>What the start does\<close>

lemma RunServerInit_result:
  assumes "globals proc = Some g" "g_server g = Some root" "rivet_mpm_bridge g = Some bridge"
    "bridge_jump_table g = Some table" "create_interp lib = Inr ti0" "pool_ok lib"
    and ti: "PerInterpInit_tcl (tclenv lib) (module_config root) bridge s None ti0 = Ret ti"
  obtains ri ri' mg where "flags ri AND RIVET_INTERP_INITIALIZED \<noteq> 0" "interp ri = tcl_made proc"
    "(ri', mg) = (case server_init table of None \<Rightarrow> (ri, directives g) | Some f \<Rightarrow> f ri (directives g))"
    "Rivet_RunServerInit lib s proc =
       Ret ((run_server_script lib (rivet_server_init_script (directives g)) (tcl_made proc)
               (proc\<lparr>tcl_made := tcl_made proc + 1, tcl_interps := (tcl_interps proc)(tcl_made proc := ti)\<rparr>))
              \<lparr>globals := Some (g\<lparr>server_interp := Some ri', directives := mg\<rparr>)\<rparr>)"
proof -
  obtain ri where ri: "Rivet_NewVHostInterp True (start_requests lib) (tcl_made proc) 0 = Some ri"
    by (simp add: Rivet_NewVHostInterp_def Let_def)
  let ?ri = "ri\<lparr>flags := flags ri OR RIVET_INTERP_INITIALIZED\<rparr>"
  obtain ri' mg where m: "(ri', mg) = (case server_init table of None \<Rightarrow> (?ri, directives g) | Some f \<Rightarrow> f ?ri (directives g))"
    by (metis surj_pair)
  show thesis
  proof (rule that [of ?ri ri' mg])
    show "Rivet_RunServerInit lib s proc =
       Ret ((run_server_script lib (rivet_server_init_script (directives g)) (tcl_made proc)
               (proc\<lparr>tcl_made := tcl_made proc + 1, tcl_interps := (tcl_interps proc)(tcl_made proc := ti)\<rparr>))
              \<lparr>globals := Some (g\<lparr>server_interp := Some ri', directives := mg\<rparr>)\<rparr>)"
      using assms ri by (simp add: Rivet_RunServerInit_def Rivet_CreateTclInterp_def Let_def fun_upd_upd m [symmetric])
  qed (simp_all add: NewVHostInterp_fields(1) [OF ri] initialized_flag m RIVET_INTERP_INITIALIZED_def)
qed

text \<open>The two readings of the configuration.\<close>

lemma CreateModuleGlobals_result:
  assumes "pool_ok lib" "Rivet_ReadFile (start_files lib) (TCL_HANDLER_FILE lib) = (0, handler)"
  obtains g where "Rivet_CreateModuleGlobals lib = Ret g" "directives g = initial_directives lib"
    "g_default_handler g = handler" "server_interp g = None"
  using assms by (simp add: Rivet_CreateModuleGlobals_def)

text \<open>The first one leaves the mark only; the second one works on new globals.\<close>

lemma config_pass_result:
  assumes "Rivet_CreateModuleGlobals lib = Ret g"
    "run_directives clib ds (Rivet_CreateConfig k) (directives g) = Ret (rsc, mg)"
  shows "config_pass lib clib k ds server proc =
    Rivet_ServerInit lib (server\<lparr>module_config := rsc\<rparr>) (proc\<lparr>globals := Some (g\<lparr>directives := mg\<rparr>)\<rparr>)"
  using assms by (simp add: config_pass_def Rivet_InitGlobals_def)

lemma ServerInit_first:
  "\<not> userdata proc \<Longrightarrow> Rivet_ServerInit lib server proc =
     Ret (proc\<lparr>version_components := version_components proc @ [version_component lib], userdata := True\<rparr>)"
  by (simp add: Rivet_ServerInit_def Let_def)

lemma httpd_start_second:
  assumes "Rivet_CreateModuleGlobals lib = Ret g" "directives g = initial_directives lib"
    "run_directives clib ds (Rivet_CreateConfig k) (initial_directives lib) = Ret (rsc, mg)"
  shows "httpd_start lib clib k ds server new_process =
    Rivet_ServerInit lib (server\<lparr>module_config := rsc\<rparr>)
      (new_process\<lparr>globals := Some (g\<lparr>directives := mg\<rparr>), userdata := True,
         version_components := [version_component lib]\<rparr>)"
proof -
  note pass = config_pass_result [OF assms(1), of clib ds k rsc mg, unfolded assms(2), OF assms(3), of server]
  have "\<not> userdata (new_process\<lparr>globals := Some (g\<lparr>directives := mg\<rparr>)\<rparr>)" by (simp add: new_process_def)
  then show ?thesis by (simp add: httpd_start_def pass ServerInit_first) (simp add: new_process_def)
qed

lemma run_server_script_fields:
  "globals (run_server_script lib script n proc) = globals proc" "tcl_made (run_server_script lib script n proc) = tcl_made proc"
  "server_evals (run_server_script lib script n proc) =
     server_evals proc @ (case script of None \<Rightarrow> [] | Some s \<Rightarrow> [(n, cstr s)])"
  "tcl_interps (run_server_script lib script n proc) =
     (tcl_interps proc)(n := case script of None \<Rightarrow> tcl_interps proc n | Some s \<Rightarrow> fst (eval_server lib (cstr s) (tcl_interps proc n)))"
  by (simp_all add: run_server_script_def split_beta split: option.split)

lemma start_run:
  assumes "pool_ok lib" "Rivet_ReadFile (start_files lib) (TCL_HANDLER_FILE lib) = (0, handler)"
    and "run_directives clib ds (Rivet_CreateConfig k) (initial_directives lib) = Ret (rsc, mg)"
    and "create_interp lib = Inr ti0"
    and b: "bridge_path lib mg = Some bridge" "dso_load lib bridge = Some (Some table)" "has_request_processor table"
      "has_thread_interp table"
    and ti: "PerInterpInit_tcl (tclenv lib) rsc bridge (server\<lparr>module_config := rsc\<rparr>) None ti0 = Ret ti"
  obtains proc g ri where "httpd_start lib clib k ds server new_process = Ret proc" "globals proc = Some g"
    "rivet_mpm_bridge g = Some bridge" "bridge_jump_table g = Some table" "g_default_handler g = handler"
    "server_interp g = Some ri" "tcl_made proc = 1"
    "server_evals proc = (case rivet_server_init_script mg of None \<Rightarrow> [] | Some s \<Rightarrow> [(0, cstr s)])"
    "tcl_interps proc 0 = (case rivet_server_init_script mg of None \<Rightarrow> ti | Some s \<Rightarrow> fst (eval_server lib (cstr s) ti))"
proof -
  obtain g where g: "Rivet_CreateModuleGlobals lib = Ret g" "directives g = initial_directives lib"
    "g_default_handler g = handler" using CreateModuleGlobals_result [OF assms(1,2)] by metis
  let ?server = "server\<lparr>module_config := rsc\<rparr>"
  let ?g = "g\<lparr>directives := mg, rivet_mpm_bridge := Some bridge, g_server := Some ?server, bridge_jump_table := Some table\<rparr>"
  let ?p = "new_process\<lparr>globals := Some ?g, userdata := True,
      version_components := [version_component lib, version_component lib]\<rparr>"
  have h: "httpd_start lib clib k ds server new_process = Rivet_RunServerInit lib ?server ?p"
    unfolding httpd_start_second [OF g(1,2) assms(3)] using b by (simp add: Rivet_ServerInit_def Let_def new_process_def)
  obtain ri' mg' where r: "Rivet_RunServerInit lib ?server ?p =
     Ret ((run_server_script lib (rivet_server_init_script mg) 0
             (?p\<lparr>tcl_made := 1, tcl_interps := (tcl_interps ?p)(0 := ti)\<rparr>))
            \<lparr>globals := Some (?g\<lparr>server_interp := Some ri', directives := mg'\<rparr>)\<rparr>)"
    using RunServerInit_result [of ?p ?g ?server bridge table lib ti0 ?server ti thesis] assms(1,4) ti
    by (simp add: new_process_def)
  show thesis
    by (rule that [OF h [unfolded r]])
      (simp_all add: run_server_script_fields, simp_all add: g(3) new_process_def split: option.split)
qed

text \<open>C21: reading the configuration twice starts the server once: without a bridge, its table or its two
  required functions the start fails with the message for it; else one interpreter is made for the
  server, and the server script, collected from the directives of one reading, runs in it once.\<close>

theorem server_starts:
  assumes "pool_ok lib" "Rivet_ReadFile (start_files lib) (TCL_HANDLER_FILE lib) = (0, handler)"
    and "run_directives clib ds (Rivet_CreateConfig k) (initial_directives lib) = Ret (rsc, mg)"
    and "create_interp lib = Inr ti0"
  shows "case bridge_path lib mg of
      None \<Rightarrow> httpd_start lib clib k ds server new_process = Fail (ErrMsg ''MPM bridge not found'')
    | Some bridge \<Rightarrow>
        (case dso_load lib bridge of
           None \<Rightarrow> httpd_start lib clib k ds server new_process = Fail (ErrMsg ''Error loading MPM manager'')
         | Some None \<Rightarrow>
             httpd_start lib clib k ds server new_process = Fail (ErrMsg ''Error loading symbol bridge_jump_table'')
         | Some (Some table) \<Rightarrow>
             if \<not> has_request_processor table \<or> \<not> has_thread_interp table
             then httpd_start lib clib k ds server new_process = Fault AssertFailed
             else \<forall>ti. PerInterpInit_tcl (tclenv lib) rsc bridge (server\<lparr>module_config := rsc\<rparr>) None ti0 = Ret ti \<longrightarrow>
               (\<exists>proc g ri. httpd_start lib clib k ds server new_process = Ret proc \<and> globals proc = Some g
                  \<and> rivet_mpm_bridge g = Some bridge \<and> bridge_jump_table g = Some table \<and> g_default_handler g = handler
                  \<and> server_interp g = Some ri \<and> tcl_made proc = 1
                  \<and> server_evals proc = (case rivet_server_init_script mg of None \<Rightarrow> [] | Some s \<Rightarrow> [(0, cstr s)])
                  \<and> tcl_interps proc 0 = (case rivet_server_init_script mg of None \<Rightarrow> ti
                      | Some s \<Rightarrow> fst (eval_server lib (cstr s) ti))))"
proof -
  obtain g where g: "Rivet_CreateModuleGlobals lib = Ret g" "directives g = initial_directives lib"
    using CreateModuleGlobals_result [OF assms(1,2)] by metis
  note start = httpd_start_second [OF g assms(3), of server]
  note run = start_run [OF assms]
  show ?thesis
  proof (cases "bridge_path lib mg")
    case (Some bridge)
    note b = this
    show ?thesis
    proof (cases "dso_load lib bridge = None \<or> dso_load lib bridge = Some None")
      case False
      then obtain table where t: "dso_load lib bridge = Some (Some table)" by auto
      show ?thesis
      proof (cases "has_request_processor table \<and> has_thread_interp table")
        case True
        then have t': "has_request_processor table" "has_thread_interp table"
          "\<not> (\<not> has_request_processor table \<or> \<not> has_thread_interp table)" by simp_all
        show ?thesis
          unfolding b t option.case if_not_P [OF t'(3)]
          by (intro allI impI) (rule start_run [OF assms b t t'(1,2)], assumption, blast)
      qed (auto simp: b t start Rivet_ServerInit_def Let_def)
    qed (auto simp: b start Rivet_ServerInit_def Let_def)
  qed (simp add: start Rivet_ServerInit_def Let_def)
qed

text \<open>The scripts of the server leave the core commands and the data of the module alone.\<close>

definition script_keeps :: "start_lib \<Rightarrow> bool" where
  "script_keeps lib \<longleftrightarrow>
     (\<forall>script ti. interp_globals (fst (eval_server lib script ti)) = interp_globals ti
        \<and> (\<forall>name. core_table None name \<noteq> None \<longrightarrow> tcl_commands (fst (eval_server lib script ti)) name = tcl_commands ti name))"

lemma core_names: "(name, f) \<in> set core_commands \<Longrightarrow> core_table None (RIVET_NS @ ''::'' @ name) \<noteq> None"
  by (simp add: core_table_member del: append.simps)

lemma prefork_root_result:
  assumes "script_keeps lib" "interp_globals (tcl_interps proc n) \<noteq> None"
  shows "\<exists>proc'. prefork_root_commands lib conf thread n proc = Ret proc'
    \<and> (\<forall>(name, f) \<in> set core_commands.
         tcl_commands (tcl_interps proc' n) (RIVET_NS @ ''::'' @ name) = Some (CoreProc f, Some thread))
    \<and> (\<forall>m. m \<noteq> n \<longrightarrow> tcl_interps proc' m = tcl_interps proc m)
    \<and> server_evals proc' = server_evals proc @ [(n, cstr tcl_import_cmd)]"
proof -
  have "\<exists>ti. Rivet_InitCore conf (Some thread) (tcl_interps proc n) = Ret ti"
    using assms(2) by (auto simp: Rivet_InitCore_def Let_def)
  then obtain ti where ti: "Rivet_InitCore conf (Some thread) (tcl_interps proc n) = Ret ti" by blast
  have cmd: "tcl_commands (fst (eval_server lib s ti)) (RIVET_NS @ ''::'' @ name) = Some (CoreProc f, Some thread)"
    if "(name, f) \<in> set core_commands" for name f s
    using assms(1) core_names [OF that] core_table_member [OF that]
    by (simp add: script_keeps_def InitCore_result(1) [OF ti])
  show ?thesis
    unfolding prefork_root_commands_def ti bindO_simps
    by (rule exI, intro conjI, rule refl) (auto simp: run_server_script_fields cmd simp del: append.simps)
qed

text \<open>C24: the core commands of the interpreter of the server belong to no thread when the server script
  runs; a prefork child that takes this interpreter over binds each of them to its own thread.\<close>

theorem prefork_commands_rebound:
  assumes "pool_ok lib" "Rivet_ReadFile (start_files lib) (TCL_HANDLER_FILE lib) = (0, handler)"
    and "run_directives clib ds (Rivet_CreateConfig k) (initial_directives lib) = Ret (rsc, mg)"
    and "create_interp lib = Inr ti0"
    and "bridge_path lib mg = Some bridge" "dso_load lib bridge = Some (Some prefork_jump_table)"
    and "PerInterpInit_tcl (tclenv lib) rsc bridge (server\<lparr>module_config := rsc\<rparr>) None ti0 = Ret ti"
    and "package_keeps (tclenv lib)" "script_keeps lib"
  shows "\<exists>proc proc'. httpd_start lib clib k ds server new_process = Ret proc
    \<and> prefork_root_commands lib rsc thread 0 proc = Ret proc'
    \<and> (\<forall>(name, f) \<in> set core_commands.
         tcl_commands (tcl_interps proc 0) (RIVET_NS @ ''::'' @ name) = Some (CoreProc f, None)
         \<and> tcl_commands (tcl_interps proc' 0) (RIVET_NS @ ''::'' @ name) = Some (CoreProc f, Some thread))"
proof -
  have table: "has_request_processor prefork_jump_table" "has_thread_interp prefork_jump_table"
    by (simp_all add: prefork_jump_table_def)
  obtain proc where proc: "httpd_start lib clib k ds server new_process = Ret proc"
    "tcl_interps proc 0 = (case rivet_server_init_script mg of None \<Rightarrow> ti | Some s \<Rightarrow> fst (eval_server lib (cstr s) ti))"
    by (rule start_run [OF assms(1-6) table assms(7)])
  note bound = PerInterpInit_commands [OF assms(7,8)]
  have keep: "interp_globals (tcl_interps proc 0) = interp_globals ti"
    "core_table None name \<noteq> None \<Longrightarrow> tcl_commands (tcl_interps proc 0) name = tcl_commands ti name" for name
    using assms(9) by (auto simp: proc(2) script_keeps_def split: option.split)
  have "tcl_commands (tcl_interps proc 0) (RIVET_NS @ ''::'' @ name) = Some (CoreProc f, None)"
    if "(name, f) \<in> set core_commands" for name f
    using keep(2) [OF core_names [OF that]] bound(1) [OF that] by (simp del: append.simps)
  moreover have "interp_globals (tcl_interps proc 0) \<noteq> None" using bound(2) by (auto simp: keep(1))
  ultimately show ?thesis
    using prefork_root_result [OF assms(9), of proc 0 rsc thread] proc(1) by (fastforce simp del: append.simps)
qed

section \<open>Behaviours worth knowing\<close>

text \<open>A child process without the globals of its parent makes them but loads no bridge: it ends on the NULL
  jump table, whatever the configuration.\<close>

lemma child_without_globals:
  assumes "globals proc = None"
  shows "\<nexists>res. Rivet_ChildInit_hook lib key_made server refs store proc = Ret res"
  using assms
  by (auto simp: Rivet_ChildInit_hook_def bindO_Ret_iff Rivet_CreateModuleGlobals_def split_beta
      split: if_splits option.splits)

text \<open>The import runs also when the configuration asks for none.\<close>

lemma prefork_imports_anyway:
  assumes "prefork_root_commands lib conf thread n proc = Ret proc'"
  shows "(n, cstr tcl_import_cmd) \<in> set (server_evals proc')"
  using assms by (auto simp: prefork_root_commands_def bindO_Ret_iff run_server_script_fields)

text \<open>A panic in the server, where there are no private data, or after the request has ended: the first has
  no data to report from, the second names a request that is over, since nothing resets the pointer.\<close>

lemma panic_without_thread: "Rivet_Panic None message = Fault NullDeref"
  by (simp add: Rivet_Panic_def)

lemma start_thread_pool_all:
  "n \<le> length slots \<Longrightarrow> \<forall>i < n. create i \<noteq> None \<Longrightarrow>
   start_thread_pool create n slots = Ret (map create [0..<n] @ drop n slots)"
proof (induction n)
  case (Suc n)
  then obtain thd where "create n = Some thd" by blast
  moreover have "(map create [0..<n] @ drop n slots)[n := Some thd] = map create [0..<n] @ Some thd # drop (Suc n) slots"
    using Suc.prems(1) by (simp add: list_update_append Cons_nth_drop_Suc [symmetric])
  ultimately show ?case using Suc by simp
qed simp

section \<open>Examples\<close>

definition demo_start_lib :: start_lib where
  "demo_start_lib = \<lparr> tclenv = demo_env, start_files = \<lparr> stat_size = (\<lambda>f. Some 6), file_open = (\<lambda>f. True),
       file_bytes = (\<lambda>f n. Some ''handle'') \<rparr>, RIVET_SEPARATE_VIRTUAL_INTERPS = 0, RIVET_SEPARATE_CHANNELS = 0,
     version_component = ''Rivet'', pool_ok = True, create_interp = Inr new_interp, env_bridge = None,
     file_exists = (\<lambda>f. True), dso_load = (\<lambda>f. Some (Some prefork_jump_table)), eval_server = (\<lambda>s ti. (ti, True)),
     start_requests = 0 \<rparr>"

lemma demo_directives:
  obtains rsc mg where "run_directives demo_conf_lib [(''ServerInitScript'', ''package require x'')]
      (Rivet_CreateConfig demo_constants) (initial_directives demo_start_lib) = Ret (rsc, mg)"
    "bridge_path demo_start_lib mg = Some ''/usr/lib/rivet/mpm/rivet_prefork_mpm.so''"
proof -
  have "\<exists>rsc mg. run_directives demo_conf_lib [(''ServerInitScript'', ''package require x'')]
      (Rivet_CreateConfig demo_constants) (initial_directives demo_start_lib) = Ret (rsc, mg) \<and> mpm_bridge mg = None"
    by (simp add: Rivet_ServerConf_def STREQU_def Rivet_SetScript_def Rivet_CreateConfig_def set_in_table_def
        initial_directives_def Let_def)
  then show thesis
    using that by (auto simp: bridge_path_def Rivet_SeekMPMBridge_def demo_start_lib_def demo_env_def
        RIVET_MPM_BRIDGE_COMPOSE_def AP_MPMQ_NOT_SUPPORTED_def)
qed

lemma demo_script_keeps: "script_keeps demo_start_lib"
  by (simp add: script_keeps_def demo_start_lib_def)

lemma demo_handler: "Rivet_ReadFile (start_files demo_start_lib) (TCL_HANDLER_FILE demo_start_lib) = (0, ''handle'')"
  by (simp add: demo_start_lib_def Rivet_ReadFile_def)

lemmas demo_start = demo_start_lib_def [THEN arg_cong [where f = tclenv], simplified]
  demo_start_lib_def [THEN arg_cong [where f = dso_load], simplified]

theorem server_starts_witness:
  "\<exists>proc g ri. httpd_start demo_start_lib demo_conf_lib demo_constants
       [(''ServerInitScript'', ''package require x'')] (demo_server 0) new_process = Ret proc
     \<and> globals proc = Some g \<and> bridge_jump_table g = Some prefork_jump_table
     \<and> g_default_handler g = ''handle'' \<and> server_interp g = Some ri \<and> tcl_made proc = 1"
proof -
  obtain rsc mg where d: "run_directives demo_conf_lib [(''ServerInitScript'', ''package require x'')]
      (Rivet_CreateConfig demo_constants) (initial_directives demo_start_lib) = Ret (rsc, mg)"
    "bridge_path demo_start_lib mg = Some ''/usr/lib/rivet/mpm/rivet_prefork_mpm.so''"
    by (rule demo_directives)
  obtain ti where ti: "PerInterpInit_tcl (tclenv demo_start_lib) rsc ''/usr/lib/rivet/mpm/rivet_prefork_mpm.so''
      ((demo_server 0)\<lparr>module_config := rsc\<rparr>) None new_interp = Ret ti"
    unfolding demo_start by (rule demo_set_up)
  from server_starts [OF _ demo_handler d(1), of new_interp "demo_server 0"] d(2) ti
  show ?thesis by (auto simp: demo_start_lib_def prefork_jump_table_def)
qed

theorem prefork_commands_rebound_witness:
  "\<exists>proc proc' rsc. httpd_start demo_start_lib demo_conf_lib demo_constants
       [(''ServerInitScript'', ''package require x'')] (demo_server 0) new_process = Ret proc
     \<and> prefork_root_commands demo_start_lib rsc 7 0 proc = Ret proc'
     \<and> tcl_commands (tcl_interps proc 0) (RIVET_NS @ ''::'' @ ''headers'') = Some (CoreProc Headers, None)
     \<and> tcl_commands (tcl_interps proc' 0) (RIVET_NS @ ''::'' @ ''headers'') = Some (CoreProc Headers, Some 7)"
proof -
  obtain rsc mg where d: "run_directives demo_conf_lib [(''ServerInitScript'', ''package require x'')]
      (Rivet_CreateConfig demo_constants) (initial_directives demo_start_lib) = Ret (rsc, mg)"
    "bridge_path demo_start_lib mg = Some ''/usr/lib/rivet/mpm/rivet_prefork_mpm.so''"
    by (rule demo_directives)
  obtain ti where ti: "PerInterpInit_tcl (tclenv demo_start_lib) rsc ''/usr/lib/rivet/mpm/rivet_prefork_mpm.so''
      ((demo_server 0)\<lparr>module_config := rsc\<rparr>) None new_interp = Ret ti"
    unfolding demo_start by (rule demo_set_up)
  have lib: "pool_ok demo_start_lib" "create_interp demo_start_lib = Inr new_interp"
    "dso_load demo_start_lib ''/usr/lib/rivet/mpm/rivet_prefork_mpm.so'' = Some (Some prefork_jump_table)"
    "package_keeps (tclenv demo_start_lib)" by (simp_all add: demo_start_lib_def demo_env_keeps)
  have "(''headers'', Headers) \<in> set core_commands" by (simp add: core_commands_def)
  with prefork_commands_rebound [OF lib(1) demo_handler d(1) lib(2) d(2) lib(3) ti lib(4) demo_script_keeps, of 7]
  show ?thesis by blast
qed

end
