(* ===== verification/Rivet_Objects.thy ===== *)
theory Rivet_Objects
  imports Rivet_Generator
begin

text \<open>
  The Tcl objects of the configured scripts and their reference counts: the macros
  \<open>RIVET_SCRIPT_INIT\<close> and \<open>RIVET_SCRIPT_DISPOSE\<close> of mod_rivet.h, \<open>Rivet_RunningScripts\<close> and
  \<open>Rivet_ReleaseRunningScripts\<close> of mod_rivet_common.c and \<open>Rivet_ReleaseScripts\<close> of
  mod_rivet_generator.c, here on a heap of counted objects. Rivet_Generator has the same scripts as
  values; \<open>scripts_of\<close> leads from here to there.
\<close>

section \<open>Counted objects\<close>

text \<open>An object has its text and its count; an object that was freed is gone, and using it is the fault of
  a bad pointer. A new object has the count 0.\<close>

record tcl_heap =
  objects :: "nat \<Rightarrow> (bytes \<times> nat) option"
  next_obj :: nat

definition Tcl_NewStringObj :: "bytes \<Rightarrow> tcl_heap \<Rightarrow> nat \<times> tcl_heap" where
  "Tcl_NewStringObj s h =
     (next_obj h, h\<lparr>objects := (objects h)(next_obj h \<mapsto> (s, 0)), next_obj := next_obj h + 1\<rparr>)"

definition Tcl_IncrRefCount :: "nat \<Rightarrow> tcl_heap \<Rightarrow> tcl_heap outcome" where
  "Tcl_IncrRefCount obj h =
     (case objects h obj of
        None \<Rightarrow> Fault NullDeref
      | Some (s, n) \<Rightarrow> Ret (h\<lparr>objects := (objects h)(obj \<mapsto> (s, n + 1))\<rparr>))"

definition Tcl_DecrRefCount :: "nat \<Rightarrow> tcl_heap \<Rightarrow> tcl_heap outcome" where
  "Tcl_DecrRefCount obj h =
     (case objects h obj of
        None \<Rightarrow> Fault NullDeref
      | Some (s, n) \<Rightarrow> Ret (h\<lparr>objects := (objects h)(obj := if n \<le> 1 then None else Some (s, n - 1))\<rparr>))"

section \<open>The scripts as objects\<close>

text \<open>\<open>running_scripts\<close> with the pointers to its objects.\<close>

record script_objs =
  obj_before :: "nat option"
  obj_after :: "nat option"
  obj_error :: "nat option"
  obj_abort :: "nat option"
  obj_every :: "nat option"
  obj_request :: "nat option"

definition counted_obj :: "bytes \<Rightarrow> tcl_heap \<Rightarrow> (nat option \<times> tcl_heap) outcome" where
  "counted_obj s h =
     (case Tcl_NewStringObj s h of (obj, h) \<Rightarrow> bindO (Tcl_IncrRefCount obj h) (\<lambda>h. Ret (Some obj, h)))"

definition script_init :: "bytes option \<Rightarrow> tcl_heap \<Rightarrow> (nat option \<times> tcl_heap) outcome" where
  "script_init objscript h =
     (case objscript of None \<Rightarrow> Ret (None, h) | Some s \<Rightarrow> counted_obj (RIVET_CR_TERM s) h)"

definition RIVET_SCRIPT_DISPOSE :: "nat option \<Rightarrow> tcl_heap \<Rightarrow> tcl_heap outcome" where
  "RIVET_SCRIPT_DISPOSE script h = (case script of None \<Rightarrow> Ret h | Some obj \<Rightarrow> Tcl_DecrRefCount obj h)"

definition running_objects ::
    "file_lib \<Rightarrow> bytes \<Rightarrow> rivet_server_conf \<Rightarrow> tcl_heap \<Rightarrow> (script_objs \<times> tcl_heap) outcome" where
  "running_objects lib handler_code rivet_conf h =
     bindO (script_init (rivet_before_script rivet_conf) h) (\<lambda>(before, h).
     bindO (script_init (rivet_after_script rivet_conf) h) (\<lambda>(after, h).
     bindO (script_init (rivet_error_script rivet_conf) h) (\<lambda>(err, h).
     bindO (script_init (rivet_abort_script rivet_conf) h) (\<lambda>(abrt, h).
     bindO (script_init (after_every_script rivet_conf) h) (\<lambda>(every, h).
     bindO (case request_handler rivet_conf of
              None \<Rightarrow> Ret handler_code
            | Some file \<Rightarrow>
                (case Rivet_ReadFile lib (cstr file) of
                   (rc, handler) \<Rightarrow> if rc = 0 then Ret handler else Fault AssertFailed)) (\<lambda>handler.
     bindO (counted_obj handler h) (\<lambda>(req, h).
       Ret (\<lparr> obj_before = before, obj_after = after, obj_error = err, obj_abort = abrt, obj_every = every,
              obj_request = req \<rparr>, h))))))))"

text \<open>The scripts of an interpreter when its thread ends.\<close>

definition Rivet_ReleaseRunningScripts :: "script_objs \<Rightarrow> tcl_heap \<Rightarrow> tcl_heap outcome" where
  "Rivet_ReleaseRunningScripts scr h =
     bindO (RIVET_SCRIPT_DISPOSE (obj_before scr) h) (\<lambda>h.
     bindO (RIVET_SCRIPT_DISPOSE (obj_after scr) h) (\<lambda>h.
     bindO (RIVET_SCRIPT_DISPOSE (obj_error scr) h) (\<lambda>h.
     bindO (RIVET_SCRIPT_DISPOSE (obj_abort scr) h) (\<lambda>h.
     bindO (RIVET_SCRIPT_DISPOSE (obj_every scr) h) (\<lambda>h.
       RIVET_SCRIPT_DISPOSE (obj_request scr) h)))))"

text \<open>The scripts of a request with a configuration of the user.\<close>

definition Rivet_ReleaseScripts :: "script_objs \<Rightarrow> tcl_heap \<Rightarrow> tcl_heap outcome" where
  "Rivet_ReleaseScripts scr h =
     bindO (RIVET_SCRIPT_DISPOSE (obj_before scr) h) (\<lambda>h.
     bindO (RIVET_SCRIPT_DISPOSE (obj_after scr) h) (\<lambda>h.
     bindO (RIVET_SCRIPT_DISPOSE (obj_error scr) h) (\<lambda>h.
     bindO (RIVET_SCRIPT_DISPOSE (obj_abort scr) h) (\<lambda>h.
       RIVET_SCRIPT_DISPOSE (obj_every scr) h))))"

text \<open>A request with a configuration of the user: its scripts are made before the checks of the request
  and released after the evaluation, which a request that fails a check does not reach.\<close>

definition user_request ::
    "file_lib \<Rightarrow> bytes \<Rightarrow> rivet_server_conf \<times> bool \<Rightarrow> tcl_heap \<Rightarrow> tcl_heap outcome" where
  "user_request lib handler_code request h =
     bindO (running_objects lib handler_code (fst request) h)
       (\<lambda>(scr, h). if snd request then Rivet_ReleaseScripts scr h else Ret h)"

fun user_requests ::
    "file_lib \<Rightarrow> bytes \<Rightarrow> (rivet_server_conf \<times> bool) list \<Rightarrow> tcl_heap \<Rightarrow> tcl_heap outcome" where
  "user_requests lib handler_code [] h = Ret h"
| "user_requests lib handler_code (request # requests) h =
     bindO (user_request lib handler_code request h) (user_requests lib handler_code requests)"

section \<open>Making and releasing a list of scripts\<close>

definition fresh_heap :: "tcl_heap \<Rightarrow> bool" where
  "fresh_heap h \<longleftrightarrow> (\<forall>i \<ge> next_obj h. objects h i = None)"

definition made_obj :: "bytes option \<Rightarrow> tcl_heap \<Rightarrow> nat option" where
  "made_obj s h = map_option (\<lambda>_. next_obj h) s"

definition made_heap :: "bytes option \<Rightarrow> tcl_heap \<Rightarrow> tcl_heap" where
  "made_heap s h =
     (case s of None \<Rightarrow> h
      | Some t \<Rightarrow> h\<lparr>objects := (objects h)(next_obj h \<mapsto> (t, 1)), next_obj := next_obj h + 1\<rparr>)"

fun make_all :: "bytes option list \<Rightarrow> tcl_heap \<Rightarrow> nat option list \<times> tcl_heap" where
  "make_all [] h = ([], h)"
| "make_all (s # ss) h = (case make_all ss (made_heap s h) of (objs, h') \<Rightarrow> (made_obj s h # objs, h'))"

fun dispose_all :: "nat option list \<Rightarrow> tcl_heap \<Rightarrow> tcl_heap outcome" where
  "dispose_all [] h = Ret h"
| "dispose_all (obj # objs) h = bindO (RIVET_SCRIPT_DISPOSE obj h) (dispose_all objs)"

fun somes :: "'a option list \<Rightarrow> 'a list" where
  "somes [] = []"
| "somes (None # xs) = somes xs"
| "somes (Some x # xs) = x # somes xs"

lemma counted_obj_made: "counted_obj s h = Ret (made_obj (Some s) h, made_heap (Some s) h)"
  by (simp add: counted_obj_def Tcl_NewStringObj_def Tcl_IncrRefCount_def made_obj_def made_heap_def)

lemma script_init_made: "script_init s h = Ret (made_obj (RIVET_SCRIPT_INIT s) h, made_heap (RIVET_SCRIPT_INIT s) h)"
  by (simp add: script_init_def RIVET_SCRIPT_INIT_def counted_obj_made split: option.split)
    (simp add: made_obj_def made_heap_def)

text \<open>The objects made are new, each has one owner and the text it was made of; the others stay.\<close>

lemma make_all_result:
  assumes "fresh_heap h" "make_all ss h = (objs, h')"
  shows "fresh_heap h' \<and> next_obj h \<le> next_obj h'
    \<and> (\<forall>i \<in> set (somes objs). next_obj h \<le> i \<and> i < next_obj h' \<and> (\<exists>s. objects h' i = Some (s, 1)))
    \<and> distinct (somes objs) \<and> length objs = length ss
    \<and> (\<forall>i. i \<notin> set (somes objs) \<longrightarrow> objects h' i = objects h i)
    \<and> map (map_option (\<lambda>i. fst (the (objects h' i)))) objs = ss"
  using assms
proof (induction ss arbitrary: h objs)
  case (Cons s ss)
  obtain os where m: "make_all ss (made_heap s h) = (os, h')" "objs = made_obj s h # os"
    using Cons.prems(2) by (auto split: prod.splits)
  have f: "fresh_heap (made_heap s h)" using Cons.prems(1) by (auto simp: fresh_heap_def made_heap_def split: option.split)
  note IH = Cons.IH [OF f m(1)]
  show ?case
  proof (cases s)
    case None
    then show ?thesis using IH by (simp add: m(2) made_obj_def made_heap_def)
  next
    case (Some t)
    let ?n = "next_obj h"
    have new: "?n \<notin> set (somes os)" using IH by (fastforce simp: Some made_heap_def)
    then have n: "objects h' ?n = Some (t, 1)" using IH by (simp add: Some made_heap_def)
    have other: "objects h' i = objects h i" if "i \<noteq> ?n" "i \<notin> set (somes os)" for i
      using IH that by (simp add: Some made_heap_def)
    show ?thesis
      unfolding m(2) using IH new n other by (auto simp: Some made_obj_def made_heap_def)
  qed
qed simp

lemma dispose_all_result:
  assumes "distinct (somes objs)" "\<forall>i \<in> set (somes objs). \<exists>s. objects h i = Some (s, 1)"
  shows "dispose_all objs h = Ret (h\<lparr>objects := \<lambda>i. if i \<in> set (somes objs) then None else objects h i\<rparr>)"
  using assms
proof (induction objs arbitrary: h)
  case (Cons x objs)
  show ?case
  proof (cases x)
    case None
    then show ?thesis using Cons by (simp add: RIVET_SCRIPT_DISPOSE_def)
  next
    case (Some i)
    then obtain s where s: "objects h i = Some (s, 1)" using Cons.prems(2) by auto
    have d: "RIVET_SCRIPT_DISPOSE x h = Ret (h\<lparr>objects := (objects h)(i := None)\<rparr>)"
      by (simp add: RIVET_SCRIPT_DISPOSE_def Some Tcl_DecrRefCount_def s)
    let ?h = "h\<lparr>objects := (objects h)(i := None)\<rparr>"
    have "distinct (somes objs)" "\<forall>j \<in> set (somes objs). \<exists>s. objects ?h j = Some (s, 1)"
      using Cons.prems by (auto simp: Some)
    note IH = Cons.IH [OF this]
    have o: "(\<lambda>j. if j \<in> set (somes objs) then None else objects ?h j) =
        (\<lambda>j. if j \<in> set (somes (x # objs)) then None else objects h j)" by (auto simp: Some)
    show ?thesis unfolding dispose_all.simps d bindO_simps IH o by simp
  qed
qed simp

section \<open>The life of the scripts of a configuration\<close>

definition objs_of :: "nat option list \<Rightarrow> script_objs" where
  "objs_of os = \<lparr> obj_before = os ! 0, obj_after = os ! 1, obj_error = os ! 2, obj_abort = os ! 3,
     obj_every = os ! 4, obj_request = os ! 5 \<rparr>"

definition script_texts :: "running_scripts \<Rightarrow> bytes option list" where
  "script_texts scr = [rivet_before_script_obj scr, rivet_after_script_obj scr, rivet_error_script_obj scr,
     rivet_abort_script_obj scr, after_every_script_obj scr, request_processing scr]"

text \<open>The value view of the objects: what each pointer leads to.\<close>

definition scripts_of :: "tcl_heap \<Rightarrow> script_objs \<Rightarrow> running_scripts" where
  "scripts_of h scr =
     (let text = map_option (\<lambda>i. fst (the (objects h i))) in
      \<lparr> request_processing = text (obj_request scr), rivet_before_script_obj = text (obj_before scr),
        rivet_after_script_obj = text (obj_after scr), rivet_error_script_obj = text (obj_error scr),
        rivet_abort_script_obj = text (obj_abort scr), after_every_script_obj = text (obj_every scr) \<rparr>)"

lemma running_objects_made:
  assumes "Rivet_RunningScripts lib handler_code conf = Ret scr" "make_all (script_texts scr) h = (os, h')"
  shows "running_objects lib handler_code conf h = Ret (objs_of os, h') \<and> (\<exists>code. request_processing scr = Some code)"
proof -
  let ?code = "case request_handler conf of None \<Rightarrow> Ret handler_code
     | Some file \<Rightarrow> (case Rivet_ReadFile lib (cstr file) of
                      (rc, handler) \<Rightarrow> if rc = 0 then Ret handler else Fault AssertFailed)"
  obtain code where c: "?code = Ret code" "scr = \<lparr> request_processing = Some code,
            rivet_before_script_obj = RIVET_SCRIPT_INIT (rivet_before_script conf),
            rivet_after_script_obj = RIVET_SCRIPT_INIT (rivet_after_script conf),
            rivet_error_script_obj = RIVET_SCRIPT_INIT (rivet_error_script conf),
            rivet_abort_script_obj = RIVET_SCRIPT_INIT (rivet_abort_script conf),
            after_every_script_obj = RIVET_SCRIPT_INIT (after_every_script conf) \<rparr>"
    using assms(1) unfolding Rivet_RunningScripts_def bindO_Ret_iff by blast
  from assms(2) show ?thesis
    unfolding running_objects_def script_init_made bindO_simps prod.case c(1) counted_obj_made
    by (auto simp: c(2) script_texts_def objs_of_def)
qed

lemma release_disposes:
  assumes "length os = 6"
  shows "Rivet_ReleaseRunningScripts (objs_of os) h = dispose_all os h"
    "Rivet_ReleaseScripts (objs_of os) h = dispose_all (take 5 os) h"
proof -
  obtain a b c d e f where os: "os = [a, b, c, d, e, f]"
    using assms by (auto simp: numeral_eq_Suc length_Suc_conv)
  have last: "bindO m Ret = m" for m :: "tcl_heap outcome" by (cases m) simp_all
  have eta: "dispose_all [] = Ret" "dispose_all (x # xs) = (\<lambda>h. bindO (RIVET_SCRIPT_DISPOSE x h) (dispose_all xs))" for x xs
    by (simp_all add: fun_eq_iff)
  show "Rivet_ReleaseRunningScripts (objs_of os) h = dispose_all os h"
    "Rivet_ReleaseScripts (objs_of os) h = dispose_all (take 5 os) h"
    by (simp_all add: os objs_of_def Rivet_ReleaseRunningScripts_def Rivet_ReleaseScripts_def last eta del: dispose_all.simps)
qed

text \<open>What is left of the objects after a list of them is disposed of.\<close>

lemma made_and_disposed:
  assumes "fresh_heap h" "make_all ss h = (os, h')" "set (somes os') \<subseteq> set (somes os)" "distinct (somes os')"
  shows "dispose_all os' h' = Ret (h'\<lparr>objects := \<lambda>i. if i \<in> set (somes os') then None else objects h' i\<rparr>)"
  using make_all_result [OF assms(1,2)] assms(3,4) by (intro dispose_all_result) blast+

lemma somes_append: "somes (xs @ ys) = somes xs @ somes ys"
  by (induction xs rule: somes.induct) simp_all

lemma length_somes: "length (somes xs) = length (filter (\<lambda>x. x \<noteq> None) xs)"
  by (induction xs rule: somes.induct) simp_all

lemma script_objects_lifetime:
  assumes "fresh_heap h" "Rivet_RunningScripts lib handler_code conf = Ret scr"
  shows "\<exists>objs h'. running_objects lib handler_code conf h = Ret (objs, h') \<and> scripts_of h' objs = scr
    \<and> (\<exists>h''. Rivet_ReleaseRunningScripts objs h' = Ret h'' \<and> objects h'' = objects h \<and> fresh_heap h'')
    \<and> (\<exists>h'' i. Rivet_ReleaseScripts objs h' = Ret h'' \<and> objects h i = None
         \<and> objects h'' = (objects h)(i \<mapsto> (the (request_processing scr), 1)) \<and> fresh_heap h'')"
proof -
  obtain os h' where m: "make_all (script_texts scr) h = (os, h')" by fastforce
  note r = running_objects_made [OF assms(2) m]
  note made = make_all_result [OF assms(1) m]
  from made have len: "length os = 6" by (simp add: script_texts_def)
  then obtain a b c d e f where os: "os = [a, b, c, d, e, f]" by (auto simp: numeral_eq_Suc length_Suc_conv)
  obtain code where code: "request_processing scr = Some code" using r by blast
  have texts: "map (map_option (\<lambda>i. fst (the (objects h' i)))) os = script_texts scr" using made by simp
  then obtain i where i: "f = Some i" "fst (the (objects h' i)) = code"
    by (auto simp: os script_texts_def code)
  have same: "scripts_of h' (objs_of os) = scr"
    using texts by (simp add: os scripts_of_def objs_of_def script_texts_def Let_def numeral_eq_Suc)
  have "somes os = somes (take 5 os) @ [i]" using somes_append [of "take 5 os" "[f]"] by (simp add: os i)
  note split = this
  have "distinct (somes os)" using made by blast
  with split have part: "distinct (somes os)" "distinct (somes (take 5 os))" "set (somes (take 5 os)) \<subseteq> set (somes os)"
    by auto
  have all: "Rivet_ReleaseRunningScripts (objs_of os) h' =
      Ret (h'\<lparr>objects := \<lambda>i. if i \<in> set (somes os) then None else objects h' i\<rparr>)"
    "Rivet_ReleaseScripts (objs_of os) h' =
      Ret (h'\<lparr>objects := \<lambda>i. if i \<in> set (somes (take 5 os)) then None else objects h' i\<rparr>)"
    unfolding release_disposes [OF len]
    by (rule made_and_disposed [OF assms(1) m], use part in simp_all)+
  have outside: "objects h' j = objects h j" if "j \<notin> set (somes os)" for j using made that by blast
  have new: "objects h j = None" if "j \<in> set (somes os)" for j
    using made that assms(1) by (auto simp: fresh_heap_def)
  have at_i: "objects h' i = Some (code, 1)" "i \<in> set (somes os)" "i \<notin> set (somes (take 5 os))"
    using made i split by (force, simp, simp)
  have free: "fresh_heap (h'\<lparr>objects := \<lambda>j. if P j then None else objects h' j\<rparr>)" for P
    using made by (simp add: fresh_heap_def)
  have e: "(\<lambda>j. if j \<in> set (somes os) then None else objects h' j) = objects h"
    "(\<lambda>j. if j \<in> set (somes (take 5 os)) then None else objects h' j) = (objects h)(i \<mapsto> (code, 1))"
    using outside new at_i split by (fastforce simp: fun_eq_iff)+
  have fresh: "fresh_heap (h'\<lparr>objects := objects h\<rparr>)" "fresh_heap (h'\<lparr>objects := (objects h)(i \<mapsto> (code, 1))\<rparr>)"
    using free [of "\<lambda>j. j \<in> set (somes os)"] free [of "\<lambda>j. j \<in> set (somes (take 5 os))"] by (simp_all only: e)
  note all = all [unfolded e]
  have "\<exists>h''. Rivet_ReleaseRunningScripts (objs_of os) h' = Ret h'' \<and> objects h'' = objects h \<and> fresh_heap h''"
    by (rule exI [of _ "h'\<lparr>objects := objects h\<rparr>"]) (simp add: all fresh)
  moreover have "\<exists>h'' i. Rivet_ReleaseScripts (objs_of os) h' = Ret h'' \<and> objects h i = None
      \<and> objects h'' = (objects h)(i \<mapsto> (the (request_processing scr), 1)) \<and> fresh_heap h''"
    by (rule exI [of _ "h'\<lparr>objects := (objects h)(i \<mapsto> (code, 1))\<rparr>"], rule exI [of _ i])
      (use fresh in \<open>simp add: all code new [OF at_i(2)]\<close>)
  ultimately show ?thesis using same r by blast
qed

section \<open>What requests with a configuration of the user leave behind\<close>

definition live :: "tcl_heap \<Rightarrow> nat" where "live h = card (dom (objects h))"

lemma finite_objects: "fresh_heap h \<Longrightarrow> finite (dom (objects h))"
  by (rule finite_subset [of _ "{..< next_obj h}"]) (auto simp: fresh_heap_def not_le [symmetric])

text \<open>The scripts of a request: its handler and those of the five events that are configured.\<close>

definition script_count :: "rivet_server_conf \<Rightarrow> nat" where
  "script_count conf =
     1 + length (somes [rivet_before_script conf, rivet_after_script conf, rivet_error_script conf,
                        rivet_abort_script conf, after_every_script conf])"

lemma somes_init: "length (somes (map RIVET_SCRIPT_INIT xs)) = length (somes xs)"
  by (induction xs rule: somes.induct) (simp_all add: RIVET_SCRIPT_INIT_def)

lemma script_count_texts:
  assumes "Rivet_RunningScripts lib handler_code conf = Ret scr"
  shows "length (somes (script_texts scr)) = script_count conf"
proof -
  obtain code where "script_texts scr = map RIVET_SCRIPT_INIT [rivet_before_script conf, rivet_after_script conf,
      rivet_error_script conf, rivet_abort_script conf, after_every_script conf] @ [Some code]"
    using assms by (auto simp: Rivet_RunningScripts_def bindO_Ret_iff script_texts_def)
  then show ?thesis by (simp only: somes_append length_append somes_init script_count_def) simp
qed

lemma user_request_result:
  assumes "fresh_heap h" "Rivet_RunningScripts lib handler_code conf = Ret scr"
  shows "\<exists>h'. user_request lib handler_code (conf, evaluated) h = Ret h' \<and> fresh_heap h'
    \<and> live h' = live h + (if evaluated then 1 else script_count conf)"
proof (cases evaluated)
  case True
  obtain objs h' h'' i where s: "running_objects lib handler_code conf h = Ret (objs, h')"
    "Rivet_ReleaseScripts objs h' = Ret h''" "objects h i = None" "fresh_heap h''"
    "objects h'' = (objects h)(i \<mapsto> (the (request_processing scr), 1))"
    using script_objects_lifetime [OF assms] by blast
  then have "live h'' = live h + 1" using finite_objects [OF assms(1)] by (simp add: live_def card_insert_if domIff)
  with s True show ?thesis by (simp add: user_request_def)
next
  case False
  obtain os h' where m: "make_all (script_texts scr) h = (os, h')" by fastforce
  note made = make_all_result [OF assms(1) m]
  have dom: "dom (objects h') = dom (objects h) \<union> set (somes os)"
    using made assms(1) by (auto simp: fresh_heap_def)
  have apart: "dom (objects h) \<inter> set (somes os) = {}" using made assms(1) by (fastforce simp: fresh_heap_def)
  have "length (somes os) = length (somes (map (map_option (\<lambda>i. fst (the (objects h' i)))) os))"
    by (induction os rule: somes.induct) simp_all
  also have "\<dots> = script_count conf" using made script_count_texts [OF assms(2)] by simp
  finally have "card (set (somes os)) = script_count conf" using made by (simp add: distinct_card)
  then have "live h' = live h + script_count conf"
    using finite_objects [OF assms(1)] apart by (simp add: live_def dom card_Un_disjoint)
  with running_objects_made [OF assms(2) m] made False show ?thesis by (simp add: user_request_def)
qed

text \<open>C40: the scripts made for a configuration are the objects of its script values. Releasing the scripts of
  an interpreter frees them all; releasing those of a request with a configuration of the user leaves the
  request handler, so such requests leave one object each, and all of theirs when they fail a check.\<close>

theorem user_requests_leave_objects:
  assumes "fresh_heap h" "\<forall>(conf, evaluated) \<in> set requests. \<exists>scr. Rivet_RunningScripts lib handler_code conf = Ret scr"
  shows "\<exists>h'. user_requests lib handler_code requests h = Ret h'
    \<and> live h' = live h + sum_list (map (\<lambda>(conf, evaluated). if evaluated then 1 else script_count conf) requests)"
  using assms
proof (induction requests arbitrary: h)
  case (Cons request requests)
  obtain conf evaluated where r: "request = (conf, evaluated)" by fastforce
  then obtain scr where "Rivet_RunningScripts lib handler_code conf = Ret scr" using Cons.prems(2) by auto
  then obtain h1 where h1: "user_request lib handler_code (conf, evaluated) h = Ret h1" "fresh_heap h1"
    "live h1 = live h + (if evaluated then 1 else script_count conf)"
    using user_request_result [OF Cons.prems(1)] by blast
  from Cons.IH [OF h1(2)] Cons.prems(2) show ?case by (auto simp: r h1)
qed simp

section \<open>Behaviours worth knowing\<close>

text \<open>The scripts remembered for a directory section are those of the first request in it, also when its
  configuration came from a file of the user: a later request of the section without that file runs them.\<close>

lemma user_scripts_remembered:
  assumes "per_dir_config rec = Some (Some rdc)" "path rdc = Some dir" "per_dir_scripts ri (cstr dir) = None"
    and "Rivet_RunningScripts (gen_files lib) (Rivet_Generator.default_handler lib)
           (merged_conf (gen_conf lib) (module_config (r_server rec)) rdc) = Ret scr"
    and "choose_scripts lib rec (pd, ri) = Ret (pd', ri')"
    and "per_dir_config later = Some (Some rdc')" "path rdc' = Some dir" "\<not> USER_CONF_UPDATED rdc'"
  shows "\<exists>pd''. choose_scripts lib later (pd', ri') = Ret (pd'', ri') \<and> running pd'' = Some scr"
proof -
  have "per_dir_scripts ri' (cstr dir) = Some scr"
    using assms(1-5) by (auto simp: choose_scripts_def dir_scripts_def user_scripts_def Let_def bindO_Ret_iff split: if_splits)
  then show ?thesis
    using assms(6-8) by (simp add: choose_scripts_def dir_scripts_def user_scripts_def Let_def)
qed

section \<open>Examples\<close>

definition demo_heap :: tcl_heap where
  "demo_heap = \<lparr> objects = (\<lambda>_. None), next_obj = 0 \<rparr>"

definition demo_user_conf :: rivet_server_conf where
  "demo_user_conf = RIVET_NEW_CONF\<lparr>rivet_before_script := Some ''puts hello''\<rparr>"

theorem user_requests_leave_objects_witness:
  "\<exists>h'. user_requests (gen_files demo_gen) ''handle'' [(demo_user_conf, True), (demo_user_conf, False)] demo_heap = Ret h' \<and> live h' = 3"
proof -
  have "\<exists>scr. Rivet_RunningScripts (gen_files demo_gen) ''handle'' demo_user_conf = Ret scr"
    by (simp add: Rivet_RunningScripts_def demo_user_conf_def RIVET_NEW_CONF_def)
  moreover have "fresh_heap demo_heap" "live demo_heap = 0" by (simp_all add: fresh_heap_def live_def demo_heap_def)
  moreover have "script_count demo_user_conf = 2"
    by (simp add: script_count_def demo_user_conf_def RIVET_NEW_CONF_def)
  ultimately show ?thesis
    using user_requests_leave_objects [of demo_heap "[(demo_user_conf, True), (demo_user_conf, False)]" "gen_files demo_gen" "''handle''"]
    by (simp del: user_requests.simps add: numeral_3_eq_3)
qed

end
