(* ===== verification/Rivet_Apreq.thy ===== *)
theory Rivet_Apreq
  imports Rivet_Core
begin

text \<open>
  The rest of the request library, src/src/request/apache_request.c: new request objects, reading
  parameters, temporary files of uploads, expiry dates; and the small operations of the request object
  of src/src/mod_rivet_ng/TclWebapache.c.
\<close>

section \<open>New request objects\<close>

text \<open>The pointer to the request record is NULL until \<open>ApacheRequest_init\<close>; \<open>r\<close> stands in its place.\<close>

definition ApacheRequest_new :: "request_rec \<Rightarrow> apache_request" where
  "ApacheRequest_new r = \<lparr> status = HTTP_OK, parms = [], upload = [], post_max = - 1, disable_uploads = False,
     has_upload_hook = False, temp_dir = None, raw_post = None, raw_length = 0, parsed = False, nargs = 0, req_r = r \<rparr>"

text \<open>The fields of httpd's request record beside those of the object are given.\<close>

definition TclWeb_NewRequestObject :: "request_rec \<Rightarrow> tclweb \<Rightarrow> tclweb" where
  "TclWeb_NewRequestObject r rest =
     rest\<lparr>apachereq := ApacheRequest_new r, headers_printed := False, headers_set := False, content_sent := 0,
          environment_set := 0, charset := None, req_upload := None\<rparr>"

text \<open>Nothing of an earlier request is left in an object that is initialized for a new one.\<close>

lemma init_is_new: "ApacheRequest_init req r = ApacheRequest_new r"
  by (cases req) (simp add: ApacheRequest_init_def ApacheRequest_new_def)

section \<open>Parameters\<close>

definition ApacheRequest_param ::
    "apr_lib \<Rightarrow> upload_env \<Rightarrow> nat \<Rightarrow> client \<Rightarrow> mp_client \<Rightarrow> apache_request \<Rightarrow> bytes \<Rightarrow>
     (apache_request \<times> bytes option) outcome" where
  "ApacheRequest_param lib env fuel cl mcl req key =
     bindO (ApacheRequest_parse lib env fuel cl mcl req) (\<lambda>req. Ret (req, apr_table_get lib (parms req) key))"

definition ApacheRequest_params ::
    "apr_lib \<Rightarrow> upload_env \<Rightarrow> nat \<Rightarrow> client \<Rightarrow> mp_client \<Rightarrow> apache_request \<Rightarrow> bytes \<Rightarrow>
     (apache_request \<times> bytes list) outcome" where
  "ApacheRequest_params lib env fuel cl mcl req key =
     bindO (ApacheRequest_parse lib env fuel cl mcl req) (\<lambda>req. Ret (req, params_of req key))"

definition ApacheRequest_params_as_string ::
    "apr_lib \<Rightarrow> upload_env \<Rightarrow> nat \<Rightarrow> client \<Rightarrow> mp_client \<Rightarrow> apache_request \<Rightarrow> bytes \<Rightarrow>
     (apache_request \<times> bytes option) outcome" where
  "ApacheRequest_params_as_string lib env fuel cl mcl req key =
     bindO (ApacheRequest_params lib env fuel cl mcl req key)
       (\<lambda>(req, values). Ret (req, params_as_string_loop values None))"

definition ApacheRequest_get_raw_post :: "apache_request \<Rightarrow> bytes option \<times> int" where
  "ApacheRequest_get_raw_post req = (raw_post req, raw_length req)"

lemma join_with_Cons: "zs \<noteq> [] \<Longrightarrow> join_with sep (y # zs) = y @ sep @ join_with sep zs"
  by (cases zs) simp_all

lemma params_as_string_join:
  "params_as_string_loop vs (Some s) = Some (s @ join_with '', '' vs)"
proof (induction vs arbitrary: s)
  case (Cons v vs)
  then show ?case by (cases "vs = []") (simp_all add: join_with_Cons)
qed simp

lemma params_as_string:
  "params_as_string_loop vs None = (if vs = [] then None else Some (join_with '', '' vs))"
proof (cases vs)
  case (Cons v ws)
  then show ?thesis by (cases "ws = []") (simp_all add: join_with_Cons params_as_string_join)
qed simp

section \<open>Temporary files\<close>

text \<open>The directory for temporary files, the composition of a path, the making of a new file from a template, are calls of
  APR; the files there are, and the clean-ups registered with the pool of the request.\<close>

record tmp_lib =
  apr_temp_dir_get :: "bytes option"
  apr_filepath_merge :: "bytes \<Rightarrow> bytes \<Rightarrow> bytes option"
  apr_file_mktemp :: "bytes set \<Rightarrow> bytes \<Rightarrow> bytes option"

record tmp_state =
  tmp_files :: "bytes set"
  tmp_cleanups :: "bytes list"

definition ApacheRequest_tmpfile ::
    "tmp_lib \<Rightarrow> int \<Rightarrow> apache_request \<Rightarrow> tmp_state \<Rightarrow> tmp_state \<times> bytes option" where
  "ApacheRequest_tmpfile lib time req st =
     (let file = printf_d (time mod 2 ^ 32) @ ''.XXXXXX'' in
      case apr_temp_dir_get lib of
        None \<Rightarrow> (st, None)
      | Some tempdir \<Rightarrow>
          (case apr_filepath_merge lib tempdir file of
             None \<Rightarrow> (st, None)
           | Some name \<Rightarrow>
               (case apr_file_mktemp lib (tmp_files st) name of
                  None \<Rightarrow> (st, None)
                | Some tempname \<Rightarrow>
                    (st\<lparr>tmp_files := insert tempname (tmp_files st), tmp_cleanups := tempname # tmp_cleanups st\<rparr>,
                     Some tempname))))"

text \<open>A file that cannot be removed stays; \<open>removable\<close> is what the operating system lets go.\<close>

definition remove_tmpfile :: "(bytes \<Rightarrow> bool) \<Rightarrow> bytes \<Rightarrow> tmp_state \<Rightarrow> tmp_state" where
  "remove_tmpfile removable tempname st =
     (if removable tempname then st\<lparr>tmp_files := tmp_files st - {tempname}\<rparr> else st)"

text \<open>The end of the request runs the clean-ups, the last one first.\<close>

definition end_of_request :: "(bytes \<Rightarrow> bool) \<Rightarrow> tmp_state \<Rightarrow> tmp_state" where
  "end_of_request removable st = (fold (remove_tmpfile removable) (tmp_cleanups st) st)\<lparr>tmp_cleanups := []\<rparr>"

text \<open>The upload directory of the configuration plays no part.\<close>

lemma tmpfile_ignores_upload_dir:
  "ApacheRequest_tmpfile lib t (req\<lparr>temp_dir := dir\<rparr>) st = ApacheRequest_tmpfile lib t req st"
  by (simp add: ApacheRequest_tmpfile_def)

text \<open>The uploads of a request, and its end.\<close>

fun tmpfiles :: "tmp_lib \<Rightarrow> int \<Rightarrow> apache_request list \<Rightarrow> tmp_state \<Rightarrow> tmp_state" where
  "tmpfiles lib t [] st = st"
| "tmpfiles lib t (req # reqs) st = tmpfiles lib t reqs (fst (ApacheRequest_tmpfile lib t req st))"

definition new_names :: "tmp_lib \<Rightarrow> bool" where
  "new_names lib \<longleftrightarrow> (\<forall>files template name. apr_file_mktemp lib files template = Some name \<longrightarrow> name \<notin> files)"

lemma tmpfile_result:
  assumes "new_names lib"
  obtains "ApacheRequest_tmpfile lib t req st = (st, None)"
  | name where "name \<notin> tmp_files st" "ApacheRequest_tmpfile lib t req st =
      (st\<lparr>tmp_files := insert name (tmp_files st), tmp_cleanups := name # tmp_cleanups st\<rparr>, Some name)"
  using assms unfolding ApacheRequest_tmpfile_def new_names_def Let_def
  by (fastforce split: option.splits)

lemma tmpfiles_result:
  assumes "new_names lib" "tmp_files st = files \<union> set (tmp_cleanups st)" "files \<inter> set (tmp_cleanups st) = {}"
  shows "tmp_files (tmpfiles lib t reqs st) = files \<union> set (tmp_cleanups (tmpfiles lib t reqs st))
    \<and> files \<inter> set (tmp_cleanups (tmpfiles lib t reqs st)) = {}"
  using assms(2,3)
proof (induction reqs arbitrary: st)
  case (Cons req reqs)
  show ?case
    by (cases rule: tmpfile_result [OF assms(1), of t req st]) (use Cons in auto)
qed simp

lemma remove_all:
  "tmp_files (fold (remove_tmpfile removable) names st) = tmp_files st - {n \<in> set names. removable n}"
  by (induction names arbitrary: st) (auto simp: remove_tmpfile_def)

text \<open>However many uploads a request has, its temporary files are gone at its end, except those the operating
  system does not remove, and no other file is touched.\<close>

lemma uploads_removed:
  assumes "new_names lib" "tmp_cleanups st = []"
  shows "\<exists>left. tmp_files (end_of_request removable (tmpfiles lib t reqs st)) = tmp_files st \<union> left
    \<and> tmp_files st \<inter> left = {} \<and> (\<forall>n \<in> left. \<not> removable n)"
proof -
  let ?s = "tmpfiles lib t reqs st"
  have "tmp_files ?s = tmp_files st \<union> set (tmp_cleanups ?s)" "tmp_files st \<inter> set (tmp_cleanups ?s) = {}"
    using tmpfiles_result [OF assms(1), of st "tmp_files st"] assms(2) by simp_all
  then show ?thesis
    by (intro exI [of _ "{n \<in> set (tmp_cleanups ?s). \<not> removable n}"]) (auto simp: end_of_request_def remove_all)
qed

section \<open>Small operations of the request object\<close>

definition TclWeb_SendHeaders :: "tclweb \<Rightarrow> tclweb \<times> bool" where
  "TclWeb_SendHeaders req = (req\<lparr>sent := sent req + 1\<rparr>, True)"

definition TclWeb_OutputHeaderSet :: "web_lib \<Rightarrow> bytes \<Rightarrow> bytes \<Rightarrow> tclweb \<Rightarrow> tclweb" where
  "TclWeb_OutputHeaderSet lib header val req =
     req\<lparr>headers_out := apr_table_set (web_apr lib) (headers_out req) header val\<rparr>"

definition TclWeb_MakeURL :: "core_lib \<Rightarrow> bytes option \<Rightarrow> tobj outcome" where
  "TclWeb_MakeURL lib fname = Ret (TStr (ap_construct_url lib fname))"

text \<open>The next three assign the pointer they have been passed: the result of the caller stays as it was.\<close>

definition TclWeb_Base64Encode :: "(bytes \<Rightarrow> bytes) \<Rightarrow> bytes \<Rightarrow> bytes \<Rightarrow> bytes \<times> bool" where
  "TclWeb_Base64Encode ap_pbase64encode out inp = (let out' = ap_pbase64encode inp in (out, True))"

definition TclWeb_Base64Decode :: "(bytes \<Rightarrow> bytes) \<Rightarrow> bytes \<Rightarrow> bytes \<Rightarrow> bytes \<times> bool" where
  "TclWeb_Base64Decode ap_pbase64decode out inp = (let out' = ap_pbase64decode inp in (out, True))"

definition TclWeb_EscapeShellCommand :: "(bytes \<Rightarrow> bytes) \<Rightarrow> bytes \<Rightarrow> bytes \<Rightarrow> bytes \<times> bool" where
  "TclWeb_EscapeShellCommand escape_cmd out inp = (let out' = escape_cmd inp in (out, True))"

lemma base64_lost: "TclWeb_Base64Encode f out inp = (out, True)" "TclWeb_Base64Decode f out inp = (out, True)"
  "TclWeb_EscapeShellCommand f out inp = (out, True)"
  by (simp_all add: TclWeb_Base64Encode_def TclWeb_Base64Decode_def TclWeb_EscapeShellCommand_def)

section \<open>Dates\<close>

text \<open>\<open>gmtime\<close> of the C library: the calendar of a number of seconds since the start of 1970.\<close>

record tm =
  tm_sec :: int
  tm_min :: int
  tm_hour :: int
  tm_mday :: int
  tm_mon :: nat
  tm_year :: int
  tm_wday :: nat

definition leap_year :: "int \<Rightarrow> bool" where
  "leap_year y \<longleftrightarrow> y mod 4 = 0 \<and> (y mod 100 \<noteq> 0 \<or> y mod 400 = 0)"

definition year_days :: "int \<Rightarrow> int" where "year_days y = (if leap_year y then 366 else 365)"

definition month_days :: "int \<Rightarrow> int list" where
  "month_days y = [31, if leap_year y then 29 else 28, 31, 30, 31, 30, 31, 31, 30, 31, 30, 31]"

function year_of :: "int \<Rightarrow> int \<Rightarrow> int \<times> int" where
  "year_of y d =
     (if d < 0 then year_of (y - 1) (d + year_days (y - 1))
      else if d < year_days y then (y, d) else year_of (y + 1) (d - year_days y))"
  by auto
termination
  by (relation "measure (\<lambda>(y, d). if d < 0 then nat (- d) + 366 else nat d)") (auto simp: year_days_def split: if_splits)

declare year_of.simps [simp del]

fun month_of :: "int list \<Rightarrow> int \<Rightarrow> nat \<times> int" where
  "month_of [] d = (0, d)"
| "month_of (n # ns) d = (if d < n then (0, d) else (case month_of ns (d - n) of (m, d) \<Rightarrow> (m + 1, d)))"

definition gmtime :: "int \<Rightarrow> tm" where
  "gmtime t =
     (let days = t div 86400; secs = t mod 86400; (y, yday) = year_of 1970 days; (m, mday) = month_of (month_days y) yday
      in \<lparr> tm_sec = secs mod 60, tm_min = secs div 60 mod 60, tm_hour = secs div 3600, tm_mday = mday + 1,
           tm_mon = m, tm_year = y - 1900, tm_wday = nat ((days + 4) mod 7) \<rparr>)"

definition apr_day_snames :: "bytes list" where
  "apr_day_snames = [''Sun'', ''Mon'', ''Tue'', ''Wed'', ''Thu'', ''Fri'', ''Sat'']"

definition apr_month_snames :: "bytes list" where
  "apr_month_snames = [''Jan'', ''Feb'', ''Mar'', ''Apr'', ''May'', ''Jun'', ''Jul'', ''Aug'', ''Sep'', ''Oct'', ''Nov'', ''Dec'']"

definition printf_2d :: "int \<Rightarrow> bytes" where
  "printf_2d n = (if 0 \<le> n \<and> n < 10 then CHR ''0'' # printf_d n
                  else if - 10 < n \<and> n < 0 then ''-0'' @ printf_d (- n) else printf_d n)"

definition EXPIRES_HTTP :: int where "EXPIRES_HTTP = 1"

definition expires_text :: "bytes \<Rightarrow> tm \<Rightarrow> bytes" where
  "expires_text sep tms =
     apr_day_snames ! tm_wday tms @ '', '' @ printf_2d (tm_mday tms) @ sep @ apr_month_snames ! tm_mon tms @ sep
     @ printf_2d (tm_year tms + 1900) @ '' '' @ printf_2d (tm_hour tms) @ '':'' @ printf_2d (tm_min tms)
     @ '':'' @ printf_2d (tm_sec tms) @ '' GMT''"

definition ApacheUtil_expires :: "int \<Rightarrow> bytes option \<Rightarrow> int \<Rightarrow> bytes option outcome" where
  "ApacheUtil_expires now time_str type =
     (let sep = (if type = EXPIRES_HTTP then '' '' else ''-'') in
      case time_str of
        None \<Rightarrow> Ret None
      | Some time_str \<Rightarrow>
          bindO (expire_calc now time_str)
            (\<lambda>when. if when = 0 then Ret (Some (cstr time_str)) else Ret (Some (expires_text sep (gmtime when)))))"

definition ApacheRequest_expires :: "int \<Rightarrow> bytes option \<Rightarrow> bytes option outcome" where
  "ApacheRequest_expires now time_str = ApacheUtil_expires now time_str EXPIRES_HTTP"

text \<open>The instant a date stands for, computed from the number of leap years before it.\<close>

definition days_before :: "int \<Rightarrow> int" where
  "days_before y = 365 * (y - 1970) + ((y - 1) div 4 - (y - 1) div 100 + (y - 1) div 400) - 477"

definition timegm :: "tm \<Rightarrow> int" where
  "timegm tms =
     (let y = tm_year tms + 1900; days = days_before y + sum_list (take (tm_mon tms) (month_days y)) + tm_mday tms - 1
      in ((days * 24 + tm_hour tms) * 60 + tm_min tms) * 60 + tm_sec tms)"

lemma div_pred:
  fixes y :: int
  assumes "0 < k"
  shows "y div k = (y - 1) div k + (if y mod k = 0 then 1 else 0)"
proof (cases "y mod k = 0")
  case True
  then obtain q where "y = k * q" by (meson dvd_def mod_0_imp_dvd)
  moreover have "(k * q - 1) div k = q - 1"
    using assms by (intro int_div_pos_eq [of _ _ _ "k - 1"]) (auto simp: algebra_simps)
  ultimately show ?thesis using True assms by simp
next
  case False
  have "0 \<le> y mod k" "y mod k < k" using assms by simp_all
  moreover have "y = k * (y div k) + y mod k" by simp
  ultimately have "(y - 1) div k = y div k"
    using False by (intro int_div_pos_eq [of _ _ _ "y mod k - 1"]) linarith+
  then show ?thesis using False by simp
qed

lemma days_before_Suc: "days_before (y + 1) = days_before y + year_days y"
proof -
  have leap: "(if a \<and> (\<not> b \<or> c) then 366 else 365) = (365 :: int) + (if a then 1 else 0) - (if b then 1 else 0) + (if c then 1 else 0)"
    if "c \<longrightarrow> b" "b \<longrightarrow> a" for a b c :: bool
    using that by (cases a; cases b; cases c) simp_all
  have mods: "y mod 400 = 0 \<longrightarrow> y mod 100 = 0" "y mod 100 = 0 \<longrightarrow> y mod 4 = 0"
    using dvd_trans [of 100 400 y, simplified] dvd_trans [of 4 100 y, simplified]
    unfolding mod_eq_0_iff_dvd by blast+
  have days: "year_days y = 365 + (if y mod 4 = 0 then 1 else 0) - (if y mod 100 = 0 then 1 else 0)
      + (if y mod 400 = 0 then 1 else 0)"
    unfolding year_days_def leap_year_def by (rule leap [OF mods])
  have pred: "y div 4 = (y - 1) div 4 + (if y mod 4 = 0 then 1 else 0)"
    "y div 100 = (y - 1) div 100 + (if y mod 100 = 0 then 1 else 0)"
    "y div 400 = (y - 1) div 400 + (if y mod 400 = 0 then 1 else 0)" by (rule div_pred, simp)+
  have sum: "365 * (y + 1 - 1970) + (a + i - (b + j) + (c + k)) - 477 = 365 * (y - 1970) + (a - b + c) - 477 + (365 + i - j + k)"
    for a b c i j k :: int by simp
  show ?thesis unfolding days_before_def add_diff_cancel days pred by (rule sum)
qed

lemma year_of_result:
  "year_of y d = (y', d') \<Longrightarrow> days_before y' + d' = days_before y + d \<and> 0 \<le> d' \<and> d' < year_days y'"
proof (induction y d arbitrary: y' d' rule: year_of.induct)
  case (1 y d)
  note step = "1.prems" [unfolded year_of.simps [of y d]]
  consider "d < 0" | "0 \<le> d" "d < year_days y" | "0 \<le> d" "\<not> d < year_days y" by linarith
  then show ?case
  proof cases
    case 1
    with step "1.IH"(1) show ?thesis using days_before_Suc [of "y - 1"] by simp
  next
    case 2
    with step show ?thesis by simp
  next
    case 3
    with step "1.IH"(2) show ?thesis using days_before_Suc [of y] by simp
  qed
qed

lemma month_of_result:
  "month_of ns d = (m, d') \<Longrightarrow> sum_list (take m ns) + d' = d"
  by (induction ns d arbitrary: m d' rule: month_of.induct) (auto split: if_splits prod.splits)

text \<open>The date written for an expiry time stands for the clock plus the offset.\<close>

lemma gmtime_instant: "timegm (gmtime t) = t"
proof -
  obtain y yday where y: "year_of 1970 (t div 86400) = (y, yday)" by fastforce
  obtain m mday where m: "month_of (month_days y) yday = (m, mday)" by fastforce
  have "days_before 1970 = 0" by (simp add: days_before_def)
  then have d: "days_before y + (sum_list (take m (month_days y)) + mday) = t div 86400"
    using year_of_result [OF y] month_of_result [OF m] by simp
  let ?s = "t mod 86400"
  have "?s div 3600 = ?s div 60 div 60" by (simp add: div_mult2_eq [symmetric])
  then have "?s div 3600 * 60 + ?s div 60 mod 60 = ?s div 60" by simp
  then have "(?s div 3600 * 60 + ?s div 60 mod 60) * 60 + ?s mod 60 = ?s" by simp
  moreover have "t div 86400 * 86400 + ?s = t" by simp
  moreover have "timegm (gmtime t) = (((days_before y + sum_list (take m (month_days y)) + (mday + 1) - 1) * 24
      + ?s div 3600) * 60 + ?s div 60 mod 60) * 60 + ?s mod 60"
    by (simp only: timegm_def gmtime_def y m Let_def prod.case tm.select_convs diff_add_cancel)
  ultimately show ?thesis using d
    by (simp only: ring_distribs mult.assoc)
qed

end
