(* ===== verification/Spec2Isabelle.thy ===== *)
theory Spec2Isabelle
  imports Rivet_WWW Rivet_Crypt Rivet_List Rivet_Parser Rivet_Cache Rivet_Config Rivet_TclWeb Rivet_Scripts Rivet_Inspect Rivet_Worker Rivet_Lazy Rivet_Tcl Rivet_Startup Rivet_Objects Rivet_Apreq
begin

text \<open>
  Root of the development.
\<close>

end
